(* ===== verification/Prelude.thy ===== *)
theory Prelude
  imports Main "HOL-Library.Sublist"
begin

text \<open>
  The base of the development: the result type that stands for Go's \<open>(value, error)\<close> pairs,
  the collections of rewrite rules the component theories share, and generic facts on lists
  that the component proofs use.
\<close>

section \<open>Results\<close>

text \<open>
  A Go function that returns a value and an \<open>error\<close> is a function into \<open>'e + 'a\<close>: \<open>Err e\<close> when
  the error is not \<open>nil\<close>, \<open>Ok v\<close> otherwise. Where the code uses the value although there is an
  error, the model returns a pair instead.
\<close>

type_synonym ('e, 'a) result = "'e + 'a"

abbreviation Ok :: "'a \<Rightarrow> ('e, 'a) result" where
  "Ok \<equiv> Inr"

abbreviation Err :: "'e \<Rightarrow> ('e, 'a) result" where
  "Err \<equiv> Inl"

text \<open>An early return on an error: \<open>if err != nil { return err }\<close>.\<close>

definition and_then :: "('e, 'a) result \<Rightarrow> ('a \<Rightarrow> ('e, 'b) result) \<Rightarrow> ('e, 'b) result" where
  "and_then r f = (case r of Inl e \<Rightarrow> Inl e | Inr v \<Rightarrow> f v)"

lemma and_then_simps [simp]:
  "and_then (Inl e) f = Inl e"
  "and_then (Inr v) f = f v"
  by (simp_all add: and_then_def)

lemma and_then_Ok_iff: "and_then r f = Inr b \<longleftrightarrow> (\<exists>a. r = Inr a \<and> f a = Inr b)"
  by (cases r) auto

lemma and_then_Err_iff:
  "and_then r f = Inl e \<longleftrightarrow> r = Inl e \<or> (\<exists>a. r = Inr a \<and> f a = Inl e)"
  by (cases r) auto

definition is_ok :: "('e, 'a) result \<Rightarrow> bool" where
  "is_ok r = (case r of Inl _ \<Rightarrow> False | Inr _ \<Rightarrow> True)"

lemma is_ok_simps [simp]: "\<not> is_ok (Inl e)" "is_ok (Inr v)"
  by (simp_all add: is_ok_def)

section \<open>Rule collections\<close>

named_theorems go_str \<open>rewrite rules for the model of Go's strings package\<close>
named_theorems go_eval \<open>evaluation of the string functions on concrete strings\<close>
named_theorems conn_inv \<open>preservation of the invariants of an SMTP connection\<close>

section \<open>Lists\<close>

lemma prefix_Cons_iff: "prefix (x # xs) ys \<longleftrightarrow> (\<exists>zs. ys = x # zs \<and> prefix xs zs)"
  by (cases ys) auto

lemma takeWhile_all: "\<forall>x \<in> set xs. P x \<Longrightarrow> takeWhile P xs = xs"
  by (simp add: takeWhile_eq_all_conv)

lemma dropWhile_append_hit:
  "\<forall>x \<in> set xs. P x \<Longrightarrow> \<not> P y \<Longrightarrow> dropWhile P (xs @ y # ys) = y # ys"
  by (induction xs) auto

lemma takeWhile_append_hit:
  "\<forall>x \<in> set xs. P x \<Longrightarrow> \<not> P y \<Longrightarrow> takeWhile P (xs @ y # ys) = xs"
  by (induction xs) auto

lemma hd_dropWhile_not: "dropWhile P xs \<noteq> [] \<Longrightarrow> \<not> P (hd (dropWhile P xs))"
  by (induction xs) auto

lemma dropWhile_id: "xs = [] \<or> \<not> P (hd xs) \<Longrightarrow> dropWhile P xs = xs"
  by (cases xs) auto

lemma dropWhile_idem: "dropWhile P (dropWhile P xs) = dropWhile P xs"
  by (metis dropWhile_id hd_dropWhile_not)

definition trim_both :: "('a \<Rightarrow> bool) \<Rightarrow> 'a list \<Rightarrow> 'a list" where
  "trim_both P xs = rev (dropWhile P (rev (dropWhile P xs)))"

lemma trim_both_Nil [simp]: "trim_both P [] = []"
  by (simp add: trim_both_def)

lemma trim_both_id:
  assumes "xs = [] \<or> (\<not> P (hd xs) \<and> \<not> P (last xs))"
  shows "trim_both P xs = xs"
proof (cases "xs = []")
  case False
  with assms have "dropWhile P xs = xs" and "dropWhile P (rev xs) = rev xs"
    by (auto intro!: dropWhile_id simp: hd_rev)
  then show ?thesis by (simp add: trim_both_def)
qed simp

lemma set_trim_both: "set (trim_both P xs) \<subseteq> set xs"
proof
  fix x
  assume "x \<in> set (trim_both P xs)"
  then have "x \<in> set (dropWhile P xs)"
    unfolding trim_both_def by (metis set_dropWhileD set_rev)
  then show "x \<in> set xs" by (blast dest: set_dropWhileD)
qed

lemma trim_both_ends:
  assumes "trim_both P xs \<noteq> []"
  shows "\<not> P (hd (trim_both P xs)) \<and> \<not> P (last (trim_both P xs))"
proof -
  let ?d = "dropWhile P xs"
  have d: "?d \<noteq> []" using assms unfolding trim_both_def by force
  have r: "dropWhile P (rev ?d) \<noteq> []" using assms by (simp add: trim_both_def)
  obtain ys where ys: "rev ?d = ys @ dropWhile P (rev ?d)"
    by (metis takeWhile_dropWhile_id)
  then have "?d = rev (dropWhile P (rev ?d)) @ rev ys"
    by (metis rev_append rev_rev_ident)
  then have "hd ?d = hd (rev (dropWhile P (rev ?d)))"
    using r by (metis hd_append2 rev_is_Nil_conv)
  moreover have "\<not> P (hd ?d)" using d by (rule hd_dropWhile_not)
  moreover have "\<not> P (hd (dropWhile P (rev ?d)))" using r by (rule hd_dropWhile_not)
  ultimately show ?thesis using r by (simp add: trim_both_def last_rev)
qed

lemma trim_both_idem: "trim_both P (trim_both P xs) = trim_both P xs"
  by (metis trim_both_ends trim_both_id)

text \<open>What is left of an integer in Go's \<open>int64\<close>.\<close>

definition wrap64 :: "int \<Rightarrow> int" where
  "wrap64 x = (x + 2 ^ 63) mod 2 ^ 64 - 2 ^ 63"

lemma map_of_None_iff: "map_of xs k = None \<longleftrightarrow> k \<notin> fst ` set xs"
  by (rule map_of_eq_None_iff)

end
