(* ===== verification/GoStrings.thy ===== *)
theory GoStrings
  imports Prelude
begin

text \<open>
  The part of Go's \<open>strings\<close>, \<open>bytes\<close>, \<open>unicode/utf8\<close> and \<open>strconv\<close> packages that chasquid uses.
  A Go string or byte slice is a \<open>string\<close>, that is a list of 8-bit \<open>char\<close>s (bytes). Functions of
  Go that work on runes decode UTF-8 first, as Go does: every invalid byte is the rune U+FFFD
  of width 1.
\<close>

section \<open>Bytes\<close>

abbreviation NUL :: char where "NUL \<equiv> CHR 0x00"
abbreviation TAB :: char where "TAB \<equiv> CHR 0x09"
abbreviation LF :: char where "LF \<equiv> CHR 0x0A"
abbreviation CR :: char where "CR \<equiv> CHR 0x0D"
abbreviation SP :: char where "SP \<equiv> CHR '' ''"
abbreviation CRLF :: string where "CRLF \<equiv> [CR, LF]"

abbreviation byte :: "char \<Rightarrow> nat" where
  "byte \<equiv> of_char"

definition is_ascii_byte :: "char \<Rightarrow> bool" where
  "is_ascii_byte c \<longleftrightarrow> byte c < 128"

definition is_ascii :: "string \<Rightarrow> bool" where
  "is_ascii s = list_all is_ascii_byte s"

definition in_range :: "char \<Rightarrow> char \<Rightarrow> char \<Rightarrow> bool" where
  "in_range lo hi c \<longleftrightarrow> byte lo \<le> byte c \<and> byte c \<le> byte hi"

section \<open>Searching, cutting and splitting\<close>

definition HasPrefix :: "string \<Rightarrow> string \<Rightarrow> bool" where
  "HasPrefix s p = prefix p s"

definition HasSuffix :: "string \<Rightarrow> string \<Rightarrow> bool" where
  "HasSuffix s p = suffix p s"

text \<open>\<open>strings.Index\<close>; the \<open>-1\<close> of Go is \<open>None\<close>.\<close>

fun Index :: "string \<Rightarrow> string \<Rightarrow> nat option" where
  "Index [] sep = (if sep = [] then Some 0 else None)"
| "Index (c # s) sep = (if prefix sep (c # s) then Some 0 else map_option Suc (Index s sep))"

definition Contains :: "string \<Rightarrow> string \<Rightarrow> bool" where
  "Contains s sub \<longleftrightarrow> Index s sub \<noteq> None"

definition Cut :: "string \<Rightarrow> string \<Rightarrow> string \<times> string \<times> bool" where
  "Cut s sep = (case Index s sep of
      Some i \<Rightarrow> (take i s, drop (i + length sep) s, True)
    | None \<Rightarrow> (s, [], False))"

text \<open>\<open>strings.SplitN(s, sep, 2)\<close>: the pieces around the first separator, or the whole string.\<close>

definition SplitN2 :: "string \<Rightarrow> string \<Rightarrow> string list" where
  "SplitN2 s sep = (case Index s sep of
      Some i \<Rightarrow> [take i s, drop (i + length sep) s]
    | None \<Rightarrow> [s])"

text \<open>\<open>strings.Split\<close> with a separator that is not empty.\<close>

function Split :: "string \<Rightarrow> string \<Rightarrow> string list" where
  "Split s sep =
     (if sep = [] then [s]
      else case Index s sep of
          None \<Rightarrow> [s]
        | Some i \<Rightarrow> take i s # Split (drop (i + length sep) s) sep)"
  by pat_completeness auto

lemma Index_Some_bound: "Index s sep = Some i \<Longrightarrow> i + length sep \<le> length s"
proof (induction s sep arbitrary: i rule: Index.induct)
  case (1 sep)
  then show ?case by (auto split: if_splits)
next
  case (2 c s sep)
  then show ?case by (auto split: if_splits dest: prefix_length_le)
qed

termination Split
proof (relation "measure (\<lambda>(s, sep). length s)")
  fix s sep :: string and i
  assume "sep \<noteq> []" and "Index s sep = Some i"
  then have "0 < length sep" and "i + length sep \<le> length s"
    by (simp, blast dest: Index_Some_bound)
  then have "length s - (i + length sep) < length s" by linarith
  then show "((drop (i + length sep) s, sep), (s, sep)) \<in> measure (\<lambda>(s, sep). length s)"
    by simp
qed simp

declare Split.simps [simp del]

fun Join :: "string list \<Rightarrow> string \<Rightarrow> string" where
  "Join [] sep = []"
| "Join [x] sep = x"
| "Join (x # y # xs) sep = x @ sep @ Join (y # xs) sep"

text \<open>\<open>strings.Replace(s, old, new, -1)\<close> and \<open>strings.ReplaceAll\<close>, with \<open>old\<close> not empty.\<close>

definition ReplaceAll :: "string \<Rightarrow> string \<Rightarrow> string \<Rightarrow> string" where
  "ReplaceAll s old new = Join (Split s old) new"

text \<open>\<open>strings.SplitAfter(s, "\n")\<close>.\<close>

fun SplitAfter_LF :: "string \<Rightarrow> string list" where
  "SplitAfter_LF [] = [[]]"
| "SplitAfter_LF (c # s) =
     (if c = LF then [c] # SplitAfter_LF s
      else case SplitAfter_LF s of [] \<Rightarrow> [[c]] | l # ls \<Rightarrow> (c # l) # ls)"

definition TrimSuffix :: "string \<Rightarrow> string \<Rightarrow> string" where
  "TrimSuffix s suf = (if suffix suf s then take (length s - length suf) s else s)"

definition TrimPrefix :: "string \<Rightarrow> string \<Rightarrow> string" where
  "TrimPrefix s p = (if prefix p s then drop (length p) s else s)"

text \<open>\<open>strings.TrimLeft\<close> and \<open>strings.TrimRight\<close> with an ASCII cutset.\<close>

definition TrimLeft :: "string \<Rightarrow> char set \<Rightarrow> string" where
  "TrimLeft s cs = dropWhile (\<lambda>c. c \<in> cs) s"

definition TrimRight :: "string \<Rightarrow> char set \<Rightarrow> string" where
  "TrimRight s cs = rev (dropWhile (\<lambda>c. c \<in> cs) (rev s))"

section \<open>Runes\<close>

definition cont_byte :: "char \<Rightarrow> bool" where
  "cont_byte c \<longleftrightarrow> 128 \<le> byte c \<and> byte c < 192"

text \<open>
  \<open>utf8.DecodeRuneInString\<close> of a string that is not empty: the rune and its width. The bounds on
  the second byte exclude overlong encodings, surrogates and values above U+10FFFF.
\<close>

fun decode_rune :: "string \<Rightarrow> nat \<times> nat" where
  "decode_rune [] = (65533, 0)"
| "decode_rune (a # s) =
     (let b0 = byte a in
      if b0 < 128 then (b0, 1)
      else if 194 \<le> b0 \<and> b0 < 224 then
        (case s of
            b # _ \<Rightarrow>
              if cont_byte b then ((b0 - 192) * 64 + (byte b - 128), 2) else (65533, 1)
          | [] \<Rightarrow> (65533, 1))
      else if 224 \<le> b0 \<and> b0 < 240 then
        (case s of
            b # c # _ \<Rightarrow>
              if cont_byte b \<and> cont_byte c
                 \<and> (b0 = 224 \<longrightarrow> 160 \<le> byte b) \<and> (b0 = 237 \<longrightarrow> byte b < 160)
              then ((b0 - 224) * 4096 + (byte b - 128) * 64 + (byte c - 128), 3)
              else (65533, 1)
          | _ \<Rightarrow> (65533, 1))
      else if 240 \<le> b0 \<and> b0 < 245 then
        (case s of
            b # c # d # _ \<Rightarrow>
              if cont_byte b \<and> cont_byte c \<and> cont_byte d
                 \<and> (b0 = 240 \<longrightarrow> 144 \<le> byte b) \<and> (b0 = 244 \<longrightarrow> byte b < 144)
              then ((b0 - 240) * 262144 + (byte b - 128) * 4096
                    + (byte c - 128) * 64 + (byte d - 128), 4)
              else (65533, 1)
          | _ \<Rightarrow> (65533, 1))
      else (65533, 1))"

lemma decode_rune_width_pos: "s \<noteq> [] \<Longrightarrow> 0 < snd (decode_rune s)"
  by (cases s) (auto simp: Let_def split: list.splits)

lemma decode_rune_width_le: "snd (decode_rune s) \<le> length s"
  by (cases s) (auto simp: Let_def split: list.splits)

text \<open>The runes of a string, each with the bytes it was decoded from.\<close>

function chunks :: "string \<Rightarrow> (nat \<times> string) list" where
  "chunks s =
     (if s = [] then []
      else (fst (decode_rune s), take (snd (decode_rune s)) s)
           # chunks (drop (snd (decode_rune s)) s))"
  by pat_completeness auto
termination
  using decode_rune_width_pos by (relation "measure length") auto

declare chunks.simps [simp del]

text \<open>The runes of a \<open>for _, c := range s\<close> loop.\<close>

definition runes :: "string \<Rightarrow> nat list" where
  "runes s = map fst (chunks s)"

text \<open>The conversion \<open>string(c)\<close> of a rune, its UTF-8 encoding.\<close>

definition encode_rune :: "nat \<Rightarrow> string" where
  "encode_rune r =
     (if r < 128 then [char_of r]
      else if r < 2048 then [char_of (192 + r div 64), char_of (128 + r mod 64)]
      else if (55296 \<le> r \<and> r < 57344) \<or> 1114111 < r then
        [char_of (239 :: nat), char_of (191 :: nat), char_of (189 :: nat)]
      else if r < 65536 then
        [char_of (224 + r div 4096), char_of (128 + r div 64 mod 64), char_of (128 + r mod 64)]
      else
        [char_of (240 + r div 262144), char_of (128 + r div 4096 mod 64),
         char_of (128 + r div 64 mod 64), char_of (128 + r mod 64)])"

text \<open>\<open>unicode.IsSpace\<close> and \<open>unicode.IsControl\<close>.\<close>

definition IsSpace :: "nat \<Rightarrow> bool" where
  "IsSpace r \<longleftrightarrow> (9 \<le> r \<and> r \<le> 13) \<or> r = 32 \<or> r = 133 \<or> r = 160 \<or> r = 5760
     \<or> (8192 \<le> r \<and> r \<le> 8202) \<or> r = 8232 \<or> r = 8233 \<or> r = 8239 \<or> r = 8287 \<or> r = 12288"

definition IsControl :: "nat \<Rightarrow> bool" where
  "IsControl r \<longleftrightarrow> r < 32 \<or> (127 \<le> r \<and> r < 160)"

definition TrimSpace :: "string \<Rightarrow> string" where
  "TrimSpace s = concat (map snd (trim_both (\<lambda>c. IsSpace (fst c)) (chunks s)))"

fun fields_aux :: "(nat \<times> string) list \<Rightarrow> string \<Rightarrow> string list" where
  "fields_aux [] cur = (if cur = [] then [] else [cur])"
| "fields_aux ((r, raw) # cs) cur =
     (if IsSpace r then (if cur = [] then fields_aux cs [] else cur # fields_aux cs [])
      else fields_aux cs (cur @ raw))"

definition Fields :: "string \<Rightarrow> string list" where
  "Fields s = fields_aux (chunks s) []"

text \<open>\<open>strings.Split(s, "")\<close>: one string per rune.\<close>

definition explode_runes :: "string \<Rightarrow> string list" where
  "explode_runes s = map snd (chunks s)"

section \<open>Letter case\<close>

text \<open>
  Go maps an ASCII string byte by byte. For other strings it uses the tables of the Unicode
  Character Database, which are not part of the repository: they are a parameter.
\<close>

record unicode =
  uni_lower :: "string \<Rightarrow> string"
  uni_upper :: "string \<Rightarrow> string"
  uni_fold_eq :: "string \<Rightarrow> string \<Rightarrow> bool"
  uni_print :: "nat \<Rightarrow> bool"

definition lower_byte :: "char \<Rightarrow> char" where
  "lower_byte c = (if in_range (CHR ''A'') (CHR ''Z'') c then char_of (byte c + 32) else c)"

definition upper_byte :: "char \<Rightarrow> char" where
  "upper_byte c = (if in_range (CHR ''a'') (CHR ''z'') c then char_of (byte c - 32) else c)"

definition ToLower :: "unicode \<Rightarrow> string \<Rightarrow> string" where
  "ToLower u s = (if is_ascii s then map lower_byte s else uni_lower u s)"

definition ToUpper :: "unicode \<Rightarrow> string \<Rightarrow> string" where
  "ToUpper u s = (if is_ascii s then map upper_byte s else uni_upper u s)"

definition EqualFold :: "unicode \<Rightarrow> string \<Rightarrow> string \<Rightarrow> bool" where
  "EqualFold u s t =
     (if is_ascii s \<and> is_ascii t then map lower_byte s = map lower_byte t else uni_fold_eq u s t)"

section \<open>Quoting\<close>

text \<open>\<open>strconv.Quote\<close>, which is what the verb \<open>%q\<close> prints.\<close>

definition hex_lower :: "nat \<Rightarrow> char" where
  "hex_lower n = (if n < 10 then char_of (48 + n) else char_of (87 + n))"

fun hex_digits :: "nat \<Rightarrow> nat \<Rightarrow> string" where
  "hex_digits 0 n = []"
| "hex_digits (Suc k) n = hex_digits k (n div 16) @ [hex_lower (n mod 16)]"

definition IsPrint :: "unicode \<Rightarrow> nat \<Rightarrow> bool" where
  "IsPrint u r = (if r < 128 then 32 \<le> r \<and> r < 127 else uni_print u r)"

definition quote_rune :: "unicode \<Rightarrow> nat \<times> string \<Rightarrow> string" where
  "quote_rune u c = (case c of (r, raw) \<Rightarrow>
     if r = 65533 \<and> length raw = 1 then [CHR 0x5C, CHR ''x''] @ hex_digits 2 (byte (hd raw))
     else if r = 34 \<or> r = 92 then CHR 0x5C # raw
     else if IsPrint u r then raw
     else if r = 7 then [CHR 0x5C, CHR ''a''] else if r = 8 then [CHR 0x5C, CHR ''b''] else if r = 12 then [CHR 0x5C, CHR ''f'']
     else if r = 10 then [CHR 0x5C, CHR ''n''] else if r = 13 then [CHR 0x5C, CHR ''r''] else if r = 9 then [CHR 0x5C, CHR ''t'']
     else if r = 11 then [CHR 0x5C, CHR ''v'']
     else if r < 32 \<or> r = 127 then [CHR 0x5C, CHR ''x''] @ hex_digits 2 r
     else if r < 65536 then [CHR 0x5C, CHR ''u''] @ hex_digits 4 r
     else [CHR 0x5C, CHR ''U''] @ hex_digits 8 r)"

definition Quote :: "unicode \<Rightarrow> string \<Rightarrow> string" where
  "Quote u s = CHR 0x22 # concat (map (quote_rune u) (chunks s)) @ [CHR 0x22]"

text \<open>\<open>strconv.QuoteToASCII\<close>, the verb \<open>%+q\<close>: nothing outside ASCII is left as it is.\<close>

definition QuoteToASCII :: "unicode \<Rightarrow> string \<Rightarrow> string" where
  "QuoteToASCII u s = Quote (u\<lparr>uni_print := (\<lambda>_. False)\<rparr>) s"

section \<open>Numbers\<close>

text \<open>\<open>strconv.FormatUint(n, 10)\<close> and \<open>strconv.FormatInt(n, 10)\<close>.\<close>

definition digit_char :: "nat \<Rightarrow> char" where
  "digit_char d = char_of (48 + d)"

fun FormatUint :: "nat \<Rightarrow> string" where
  "FormatUint n = (if n < 10 then [digit_char n] else FormatUint (n div 10) @ [digit_char (n mod 10)])"

declare FormatUint.simps [simp del]

definition FormatInt :: "int \<Rightarrow> string" where
  "FormatInt i = (if i < 0 then CHR ''-'' # FormatUint (nat (- i)) else FormatUint (nat i))"

definition is_digit :: "char \<Rightarrow> bool" where
  "is_digit c = in_range (CHR ''0'') (CHR ''9'') c"

definition digits_value :: "string \<Rightarrow> nat" where
  "digits_value s = foldl (\<lambda>n c. n * 10 + (byte c - 48)) 0 s"

text \<open>
  \<open>strconv.ParseUint(s, 10, bits)\<close>: the value, or \<open>ErrSyntax\<close>, or \<open>ErrRange\<close> (with which Go returns
  the largest value of the width).
\<close>

datatype num_error = ErrSyntax | ErrRange

definition ParseUint :: "string \<Rightarrow> nat \<Rightarrow> (num_error, nat) result" where
  "ParseUint s bits =
     (if s = [] \<or> \<not> list_all is_digit s then Err ErrSyntax
      else if 2 ^ bits \<le> digits_value s then Err ErrRange
      else Ok (digits_value s))"

text \<open>\<open>strconv.ParseInt(s, 10, 64)\<close> and \<open>strconv.Atoi\<close>: one optional sign, then digits.\<close>

definition ParseInt64 :: "string \<Rightarrow> (num_error, int) result" where
  "ParseInt64 s =
     (let (neg, ds) = (case s of
          c # cs \<Rightarrow> if c = CHR ''-'' then (True, cs) else if c = CHR ''+'' then (False, cs) else (False, s)
        | [] \<Rightarrow> (False, []))
      in if ds = [] \<or> \<not> list_all is_digit ds then Err ErrSyntax
         else if \<not> neg \<and> 2 ^ 63 \<le> digits_value ds then Err ErrRange
         else if neg \<and> 2 ^ 63 < digits_value ds then Err ErrRange
         else Ok (if neg then - int (digits_value ds) else int (digits_value ds)))"

section \<open>Facts on searching and splitting\<close>

lemma Index_None_Nil: "Index s [] \<noteq> None"
  by (induction s) auto

lemma Index_Some_split:
  "Index s sep = Some i \<Longrightarrow> s = take i s @ sep @ drop (i + length sep) s"
proof (induction s sep arbitrary: i rule: Index.induct)
  case (1 sep)
  then show ?case by (auto split: if_splits)
next
  case (2 c s sep)
  show ?case
  proof (cases "prefix sep (c # s)")
    case True
    with "2.prems" have "i = 0" by simp
    with True show ?thesis by (auto elim!: prefixE)
  next
    case False
    with "2.prems" obtain j where "Index s sep = Some j" and "i = Suc j" by auto
    with "2.IH" [OF False] show ?thesis by simp
  qed
qed

lemma Index_char_None [go_str]: "Index s [c] = None \<longleftrightarrow> c \<notin> set s"
  by (induction s) (auto simp: prefix_Cons_iff)

lemma Index_char_append [go_str]: "c \<notin> set s \<Longrightarrow> Index (s @ c # t) [c] = Some (length s)"
  by (induction s) (auto simp: prefix_Cons_iff)

lemma Index_char_Some:
  "Index s [c] = Some i \<Longrightarrow> c \<notin> set (take i s) \<and> s = take i s @ c # drop (Suc i) s"
proof (induction s arbitrary: i)
  case Nil
  then show ?case by simp
next
  case (Cons a s)
  show ?case
  proof (cases "a = c")
    case True
    with Cons.prems show ?thesis by simp
  next
    case False
    with Cons.prems obtain j where "Index s [c] = Some j" "i = Suc j"
      by (auto simp: prefix_Cons_iff)
    with Cons.IH [of j] False show ?thesis by auto
  qed
qed

lemma Contains_char [go_str]: "Contains s [c] \<longleftrightarrow> c \<in> set s"
  by (simp add: Contains_def Index_char_None)

lemma Cut_char_found [go_str]: "c \<notin> set s \<Longrightarrow> Cut (s @ c # t) [c] = (s, t, True)"
  by (simp add: Cut_def Index_char_append)

lemma Cut_char_none [go_str]: "c \<notin> set s \<Longrightarrow> Cut s [c] = (s, [], False)"
  using Index_char_None [of s c] by (simp add: Cut_def)

lemma SplitN2_char_found [go_str]: "c \<notin> set s \<Longrightarrow> SplitN2 (s @ c # t) [c] = [s, t]"
  by (simp add: SplitN2_def Index_char_append)

lemma SplitN2_char_none [go_str]: "c \<notin> set s \<Longrightarrow> SplitN2 s [c] = [s]"
  using Index_char_None [of s c] by (simp add: SplitN2_def)

lemma Split_None: "Index s sep = None \<Longrightarrow> Split s sep = [s]"
  by (simp add: Split.simps)

lemma Split_Some:
  "sep \<noteq> [] \<Longrightarrow> Index s sep = Some i \<Longrightarrow>
    Split s sep = take i s # Split (drop (i + length sep) s) sep"
  by (subst Split.simps) simp

lemma Split_not_Nil [simp]: "Split s sep \<noteq> []"
  by (subst Split.simps) (simp split: option.splits)

lemma Split_char_none [go_str]: "c \<notin> set s \<Longrightarrow> Split s [c] = [s]"
  by (simp add: Split_None Index_char_None)

lemma Split_char_append [go_str]: "c \<notin> set s \<Longrightarrow> Split (s @ c # t) [c] = s # Split t [c]"
  by (subst Split_Some [where i = "length s"]) (auto simp: Index_char_append)

lemma Join_Cons: "xs \<noteq> [] \<Longrightarrow> Join (x # xs) sep = x @ sep @ Join xs sep"
  by (cases xs) auto

lemma Join_Split: "Join (Split s sep) sep = s"
proof (induction s sep rule: Split.induct)
  case (1 s sep)
  show ?case
  proof (cases "sep = [] \<or> Index s sep = None")
    case True
    then show ?thesis by (subst Split.simps) auto
  next
    case False
    then obtain i where i: "Index s sep = Some i" and ne: "sep \<noteq> []" by auto
    have "Join (Split (drop (i + length sep) s) sep) sep = drop (i + length sep) s"
      using "1.IH" i ne by auto
    then have "Join (Split s sep) sep = take i s @ sep @ drop (i + length sep) s"
      by (simp add: Split_Some [OF ne i] Join_Cons)
    then show ?thesis using Index_Some_split [OF i] by metis
  qed
qed

lemma Split_Join_char:
  "xs \<noteq> [] \<Longrightarrow> \<forall>x \<in> set xs. c \<notin> set x \<Longrightarrow> Split (Join xs [c]) [c] = xs"
proof (induction xs "[c]" rule: Join.induct)
  case (2 x)
  then show ?case by (simp add: Split_char_none)
next
  case (3 x y xs)
  then show ?case by (simp add: Split_char_append)
qed simp

lemma Split_char_parts: "x \<in> set (Split s [c]) \<Longrightarrow> c \<notin> set x"
proof (induction s "[c]" arbitrary: x rule: Split.induct)
  case (1 s)
  show ?case
  proof (cases "Index s [c]")
    case None
    with 1 show ?thesis by (simp add: Split_None Index_char_None)
  next
    case (Some i)
    then have "x = take i s \<or> x \<in> set (Split (drop (Suc i) s) [c])"
      using "1.prems" by (simp add: Split_Some [of "[c]" s i])
    then show ?thesis
      using "1.hyps" [of i] Some Index_char_Some [OF Some] by auto
  qed
qed

lemma Split_char_set: "x \<in> set (Split s [c]) \<Longrightarrow> set x \<subseteq> set s"
proof (induction s "[c]" arbitrary: x rule: Split.induct)
  case (1 s)
  show ?case
  proof (cases "Index s [c]")
    case None
    with 1 show ?thesis by (simp add: Split_None)
  next
    case (Some i)
    then have "x = take i s \<or> x \<in> set (Split (drop (Suc i) s) [c])"
      using "1.prems" by (simp add: Split_Some [of "[c]" s i])
    then show ?thesis
      using "1.hyps" [of i] Some set_take_subset [of i s] set_drop_subset [of "Suc i" s]
      by auto
  qed
qed

lemma HasPrefix_append [go_str]: "HasPrefix (p @ s) p"
  by (simp add: HasPrefix_def)

lemma HasSuffix_append [go_str]: "HasSuffix (s @ p) p"
  by (simp add: HasSuffix_def suffix_def)

section \<open>Facts on runes\<close>

lemma chunks_Nil [simp]: "chunks [] = []"
  by (simp add: chunks.simps)

lemma chunks_Cons:
  "s \<noteq> [] \<Longrightarrow> chunks s = (fst (decode_rune s), take (snd (decode_rune s)) s)
     # chunks (drop (snd (decode_rune s)) s)"
  by (subst chunks.simps) simp

lemma chunks_ascii_Cons [go_str]:
  "byte c < 128 \<Longrightarrow> chunks (c # s) = (byte c, [c]) # chunks s"
  by (simp add: chunks_Cons)

lemma concat_chunks [simp]: "concat (map snd (chunks s)) = s"
proof (induction s rule: chunks.induct)
  case (1 s)
  then show ?case
    by (cases "s = []") (simp_all add: chunks_Cons [of s])
qed

lemma chunks_ascii:
  "is_ascii s \<Longrightarrow> chunks s = map (\<lambda>c. (byte c, [c])) s"
  by (induction s) (auto simp: is_ascii_def is_ascii_byte_def chunks_ascii_Cons)

lemma TrimSpace_Nil [simp]: "TrimSpace [] = []"
  by (simp add: TrimSpace_def)

lemma dropWhile_map_snd:
  "dropWhile (\<lambda>c. P (fst c)) (map (\<lambda>c. (f c, g c)) s) = map (\<lambda>c. (f c, g c)) (dropWhile (\<lambda>c. P (f c)) s)"
  by (induction s) auto

lemma trim_both_map_fst:
  "trim_both (\<lambda>c. P (fst c)) (map (\<lambda>c. (f c, g c)) s)
     = map (\<lambda>c. (f c, g c)) (trim_both (\<lambda>c. P (f c)) s)"
proof -
  have "rev (map (\<lambda>c. (f c, g c)) xs) = map (\<lambda>c. (f c, g c)) (rev xs)" for xs
    by (simp add: rev_map)
  then show ?thesis unfolding trim_both_def dropWhile_map_snd by (simp add: dropWhile_map_snd)
qed

lemma TrimSpace_ascii:
  assumes "is_ascii s"
  shows "TrimSpace s = trim_both (\<lambda>c. IsSpace (byte c)) s"
proof -
  have "concat (map snd (map (\<lambda>c. (byte c, [c])) xs)) = xs" for xs :: string
    by (induction xs) auto
  then show ?thesis
    unfolding TrimSpace_def chunks_ascii [OF assms]
      trim_both_map_fst [of IsSpace byte "\<lambda>c. [c]" s] by blast
qed

lemma decode_rune_ascii:
  assumes "c \<in> set (take (snd (decode_rune s)) s)" "byte c < 128"
  shows "fst (decode_rune s) = byte c"
proof (cases s)
  case (Cons a t)
  show ?thesis
  proof (cases "byte a < 128")
    case True
    then show ?thesis using assms Cons by simp
  next
    case False
    have "\<not> byte x < 128" if "x \<in> set (take (snd (decode_rune s)) s)" for x
      using that False Cons
      by (cases t; cases "tl t"; cases "tl (tl t)") (auto simp: Let_def cont_byte_def split: if_splits)
    then show ?thesis using assms by blast
  qed
qed (use assms in simp)

lemma byte_in_runes:
  "\<lbrakk>c \<in> set s; byte c < 128\<rbrakk> \<Longrightarrow> byte c \<in> set (runes s)"
proof (induction s rule: chunks.induct)
  case (1 s)
  then have ne: "s \<noteq> []" by auto
  let ?w = "snd (decode_rune s)"
  have runes: "runes s = fst (decode_rune s) # runes (drop ?w s)"
    using ne by (simp add: runes_def chunks_Cons [of s])
  have "c \<in> set (take ?w s) \<or> c \<in> set (drop ?w s)"
    using "1.prems"(1) by (metis UnE append_take_drop_id set_append)
  then show ?case
  proof
    assume "c \<in> set (drop ?w s)"
    from "1.IH" [OF ne this "1.prems"(2)] show ?thesis unfolding runes by simp
  next
    assume "c \<in> set (take ?w s)"
    from decode_rune_ascii [OF this "1.prems"(2)] show ?thesis unfolding runes by simp
  qed
qed

lemma decode_rune_small:
  assumes "fst (decode_rune (a # s)) < 128"
  shows "byte a < 128"
proof (rule ccontr)
  assume b: "\<not> byte a < 128"
  have two: "128 \<le> (x - 192) * 64 + y" if "194 \<le> x" for x y :: nat using that by simp
  have three: "128 \<le> (x - 224) * 4096 + (y - 128) * 64 + z" if "224 \<le> x" "x = 224 \<longrightarrow> 160 \<le> y" for x y z :: nat
    using that by (cases "x = 224") simp_all
  have four: "128 \<le> (x - 240) * 262144 + (y - 128) * 4096 + z + w" if "240 \<le> x" "x = 240 \<longrightarrow> 144 \<le> y" for x y z w :: nat
    using that by (cases "x = 240") simp_all
  from assms b two three four show False
    by (auto simp: Let_def not_less [symmetric] split: if_splits list.splits)
qed

lemma encode_rune_ascii_byte: "c \<in> set (encode_rune r) \<Longrightarrow> byte c < 128 \<Longrightarrow> byte c = r"
proof -
  assume a: "c \<in> set (encode_rune r)" "byte c < 128"
  have high: "\<not> byte (char_of (k + n) :: char) < 128" if "128 \<le> k" "k + n < 256" for k n :: nat
    using that by simp
  show ?thesis
  proof (cases "r < 128")
    case False
    have "\<not> byte c < 128"
      using a(1) False high [of 192 "r div 64"] high [of 128 "r mod 64"] high [of 224 "r div 4096"]
        high [of 128 "r div 64 mod 64"] high [of 240 "r div 262144"] high [of 128 "r div 4096 mod 64"]
      by (auto simp: encode_rune_def not_less div_less_iff_less_mult less_mult_imp_div_less split: if_splits)
    with a(2) show ?thesis by simp
  qed (use a in \<open>auto simp: encode_rune_def\<close>)
qed

lemma is_ascii_append [simp]: "is_ascii (s @ t) \<longleftrightarrow> is_ascii s \<and> is_ascii t"
  by (simp add: is_ascii_def)

section \<open>Facts on numbers\<close>

lemma digit_char_props:
  assumes "d < 10"
  shows "is_digit (digit_char d)" "byte (digit_char d) = 48 + d"
proof -
  show b: "byte (digit_char d) = 48 + d" using assms by (simp add: digit_char_def)
  show "is_digit (digit_char d)" unfolding is_digit_def in_range_def b using assms by simp
qed

lemma FormatUint_digits: "FormatUint n \<noteq> [] \<and> list_all is_digit (FormatUint n) \<and> digits_value (FormatUint n) = n"
proof (induction n rule: FormatUint.induct)
  case (1 n)
  show ?case
  proof (cases "n < 10")
    case True
    then show ?thesis by (simp add: FormatUint.simps digit_char_props digits_value_def)
  next
    case False
    then have "FormatUint n = FormatUint (n div 10) @ [digit_char (n mod 10)]" by (subst FormatUint.simps) simp
    with 1 [OF False] show ?thesis by (simp add: digit_char_props digits_value_def)
  qed
qed

lemma digit_not_sign: "is_digit c \<Longrightarrow> c \<noteq> CHR ''-'' \<and> c \<noteq> CHR ''+'' \<and> \<not> IsSpace (byte c) \<and> byte c < 128"
  by (auto simp: is_digit_def in_range_def IsSpace_def)

lemma ParseInt64_FormatUint: "n < 2 ^ 63 \<Longrightarrow> ParseInt64 (FormatUint n) = Ok (int n)"
proof -
  assume n: "n < 2 ^ 63"
  obtain c cs where f: "FormatUint n = c # cs" using FormatUint_digits by (cases "FormatUint n") auto
  have d: "list_all is_digit (c # cs)" "digits_value (c # cs) = n" using FormatUint_digits [of n] f by auto
  then have "c \<noteq> CHR ''-'' \<and> c \<noteq> CHR ''+''" using digit_not_sign [of c] by simp
  then show ?thesis using d n by (simp add: ParseInt64_def f)
qed

lemma TrimSpace_FormatUint: "TrimSpace (SP # FormatUint n) = FormatUint n"
proof -
  let ?f = "FormatUint n"
  have d: "list_all is_digit ?f" "?f \<noteq> []" using FormatUint_digits by auto
  have dig: "\<forall>c \<in> set ?f. \<not> IsSpace (byte c) \<and> byte c < 128"
    using d(1) digit_not_sign by (auto simp: list_all_iff)
  then have asc: "is_ascii (SP # ?f)" by (auto simp: is_ascii_def is_ascii_byte_def list_all_iff)
  have "\<not> IsSpace (byte (hd ?f))" "\<not> IsSpace (byte (last ?f))" using dig d(2) by simp_all
  then have "trim_both (\<lambda>c. IsSpace (byte c)) ?f = ?f" by (intro trim_both_id) simp
  moreover have "trim_both (\<lambda>c. IsSpace (byte c)) (SP # ?f) = trim_both (\<lambda>c. IsSpace (byte c)) ?f"
    by (simp add: trim_both_def IsSpace_def)
  ultimately show ?thesis using asc by (simp add: TrimSpace_ascii)
qed

section \<open>Evaluation\<close>

lemma char_of_nat_eq [go_eval]: "char_of (numeral k :: nat) = c \<longleftrightarrow> numeral k mod 256 = byte c"
  by (metis char_of_mod_256 char_of_char of_char_of)

lemmas string_eval [go_eval] =
  Split.simps TrimSpace_ascii is_ascii_def is_ascii_byte_def trim_both_def IsSpace_def Cut_def
  Contains_def SplitN2_def HasPrefix_def HasSuffix_def suffix_to_prefix lower_byte_def upper_byte_def
  in_range_def ToLower_def ToUpper_def EqualFold_def chunks_ascii_Cons

end
