(* ===== verification/GoIO.thy ===== *)
theory GoIO
  imports GoStrings
begin

text \<open>
  The part of Go's \<open>bufio\<close> package that chasquid reads its connections with. A reader is the list
  of bytes that are still to come and the error that ends them.
\<close>

datatype io_error = EOF | ErrUnexpectedEOF | OtherErr string

record reader =
  r_bytes :: string
  r_end :: io_error

definition ReadByte :: "reader \<Rightarrow> (io_error, char) result \<times> reader" where
  "ReadByte r = (case r_bytes r of
      [] \<Rightarrow> (Err (r_end r), r)
    | b # bs \<Rightarrow> (Ok b, r\<lparr>r_bytes := bs\<rparr>))"

text \<open>The size of a \<open>bufio.Reader\<close>'s buffer, as \<open>bufio.NewReader\<close> makes it.\<close>

definition bufio_size :: nat where
  "bufio_size = 4096"

text \<open>
  \<open>(*bufio.Reader).ReadLine\<close>: the line without its end of line, whether the buffer was too small
  for it, and the reader after it. The last line of the input may lack its end of line. A line
  that does not fit is returned in pieces of one buffer, where a CR at the end of a piece is
  left for the next one.
\<close>

definition drop_cr :: "string \<Rightarrow> string" where
  "drop_cr l = (if l \<noteq> [] \<and> last l = CR then butlast l else l)"

definition ReadLine :: "reader \<Rightarrow> (io_error, string \<times> bool) result \<times> reader" where
  "ReadLine r =
     (let s = r_bytes r in
      if LF \<in> set (take bufio_size s) then
        (let l = takeWhile (\<lambda>c. c \<noteq> LF) s
         in (Ok (drop_cr l, False), r\<lparr>r_bytes := drop (Suc (length l)) s\<rparr>))
      else if bufio_size \<le> length s then
        (let piece = drop_cr (take bufio_size s)
         in (Ok (piece, True), r\<lparr>r_bytes := drop (length piece) s\<rparr>))
      else if s = [] then (Err (r_end r), r)
      else (Ok (s, False), r\<lparr>r_bytes := []\<rparr>))"

text \<open>\<open>(*bufio.Reader).ReadString('\n')\<close>: everything up to and including the first LF.\<close>

definition ReadString_LF :: "reader \<Rightarrow> (io_error, string) result \<times> reader" where
  "ReadString_LF r =
     (let s = r_bytes r; l = takeWhile (\<lambda>c. c \<noteq> LF) s in
      if LF \<in> set s then (Ok (l @ [LF]), r\<lparr>r_bytes := drop (Suc (length l)) s\<rparr>)
      else (Err (r_end r), r\<lparr>r_bytes := []\<rparr>))"

text \<open>\<open>textproto.Conn.ReadLine\<close>: a line of any length, without its end of line.\<close>

definition tp_ReadLine :: "reader \<Rightarrow> (io_error, string) result \<times> reader" where
  "tp_ReadLine r =
     (let s = r_bytes r; l = takeWhile (\<lambda>c. c \<noteq> LF) s in
      if s = [] then (Err (r_end r), r)
      else if LF \<in> set s then (Ok (drop_cr l), r\<lparr>r_bytes := drop (Suc (length l)) s\<rparr>)
      else (Ok s, r\<lparr>r_bytes := []\<rparr>))"

text \<open>
  The lines a \<open>bufio.Scanner\<close> returns, and whether it stopped because a line does not fit in its
  buffer of \<open>MaxScanTokenSize\<close> bytes. An empty last line is not returned.
\<close>

definition MaxScanTokenSize :: nat where
  "MaxScanTokenSize = 65536"

function scan_lines :: "string \<Rightarrow> string list \<times> bool" where
  "scan_lines s =
     (if s = [] then ([], False)
      else
        (let l = takeWhile (\<lambda>c. c \<noteq> LF) s in
         if MaxScanTokenSize \<le> length l then ([], True)
         else (let (ls, long) = scan_lines (drop (Suc (length l)) s) in (drop_cr l # ls, long))))"
  by pat_completeness auto
termination
  by (relation "measure length") auto

declare scan_lines.simps [simp del]

lemma drop_cr_length: "length (drop_cr l) \<le> length l"
  by (simp add: drop_cr_def)

lemma ReadLine_consumes:
  assumes "ReadLine r = (Ok (l, m), r')"
  shows "length (r_bytes r') < length (r_bytes r)"
proof -
  let ?s = "r_bytes r"
  have piece: "0 < length (drop_cr (take bufio_size ?s))" if "bufio_size \<le> length ?s"
  proof -
    have "1 < length (take bufio_size ?s)" using that by (simp add: bufio_size_def)
    moreover have "length (take bufio_size ?s) \<le> Suc (length (drop_cr (take bufio_size ?s)))"
      unfolding drop_cr_def by (simp only: length_butlast split: if_split) linarith
    ultimately show ?thesis by linarith
  qed
  have "LF \<in> set (take bufio_size ?s) \<Longrightarrow> ?s \<noteq> []" by auto
  moreover have "bufio_size \<le> length ?s \<Longrightarrow> 0 < length ?s"
    unfolding bufio_size_def by linarith
  ultimately show ?thesis using assms piece
    by (auto simp: ReadLine_def Let_def split: if_splits)
qed

lemma ReadLine_end [simp]: "r_end (snd (ReadLine r)) = r_end r"
  by (simp add: ReadLine_def Let_def)

lemma ReadLine_no_LF:
  assumes "ReadLine r = (Ok (l, m), r')"
  shows "LF \<notin> set l"
proof -
  have cr: "LF \<notin> set x \<Longrightarrow> LF \<notin> set (drop_cr x)" for x
    by (auto simp: drop_cr_def dest: in_set_butlastD)
  have tw: "LF \<notin> set (takeWhile (\<lambda>c. c \<noteq> LF) (r_bytes r))"
    by (auto dest: set_takeWhileD)
  have small: "take bufio_size (r_bytes r) = r_bytes r" if "\<not> bufio_size \<le> length (r_bytes r)"
    using that by simp
  show ?thesis
    using assms cr tw small
    by (auto simp: ReadLine_def Let_def split: if_splits)
qed

end
