(* ===== verification/Haproxy.thy ===== *)
theory Haproxy
  imports GoIO
begin

text \<open>
  \<open>src/internal/haproxy/haproxy.go\<close>: the handshake of the HAProxy protocol, version 1. \<open>net.ParseIP\<close>
  is a parameter.
\<close>

section \<open>Addresses\<close>

text \<open>
  The address of the other side. A TCP address has the text of its IP and its port; others have only
  the text \<open>String\<close> gives.
\<close>

datatype net_addr = TCPAddr string nat | OtherAddr string

definition addr_string :: "net_addr \<Rightarrow> string" where
  "addr_string a =
     (case a of
        TCPAddr ip port \<Rightarrow>
          (if Contains ip '':'' then ''['' @ ip @ '']:'' else ip @ '':'') @ FormatUint port
      | OtherAddr s \<Rightarrow> s)"

section \<open>The handshake\<close>

datatype haproxy_error =
    HandshakeRead io_error
  | errInvalidProtoID | errUnkProtocol | errInvalidFields
  | errInvalidSrcIP | errInvalidDstIP | errInvalidSrcPort | errInvalidDstPort

text \<open>The checks on the fields of the line, once it is known to have six of them.\<close>

definition proxy_addrs ::
  "(string \<Rightarrow> string option) \<Rightarrow> string \<Rightarrow> string \<Rightarrow> string \<Rightarrow> string \<Rightarrow> (haproxy_error, net_addr \<times> net_addr) result" where
  "proxy_addrs ParseIP src dst sport dport =
     (case ParseIP src of None \<Rightarrow> Err errInvalidSrcIP | Some srcIP \<Rightarrow>
      case ParseIP dst of None \<Rightarrow> Err errInvalidDstIP | Some dstIP \<Rightarrow>
      case ParseUint sport 16 of Inl _ \<Rightarrow> Err errInvalidSrcPort | Inr srcPort \<Rightarrow>
      case ParseUint dport 16 of Inl _ \<Rightarrow> Err errInvalidDstPort | Inr dstPort \<Rightarrow>
      Ok (TCPAddr srcIP srcPort, TCPAddr dstIP dstPort))"

definition Handshake ::
  "(string \<Rightarrow> string option) \<Rightarrow> reader \<Rightarrow> (haproxy_error, net_addr \<times> net_addr) result \<times> reader" where
  "Handshake ParseIP r =
     (case ReadString_LF r of
        (Inl e, r') \<Rightarrow> (Err (HandshakeRead e), r')
      | (Inr line, r') \<Rightarrow>
          (let fields = Fields line in
           (if length fields < 2 \<or> fields ! 0 \<noteq> ''PROXY'' then Err errInvalidProtoID
            else if fields ! 1 \<noteq> ''TCP4'' \<and> fields ! 1 \<noteq> ''TCP6'' then Err errUnkProtocol
            else if length fields \<noteq> 6 then Err errInvalidFields
            else proxy_addrs ParseIP (fields ! 2) (fields ! 3) (fields ! 4) (fields ! 5),
            r')))"

section \<open>What a handshake gives\<close>

lemma ReadString_LF_shorter: "length (r_bytes (snd (ReadString_LF r))) \<le> length (r_bytes r)"
  by (simp add: ReadString_LF_def Let_def)

lemma Handshake_shorter: "length (r_bytes (snd (Handshake ParseIP r))) \<le> length (r_bytes r)"
  using ReadString_LF_shorter [of r] by (auto simp: Handshake_def Let_def split: prod.splits sum.splits)

lemma Handshake_ports:
  assumes "fst (Handshake ParseIP r) = Ok (src, dst)"
  shows "\<exists>sip sport dip dport. src = TCPAddr sip sport \<and> dst = TCPAddr dip dport \<and> sport < 2 ^ 16 \<and> dport < 2 ^ 16"
  using assms
  by (auto simp: Handshake_def proxy_addrs_def ParseUint_def Let_def not_le
      split: prod.splits sum.splits if_splits option.splits)

end
