(* ===== verification/Envelope.thy ===== *)
theory Envelope
  imports GoStrings
begin

text \<open>
  The string sets of \<open>src/internal/set/set.go\<close> and the address helpers of
  \<open>src/internal/envelope/envelope.go\<close>: splitting an address at its first at-sign, the test for
  a local domain, and the prepending of a header to a message.
\<close>

section \<open>String sets\<close>

text \<open>The Go map is \<open>None\<close> while it is \<open>nil\<close>. A \<open>nil\<close> pointer to a set is \<open>None\<close> as well.\<close>

record String =
  str_m :: "string set option"

definition Add :: "String \<Rightarrow> string list \<Rightarrow> String" where
  "Add s values =
     (let m = (case str_m s of None \<Rightarrow> {} | Some m \<Rightarrow> m)
      in s\<lparr>str_m := Some (fold insert values m)\<rparr>)"

definition NewString :: "string list \<Rightarrow> String" where
  "NewString values = Add \<lparr>str_m = None\<rparr> values"

definition Has :: "String option \<Rightarrow> string \<Rightarrow> bool" where
  "Has s v = (case s of
      None \<Rightarrow> False
    | Some s \<Rightarrow> (case str_m s of None \<Rightarrow> False | Some m \<Rightarrow> v \<in> m))"

lemma fold_insert_set: "fold insert xs A = set xs \<union> A"
  by (induction xs arbitrary: A) auto

lemma Has_Add [simp]: "Has (Some (Add s vs)) v \<longleftrightarrow> v \<in> set vs \<or> Has (Some s) v"
  by (simp add: Has_def Add_def fold_insert_set split: option.split)

lemma Has_NewString [simp]: "Has (Some (NewString vs)) v \<longleftrightarrow> v \<in> set vs"
  by (simp add: NewString_def) (simp add: Has_def)

lemma Has_nil [simp]: "\<not> Has None v"
  by (simp add: Has_def)

section \<open>Addresses\<close>

definition Split_addr :: "string \<Rightarrow> string \<times> string" where
  "Split_addr addr = (case SplitN2 addr ''@'' of [u, d] \<Rightarrow> (u, d) | _ \<Rightarrow> (addr, []))"

definition UserOf :: "string \<Rightarrow> string" where
  "UserOf addr = fst (Split_addr addr)"

definition DomainOf :: "string \<Rightarrow> string" where
  "DomainOf addr = snd (Split_addr addr)"

definition DomainIn :: "string \<Rightarrow> String option \<Rightarrow> bool" where
  "DomainIn addr locals =
     (let domain = DomainOf addr in if domain = [] then True else Has locals domain)"

definition AddHeader :: "string \<Rightarrow> string \<Rightarrow> string \<Rightarrow> string" where
  "AddHeader data k v =
     (let v' = (if v \<noteq> [] then
                  ReplaceAll (if last v = LF then butlast v else v) [LF] [LF, TAB]
                else v)
      in (k @ '': '' @ v' @ [LF]) @ data)"

lemma Split_addr_at [go_str]: "CHR ''@'' \<notin> set u \<Longrightarrow> Split_addr (u @ CHR ''@'' # d) = (u, d)"
  by (simp add: Split_addr_def go_str)

lemma Split_addr_none [go_str]: "CHR ''@'' \<notin> set u \<Longrightarrow> Split_addr u = (u, [])"
  by (simp add: Split_addr_def go_str)

lemma Split_addr_cases:
  obtains (at) u d where "CHR ''@'' \<notin> set u" "addr = u @ CHR ''@'' # d" "Split_addr addr = (u, d)"
  | (none) "CHR ''@'' \<notin> set addr" "Split_addr addr = (addr, [])"
proof (cases "CHR ''@'' \<in> set addr")
  case True
  then obtain u d where "addr = u @ CHR ''@'' # d" "CHR ''@'' \<notin> set u"
    by (metis split_list_first)
  with at show ?thesis by (simp add: go_str)
qed (use none in \<open>simp add: go_str\<close>)

lemma UserOf_at [go_str]: "CHR ''@'' \<notin> set u \<Longrightarrow> UserOf (u @ CHR ''@'' # d) = u"
  by (simp add: UserOf_def go_str)

lemma DomainOf_at [go_str]: "CHR ''@'' \<notin> set u \<Longrightarrow> DomainOf (u @ CHR ''@'' # d) = d"
  by (simp add: DomainOf_def go_str)

lemma DomainOf_none [go_str]: "CHR ''@'' \<notin> set u \<Longrightarrow> DomainOf u = []"
  by (simp add: DomainOf_def go_str)

lemma UserOf_no_at: "CHR ''@'' \<notin> set (UserOf addr)"
  by (cases rule: Split_addr_cases [of addr]) (simp_all add: UserOf_def)

lemma Split_addr_join:
  assumes "DomainOf addr \<noteq> []"
  shows "UserOf addr @ CHR ''@'' # DomainOf addr = addr"
  using assms
  by (cases rule: Split_addr_cases [of addr]) (simp_all add: DomainOf_def UserOf_def)

text \<open>An added header is one header: every line of it after the first starts with a tab.\<close>

lemma AddHeader_lines:
  assumes "v \<noteq> []"
  defines "ls \<equiv> Split (if last v = LF then butlast v else v) [LF]"
  shows "AddHeader data k v = k @ '': '' @ hd ls @ concat (map (\<lambda>l. [LF, TAB] @ l) (tl ls)) @ [LF] @ data"
proof -
  have join: "Join xs [LF, TAB] = hd xs @ concat (map (\<lambda>l. [LF, TAB] @ l) (tl xs))" if "xs \<noteq> []" for xs
    using that
  proof (induction xs)
    case (Cons x xs)
    then show ?case by (cases xs) (simp_all add: Join_Cons)
  qed simp
  have "ls \<noteq> []" by (simp add: ls_def)
  with join [of ls] assms(1) show ?thesis
    unfolding AddHeader_def ReplaceAll_def ls_def by simp
qed

lemmas addr_eval [go_eval] = Split_addr_def UserOf_def DomainOf_def

end
