(* ===== verification/ConnText.thy ===== *)
theory ConnText
  imports Haproxy TlsConst Envelope
begin

text \<open>
  The parts of \<open>src/internal/smtpsrv/conn.go\<close> that only work on text: reading command lines, the
  format of responses, the check of the headers a hook prints, and the values it is given.
\<close>

section \<open>Reading lines\<close>

datatype line_error = LineRead io_error | LineTooLong

fun io_error_text :: "io_error \<Rightarrow> string" where
  "io_error_text EOF = ''EOF''"
| "io_error_text ErrUnexpectedEOF = ''unexpected EOF''"
| "io_error_text (OtherErr e) = e"

fun line_error_text :: "line_error \<Rightarrow> string" where
  "line_error_text (LineRead e) = io_error_text e"
| "line_error_text LineTooLong = ''line too long''"

text \<open>The loop that reads and discards the rest of a line that is too long.\<close>

function discard_rest :: "reader \<Rightarrow> reader" where
  "discard_rest r =
     (case ReadLine r of
        (Inl _, r') \<Rightarrow> r'
      | (Inr (_, again), r') \<Rightarrow> if again then discard_rest r' else r')"
  by pat_completeness auto
termination
  by (relation "measure (length \<circ> r_bytes)") (auto dest!: sym [of _ "ReadLine _"] ReadLine_consumes)

declare discard_rest.simps [simp del]

definition readLine :: "reader \<Rightarrow> (line_error, string) result \<times> reader" where
  "readLine r =
     (case ReadLine r of
        (Inl e, r') \<Rightarrow> (Err (LineRead e), r')
      | (Inr (l, again), r') \<Rightarrow>
          if 1000 < length l \<or> again then (Err LineTooLong, if again then discard_rest r' else r')
          else (Ok l, r'))"

definition readCommand :: "unicode \<Rightarrow> reader \<Rightarrow> (line_error, string \<times> string) result \<times> reader" where
  "readCommand u r =
     (case readLine r of
        (Inl e, r') \<Rightarrow> (Err e, r')
      | (Inr msg, r') \<Rightarrow>
          (let sp = SplitN2 msg '' '' in
           (Ok (ToUpper u (sp ! 0), if 1 < length sp then sp ! 1 else []), r')))"

section \<open>Responses\<close>

text \<open>
  What \<open>writeResponse\<close> writes: all lines but the last two with a dash, then the last but one, or the
  only one, with a space. The code relies on messages of several lines ending in a newline.
\<close>

definition response_text :: "int \<Rightarrow> string \<Rightarrow> string" where
  "response_text code msg =
     (let ls = Split msg [LF]; i = length ls - 2
      in concat (map (\<lambda>l. FormatInt code @ ''-'' @ l @ [CR, LF]) (take i ls))
         @ FormatInt code @ '' '' @ ls ! i @ [CR, LF])"

section \<open>Text for hooks and headers\<close>

definition ehlo_rune :: "nat \<Rightarrow> bool" where
  "ehlo_rune c \<longleftrightarrow> (97 \<le> c \<and> c \<le> 122) \<or> (65 \<le> c \<and> c \<le> 90) \<or> (48 \<le> c \<and> c \<le> 57) \<or>
     c \<in> byte ` set ''-.[]:''"

definition sanitizeEHLODomain :: "string \<Rightarrow> string" where
  "sanitizeEHLODomain s = concat (map encode_rune (filter ehlo_rune (runes s)))"

fun header_lines :: "bool \<Rightarrow> string list \<Rightarrow> bool" where
  "header_lines seen [] \<longleftrightarrow> True"
| "header_lines seen (line # ls) \<longleftrightarrow>
     (if line = [] then header_lines seen ls
      else if HasPrefix line '' '' \<or> HasPrefix line [TAB] then seen \<and> header_lines seen ls
      else Contains line '':'' \<and> header_lines True ls)"

definition isHeader :: "string \<Rightarrow> bool" where
  "isHeader s \<longleftrightarrow>
     (if s = [] then True
      else if s = [LF] \<or> Contains s [LF, LF] then False
      else if last s \<noteq> LF then False
      else header_lines False (SplitAfter_LF s))"

definition lastLine :: "string \<Rightarrow> string" where
  "lastLine s = (let l = Split s [LF] in if length l < 2 then [] else l ! (length l - 2))"

definition boolToStr :: "bool \<Rightarrow> string" where
  "boolToStr b = (if b then ''1'' else ''0'')"

definition addrLiteral :: "net_addr \<Rightarrow> string" where
  "addrLiteral addr =
     (case addr of
        OtherAddr s \<Rightarrow> s
      | TCPAddr s _ \<Rightarrow> if Contains s '':'' then ''IPv6:'' @ s else s)"

record SocketMode =
  IsSubmission :: bool
  mode_TLS :: bool

definition mode_String :: "SocketMode \<Rightarrow> string" where
  "mode_String mode = (if IsSubmission mode then ''submission'' else ''SMTP'') @ (if mode_TLS mode then ''+TLS'' else [])"

abbreviation ModeSMTP :: SocketMode where "ModeSMTP \<equiv> \<lparr>IsSubmission = False, mode_TLS = False\<rparr>"
abbreviation ModeSubmission :: SocketMode where "ModeSubmission \<equiv> \<lparr>IsSubmission = True, mode_TLS = False\<rparr>"
abbreviation ModeSubmissionTLS :: SocketMode where "ModeSubmissionTLS \<equiv> \<lparr>IsSubmission = True, mode_TLS = True\<rparr>"

section \<open>Lines are read to their end\<close>

lemma ReadLine_short:
  assumes "r_bytes r = l @ LF # rest" "LF \<notin> set l" "length l < bufio_size"
  shows "ReadLine r = (Ok (drop_cr l, False), r\<lparr>r_bytes := rest\<rparr>)"
proof -
  have "LF \<in> set (take bufio_size (l @ LF # rest))"
    using assms(3) by (cases "bufio_size - length l") simp_all
  moreover have "takeWhile (\<lambda>c. c \<noteq> LF) (l @ LF # rest) = l"
    using assms(2) by (intro takeWhile_append_hit) auto
  ultimately show ?thesis using assms(1) by (simp add: ReadLine_def)
qed

lemma drop_cr_length_ge: "length l \<le> Suc (length (drop_cr l))"
  by (auto simp: drop_cr_def)

lemma ReadLine_long:
  assumes "r_bytes r = l @ LF # rest" "LF \<notin> set l" "bufio_size \<le> length l"
  shows "\<exists>piece l'. l = piece @ l' \<and> piece \<noteq> [] \<and> ReadLine r = (Ok (piece, True), r\<lparr>r_bytes := l' @ LF # rest\<rparr>)"
proof -
  let ?p = "drop_cr (take bufio_size l)"
  have t: "take bufio_size (r_bytes r) = take bufio_size l" using assms by simp
  have noLF: "LF \<notin> set (take bufio_size l)" using assms(2) by (auto dest: in_set_takeD)
  have len: "length (take bufio_size l) = bufio_size" "1 < bufio_size" using assms(3) by (simp_all add: bufio_size_def)
  obtain z where z: "take bufio_size l = ?p @ z"
    by (metis append.right_neutral append_butlast_last_id drop_cr_def)
  then have l: "l = ?p @ z @ drop bufio_size l" by (metis append_assoc append_take_drop_id)
  have ne: "?p \<noteq> []"
  proof
    assume "?p = []"
    moreover have "length (take bufio_size l) \<le> Suc (length ?p)" by (rule drop_cr_length_ge)
    ultimately show False using len by simp
  qed
  have "ReadLine r = (Ok (?p, True), r\<lparr>r_bytes := drop (length ?p) (l @ LF # rest)\<rparr>)"
    unfolding ReadLine_def Let_def t using noLF assms(1,3) by simp
  moreover have "drop (length ?p) (l @ LF # rest) = (z @ drop bufio_size l) @ LF # rest"
    by (subst l) simp
  ultimately show ?thesis using l ne by (intro exI [of _ ?p] exI [of _ "z @ drop bufio_size l"]) simp
qed

lemma discard_rest_line:
  assumes "r_bytes r = l @ LF # rest" "LF \<notin> set l"
  shows "discard_rest r = r\<lparr>r_bytes := rest\<rparr>"
  using assms
proof (induction "length l" arbitrary: l r rule: less_induct)
  case less
  show ?case
  proof (cases "length l < bufio_size")
    case True
    then show ?thesis using ReadLine_short [OF less.prems] by (subst discard_rest.simps) simp
  next
    case False
    then obtain p l' where p: "l = p @ l'" "p \<noteq> []" "ReadLine r = (Ok (p, True), r\<lparr>r_bytes := l' @ LF # rest\<rparr>)"
      using ReadLine_long [OF less.prems] by auto
    have "discard_rest (r\<lparr>r_bytes := l' @ LF # rest\<rparr>) = r\<lparr>r_bytes := rest\<rparr>"
      using less.hyps [of l' "r\<lparr>r_bytes := l' @ LF # rest\<rparr>"] less.prems p(1,2) by simp
    with p(3) show ?thesis by (subst discard_rest.simps) simp
  qed
qed

text \<open>
  A line of the input is read whole or refused whole. If it has at most 1000 bytes without its
  line end it is returned, otherwise it is an error; in both cases the next read starts exactly
  after it, however long it was, so that no part of a long line is ever taken for a command.
\<close>

theorem readLine_whole:
  assumes "r_bytes r = l @ LF # rest" "LF \<notin> set l"
  shows "readLine r =
    (if length (drop_cr l) \<le> 1000 then Ok (drop_cr l) else Err LineTooLong, r\<lparr>r_bytes := rest\<rparr>)"
proof (cases "length l < bufio_size")
  case True
  then show ?thesis using ReadLine_short [OF assms] by (simp add: readLine_def)
next
  case False
  then obtain p l' where p: "l = p @ l'" "ReadLine r = (Ok (p, True), r\<lparr>r_bytes := l' @ LF # rest\<rparr>)"
    using ReadLine_long [OF assms] by auto
  have "discard_rest (r\<lparr>r_bytes := l' @ LF # rest\<rparr>) = r\<lparr>r_bytes := rest\<rparr>"
    using discard_rest_line [of "r\<lparr>r_bytes := l' @ LF # rest\<rparr>" l' rest] assms(2) p(1) by simp
  moreover have "1000 < length (drop_cr l)"
    using False by (auto simp: drop_cr_def bufio_size_def)
  ultimately show ?thesis using p(2) by (simp add: readLine_def)
qed

lemma readLine_whole_witness:
  "let r = \<lparr>r_bytes = replicate 5000 (CHR ''x'') @ LF # ''QUIT'' @ [CR, LF], r_end = EOF\<rparr>
   in readLine r = (Err LineTooLong, \<lparr>r_bytes = ''QUIT'' @ [CR, LF], r_end = EOF\<rparr>)"
proof -
  let ?r = "\<lparr>r_bytes = replicate 5000 (CHR ''x'') @ LF # ''QUIT'' @ [CR, LF], r_end = EOF\<rparr>"
  have "drop_cr (replicate 5000 (CHR ''x'')) = replicate 5000 (CHR ''x'')" by (simp add: drop_cr_def)
  then show ?thesis
    using readLine_whole [of ?r "replicate 5000 (CHR ''x'')" "''QUIT'' @ [CR, LF]"] by simp
qed

section \<open>Responses\<close>

text \<open>A message whose lines all end in a newline is sent whole, a line of the response for each.\<close>

lemma response_text_lines:
  assumes "ls \<noteq> []" "\<forall>l \<in> set ls. LF \<notin> set l"
  shows "response_text code (concat (map (\<lambda>l. l @ [LF]) ls)) =
    concat (map (\<lambda>l. FormatInt code @ ''-'' @ l @ [CR, LF]) (butlast ls)) @ FormatInt code @ '' '' @ last ls @ [CR, LF]"
proof -
  have "Split (concat (map (\<lambda>l. l @ [LF]) ls)) [LF] = ls @ [[]]" if "\<forall>l \<in> set ls. LF \<notin> set l" for ls
    using that
  proof (induction ls)
    case (Cons l ls)
    then show ?case using Split_char_append [of LF l] by simp
  qed (simp add: Split_char_none)
  then have sp: "Split (concat (map (\<lambda>l. l @ [LF]) ls)) [LF] = ls @ [[]]" using assms(2) by blast
  have "take (length ls - 1) (ls @ [[]]) = butlast ls" "(ls @ [[]]) ! (length ls - 1) = last ls"
    using assms(1) by (simp_all add: butlast_conv_take nth_append last_conv_nth)
  then show ?thesis by (simp add: response_text_def sp Let_def)
qed

lemma response_text_single: "LF \<notin> set msg \<Longrightarrow> response_text code msg = FormatInt code @ '' '' @ msg @ [CR, LF]"
  by (simp add: response_text_def Split_char_none)

text \<open>But the last line of several is lost when it has no newline.\<close>

lemma response_text_drops_last:
  assumes "LF \<notin> set a" "LF \<notin> set b"
  shows "response_text code (a @ LF # b) = response_text code a"
  using assms by (simp add: response_text_def Split_char_append Split_char_none)

section \<open>Hooks\<close>

lemma SplitAfter_LF_lines:
  "\<exists>ls l. s = concat (map (\<lambda>l. l @ [LF]) ls) @ l \<and> SplitAfter_LF s = map (\<lambda>l. l @ [LF]) ls @ [l] \<and>
     (\<forall>x \<in> set ls. LF \<notin> set x) \<and> LF \<notin> set l"
proof (induction s)
  case Nil
  show ?case by (intro exI [of _ "[]"]) simp
next
  case (Cons c s)
  then obtain ls l where s: "s = concat (map (\<lambda>l. l @ [LF]) ls) @ l"
    "SplitAfter_LF s = map (\<lambda>l. l @ [LF]) ls @ [l]" "\<forall>x \<in> set ls. LF \<notin> set x" "LF \<notin> set l" by blast
  show ?case
  proof (cases "c = LF")
    case True
    then show ?thesis using s by (intro exI [of _ "[] # ls"] exI [of _ l]) simp
  next
    case False
    show ?thesis
    proof (cases ls)
      case Nil
      then show ?thesis using s False by (intro exI [of _ "[]"] exI [of _ "c # l"]) simp
    next
      case (Cons a as)
      then show ?thesis using s False by (intro exI [of _ "(c # a) # as"] exI [of _ l]) simp
    qed
  qed
qed

abbreviation whole_lines :: "string list \<Rightarrow> string" where
  "whole_lines ls \<equiv> concat (map (\<lambda>l. l @ [LF]) ls)"

lemma header_lines_iff:
  assumes "\<forall>l \<in> set ls. LF \<notin> set l"
  shows "header_lines seen (map (\<lambda>l. l @ [LF]) ls @ [[]]) \<longleftrightarrow>
    list_all (\<lambda>l. l \<noteq> [] \<and> (hd l \<in> {SP, TAB} \<or> CHR '':'' \<in> set l)) ls \<and>
    (seen \<or> (case ls of [] \<Rightarrow> True | l # _ \<Rightarrow> hd l \<notin> {SP, TAB}))"
  using assms
proof (induction ls arbitrary: seen)
  case (Cons l ls)
  note ih = Cons.IH
  show ?case
  proof (cases l)
    case Nil
    then show ?thesis by (simp add: HasPrefix_def Contains_char)
  next
    case (Cons c t)
    then show ?thesis using ih Cons.prems by (auto simp: HasPrefix_def Contains_char)
  qed
qed simp

lemma no_blank_line:
  assumes "whole_lines ls = p @ LF # LF # q" "list_all (\<lambda>l. LF \<notin> set l \<and> l \<noteq> []) ls"
  shows False
  using assms
proof (induction ls arbitrary: p)
  case (Cons l ls)
  from Cons.prems(1) have "l @ LF # whole_lines ls = p @ LF # LF # q" by simp
  then consider us where "l = p @ us" "us @ LF # whole_lines ls = LF # LF # q"
    | us where "p = l @ us" "LF # whole_lines ls = us @ LF # LF # q" by (auto simp: append_eq_append_conv2)
  then show ?case
  proof cases
    case (1 us)
    then have "us = []" using Cons.prems(2) by (cases us) auto
    with 1 have "whole_lines ls = LF # q" by simp
    then show False using Cons.prems(2) by (cases ls; cases "hd ls") auto
  next
    case (2 us)
    show False
    proof (cases us)
      case Nil
      with 2 have "whole_lines ls = LF # q" by simp
      then show False using Cons.prems(2) by (cases ls; cases "hd ls") auto
    next
      case (Cons u us')
      with 2(2) have "whole_lines ls = us' @ LF # LF # q" by (metis append_Cons list.inject)
      with Cons.IH Cons.prems(2) show False by simp
    qed
  qed
qed simp

lemma SplitAfter_LF_line: "LF \<notin> set l \<Longrightarrow> SplitAfter_LF (l @ LF # s) = (l @ [LF]) # SplitAfter_LF s"
  by (induction l) auto

lemma SplitAfter_whole:
  "\<forall>l \<in> set ls. LF \<notin> set l \<Longrightarrow> SplitAfter_LF (whole_lines ls) = map (\<lambda>l. l @ [LF]) ls @ [[]]"
  by (induction ls) (simp_all add: SplitAfter_LF_line)

lemma isHeader_lines:
  assumes "isHeader s"
  shows "\<exists>ls. s = whole_lines ls \<and> (\<forall>l \<in> set ls. LF \<notin> set l) \<and> (ls = [] \<or> header_lines False (map (\<lambda>l. l @ [LF]) ls @ [[]]))"
proof -
  obtain ls l where s: "s = whole_lines ls @ l" "SplitAfter_LF s = map (\<lambda>l. l @ [LF]) ls @ [l]"
    "\<forall>x \<in> set ls. LF \<notin> set x" "LF \<notin> set l" using SplitAfter_LF_lines by blast
  have "l = []"
  proof (rule ccontr)
    assume "l \<noteq> []"
    then have "last s = last l" "s \<noteq> []" using s(1) by simp_all
    then have "last l = LF" using assms by (auto simp: isHeader_def split: if_splits)
    with s(4) \<open>l \<noteq> []\<close> show False by (metis last_in_set)
  qed
  with s have "s = whole_lines ls" "SplitAfter_LF s = map (\<lambda>l. l @ [LF]) ls @ [[]]" by simp_all
  moreover from this have "ls = [] \<or> header_lines False (map (\<lambda>l. l @ [LF]) ls @ [[]])"
    using assms by (auto simp: isHeader_def split: if_splits)
  ultimately show ?thesis using s(3) by blast
qed

lemma lines_isHeader:
  assumes "\<forall>l \<in> set ls. LF \<notin> set l \<and> l \<noteq> []" "header_lines False (map (\<lambda>l. l @ [LF]) ls @ [[]])"
  shows "isHeader (whole_lines ls)"
proof (cases ls)
  case (Cons l ls')
  have "\<not> Contains (whole_lines ls) [LF, LF]"
  proof
    assume "Contains (whole_lines ls) [LF, LF]"
    then obtain i where "Index (whole_lines ls) [LF, LF] = Some i" by (auto simp: Contains_def)
    from Index_Some_split [OF this] have "\<exists>p q. whole_lines ls = p @ [LF, LF] @ q" by (intro exI)
    then obtain p q where "whole_lines ls = p @ LF # LF # q" by auto
    with no_blank_line [of ls p q] assms(1) show False by (simp add: list_all_iff)
  qed
  moreover have "whole_lines ls \<noteq> [LF]" using Cons assms(1) by (cases l) auto
  moreover have "whole_lines ls \<noteq> []" using Cons by simp
  moreover have "last (whole_lines xs) = LF" if "xs \<noteq> []" for xs
    using that by (cases xs rule: rev_cases) simp_all
  then have "last (whole_lines ls) = LF" using Cons by blast
  moreover have "header_lines False (SplitAfter_LF (whole_lines ls))" using assms SplitAfter_whole [of ls] by simp
  ultimately show ?thesis by (simp add: isHeader_def)
qed (simp add: isHeader_def)

lemma sanitizeEHLODomain_safe: "c \<in> set (sanitizeEHLODomain d) \<Longrightarrow> ehlo_rune (byte c) \<and> byte c < 128"
proof -
  assume "c \<in> set (sanitizeEHLODomain d)"
  then obtain r where r: "c \<in> set (encode_rune r)" "ehlo_rune r" by (auto simp: sanitizeEHLODomain_def)
  then have "r < 128" by (auto simp: ehlo_rune_def)
  then have "byte c = r" using r(1) by (auto simp: encode_rune_def)
  with r(2) \<open>r < 128\<close> show ?thesis by simp
qed

text \<open>
  What is accepted as the output of a hook is empty, or a sequence of whole lines none of which is
  empty, where the first is not a continuation and each one is a continuation or has a colon.
  So it can be put before the headers of a message without ending them. The domain
  given to a hook has only letters, digits and the characters of an address literal.
\<close>

theorem hook_text_safe:
  "(isHeader s \<longleftrightarrow>
     (\<exists>ls. s = concat (map (\<lambda>l. l @ [LF]) ls) \<and>
        list_all (\<lambda>l. LF \<notin> set l \<and> l \<noteq> [] \<and> (hd l \<in> {SP, TAB} \<or> CHR '':'' \<in> set l)) ls \<and>
        (case ls of [] \<Rightarrow> True | l # _ \<Rightarrow> hd l \<notin> {SP, TAB}))) \<and>
   list_all (\<lambda>c. ehlo_rune (byte c) \<and> byte c < 128) (sanitizeEHLODomain d)"
    (is "(_ \<longleftrightarrow> (\<exists>ls. ?P ls)) \<and> _")
proof (intro conjI iffI)
  assume "isHeader s"
  from isHeader_lines [OF this] obtain ls where ls: "s = whole_lines ls" "\<forall>l \<in> set ls. LF \<notin> set l"
    "ls = [] \<or> header_lines False (map (\<lambda>l. l @ [LF]) ls @ [[]])" by blast
  then have "?P ls" using header_lines_iff [OF ls(2)] by (auto simp: list_all_iff)
  then show "\<exists>ls. ?P ls" by blast
next
  assume "\<exists>ls. ?P ls"
  then obtain ls where ls: "?P ls" by blast
  then have "\<forall>l \<in> set ls. LF \<notin> set l" by (auto simp: list_all_iff)
  from header_lines_iff [OF this] ls have "header_lines False (map (\<lambda>l. l @ [LF]) ls @ [[]])"
    by (auto simp: list_all_iff)
  with ls show "isHeader s" using lines_isHeader [of ls] by (auto simp: list_all_iff)
qed (use sanitizeEHLODomain_safe in \<open>auto simp: list_all_iff\<close>)

end
