(* ===== verification/DotReader.thy ===== *)
theory DotReader
  imports GoIO
begin

text \<open>
  The reader of the DATA payload, \<open>src/internal/smtpsrv/dotreader.go\<close>: a byte-wise state machine
  that stops at the first line made of a single dot, undoes the dot-stuffing, turns CRLF into
  LF, and refuses any CR or LF on its own. The lemmas relate it to a description by whole
  lines, from which follow that what it accepts is exactly a sequence of CRLF lines up to the
  first lone dot, so that a client and chasquid cannot disagree on where a message ends.
\<close>

section \<open>The state machine\<close>

datatype prev_state = prevOther | prevCR | prevCRLF

datatype dot_error =
    errRead io_error
  | errMessageTooLarge
  | errInvalidLineEnding

record dot_state =
  d_buf :: string
  d_n :: nat
  d_prev :: prev_state
  d_last4 :: string

definition dot_init :: dot_state where
  "dot_init = \<lparr>d_buf = [], d_n = 0, d_prev = prevCRLF, d_last4 = [NUL, NUL, NUL, NUL]\<rparr>"

text \<open>The end of one iteration: remember the byte, and keep it unless it is skipped.\<close>

definition dot_push :: "int \<Rightarrow> char \<Rightarrow> bool \<Rightarrow> prev_state \<Rightarrow> dot_state \<Rightarrow> dot_state" where
  "dot_push mx b skip p st =
     \<lparr>d_buf = (if int (length (d_buf st)) < mx \<and> \<not> skip then d_buf st @ [b] else d_buf st),
      d_n = Suc (d_n st),
      d_prev = p,
      d_last4 = tl (d_last4 st) @ [b]\<rparr>"

text \<open>
  The loop. Its result is the buffer, the error if any, and the bytes that were not read. The
  error that ends the input is turned into \<open>io.ErrUnexpectedEOF\<close> when it is \<open>io.EOF\<close>.
\<close>

fun dot_loop :: "io_error \<Rightarrow> int \<Rightarrow> dot_state \<Rightarrow> string \<Rightarrow> string \<times> dot_error option \<times> string" where
  "dot_loop e mx st [] =
     (d_buf st, Some (errRead (if e = EOF then ErrUnexpectedEOF else e)), [])"
| "dot_loop e mx st (b # rest) =
     (if b = CR then
        if d_prev st = prevCR then (d_buf st, Some errInvalidLineEnding, rest)
        else dot_loop e mx (dot_push mx b True prevCR st) rest
      else if b = LF then
        if d_prev st \<noteq> prevCR then (d_buf st, Some errInvalidLineEnding, rest)
        else if d_last4 st = [CR, LF, CHR ''.'', CR] then
          (d_buf st,
           if mx < int (Suc (d_n st)) then Some errMessageTooLarge else None,
           rest)
        else if Suc (d_n st) = 3 \<and> d_last4 st = [NUL, NUL, CHR ''.'', CR] then ([], None, rest)
        else dot_loop e mx (dot_push mx b False prevCRLF st) rest
      else
        if d_prev st = prevCR then (d_buf st, Some errInvalidLineEnding, rest)
        else dot_loop e mx
               (dot_push mx b (b = CHR ''.'' \<and> d_prev st = prevCRLF) prevOther st) rest)"

definition readUntilDot :: "reader \<Rightarrow> int \<Rightarrow> string \<times> dot_error option \<times> reader" where
  "readUntilDot r mx =
     (let (buf, err, rest) = dot_loop (r_end r) mx dot_init (r_bytes r)
      in (buf, err, r\<lparr>r_bytes := rest\<rparr>))"

section \<open>Messages as lines\<close>

text \<open>
  The reference: a line on the wire has no CR and no LF, and a leading dot is taken off it. The
  lines before the final dot are the message.
\<close>

definition plain_byte :: "char \<Rightarrow> bool" where
  "plain_byte c \<longleftrightarrow> c \<noteq> CR \<and> c \<noteq> LF"

definition wire_line :: "string \<Rightarrow> bool" where
  "wire_line w \<longleftrightarrow> (\<forall>c \<in> set w. plain_byte c) \<and> w \<noteq> ''.''"

definition unstuff :: "string \<Rightarrow> string" where
  "unstuff w = (case w of c # cs \<Rightarrow> if c = CHR ''.'' then cs else w | [] \<Rightarrow> [])"

definition stuff :: "string \<Rightarrow> string" where
  "stuff l = (case l of c # cs \<Rightarrow> if c = CHR ''.'' then CHR ''.'' # l else l | [] \<Rightarrow> [])"

definition wire :: "string list \<Rightarrow> string" where
  "wire ws = concat (map (\<lambda>w. w @ CRLF) ws)"

definition unwire :: "string list \<Rightarrow> string" where
  "unwire ws = concat (map (\<lambda>w. unstuff w @ [LF]) ws)"

abbreviation terminator :: string where
  "terminator \<equiv> [CHR ''.'', CR, LF]"

text \<open>The reader by lines: \<open>c\<close> is what was read so far, \<open>full\<close> the message without the size limit.\<close>

definition dot_finish :: "int \<Rightarrow> string \<Rightarrow> string \<Rightarrow> string \<Rightarrow> string \<times> dot_error option \<times> string" where
  "dot_finish mx c full rest =
     (if c = [] then ([], None, rest)
      else (take (nat mx) full,
            if mx < int (length c + 3) then Some errMessageTooLarge else None, rest))"

lemma plain_byte_split:
  obtains w where "\<forall>c \<in> set w. plain_byte c" and "s = w"
  | w b t where "\<forall>c \<in> set w. plain_byte c" and "\<not> plain_byte b" and "s = w @ b # t"
proof (cases "\<forall>c \<in> set s. plain_byte c")
  case False
  then show ?thesis using split_list_first_prop [of s "\<lambda>c. \<not> plain_byte c"] that(2) by blast
qed (use that(1) in blast)

section \<open>The state machine by lines\<close>

text \<open>The last four bytes of what was read, after four NUL bytes.\<close>

definition recent4 :: "string \<Rightarrow> string" where
  "recent4 c = drop (length c) ([NUL, NUL, NUL, NUL] @ c)"

lemma recent4_Nil: "recent4 [] = [NUL, NUL, NUL, NUL]"
  by (simp add: recent4_def)

lemma recent4_snoc: "recent4 (c @ [b]) = tl (recent4 c) @ [b]"
proof -
  let ?z = "[NUL, NUL, NUL, NUL] :: string"
  have "recent4 (c @ [b]) = drop (Suc (length c)) ((?z @ c) @ [b])"
    unfolding recent4_def by simp
  also have "\<dots> = drop (Suc (length c)) (?z @ c) @ [b]"
    by (subst drop_append) simp
  also have "drop (Suc (length c)) (?z @ c) = tl (recent4 c)"
    unfolding recent4_def by (simp only: drop_Suc tl_drop)
  finally show ?thesis .
qed

lemma recent4_length: "length (recent4 c) = 4"
  by (simp add: recent4_def)

lemma recent4_elems: obtains p q r s where "recent4 c = [p, q, r, s]"
  using recent4_length [of c]
  by (auto simp: numeral_eq_Suc length_Suc_conv)

text \<open>The state after reading \<open>c\<close>, when \<open>full\<close> is the message so far.\<close>

definition dot_at :: "int \<Rightarrow> prev_state \<Rightarrow> string \<Rightarrow> string \<Rightarrow> dot_state" where
  "dot_at mx p c full =
     \<lparr>d_buf = take (nat mx) full, d_n = length c, d_prev = p, d_last4 = recent4 c\<rparr>"

lemma dot_init_at: "dot_init = dot_at mx prevCRLF [] []"
  by (simp add: dot_init_def dot_at_def recent4_Nil)

lemma dot_push_at:
  "dot_push mx b skip p (dot_at mx q c full)
     = dot_at mx p (c @ [b]) (if skip then full else full @ [b])"
proof -
  have "(if int (length (take (nat mx) full)) < mx then take (nat mx) full @ [b]
      else take (nat mx) full) = take (nat mx) (full @ [b])"
    by (auto simp: min_def take_Cons' split: if_splits)
  then show ?thesis
    by (simp add: dot_push_def dot_at_def recent4_snoc)
qed

lemma dot_at_sel [simp]:
  "d_prev (dot_at mx p c full) = p"
  "d_buf (dot_at mx p c full) = take (nat mx) full"
  "d_n (dot_at mx p c full) = length c"
  "d_last4 (dot_at mx p c full) = recent4 c"
  by (simp_all add: dot_at_def)

text \<open>Inside a line every plain byte is kept.\<close>

lemma dot_loop_mid:
  "\<forall>b \<in> set w. plain_byte b \<Longrightarrow>
    dot_loop e mx (dot_at mx prevOther c full) (w @ s)
      = dot_loop e mx (dot_at mx prevOther (c @ w) (full @ w)) s"
proof (induction w arbitrary: c full)
  case (Cons b w)
  then have "plain_byte b" by simp
  then have "dot_loop e mx (dot_at mx prevOther c full) ((b # w) @ s)
      = dot_loop e mx (dot_at mx prevOther (c @ [b]) (full @ [b])) (w @ s)"
    by (simp add: plain_byte_def dot_push_at)
  with Cons show ?case by simp
qed simp

lemma dot_loop_line:
  assumes "\<forall>b \<in> set w. plain_byte b"
  shows "dot_loop e mx (dot_at mx prevCRLF c full) (w @ s)
      = dot_loop e mx (dot_at mx (if w = [] then prevCRLF else prevOther) (c @ w) (full @ unstuff w)) s"
proof (cases w)
  case (Cons b w')
  with assms have b: "plain_byte b" and w': "\<forall>b \<in> set w'. plain_byte b" by auto
  have "dot_loop e mx (dot_at mx prevCRLF c full) (w @ s)
      = dot_loop e mx (dot_at mx prevOther (c @ [b]) (if b = CHR ''.'' then full else full @ [b])) (w' @ s)"
    using b Cons by (simp add: plain_byte_def dot_push_at)
  then show ?thesis
    using Cons by (simp add: dot_loop_mid [OF w'] unstuff_def)
qed (simp add: unstuff_def)

text \<open>What the last four bytes are when the line \<open>w\<close> and its CR have been read.\<close>

lemma recent4_crlf:
  assumes "suffix CRLF c"
  obtains a b where "recent4 c = [a, b, CR, LF]"
proof -
  obtain c' where c: "c = (c' @ [CR]) @ [LF]" using assms by (auto simp: suffix_def)
  obtain p q r s where "recent4 c' = [p, q, r, s]" by (rule recent4_elems)
  then have "recent4 c = [r, s, CR, LF]" unfolding c by (simp add: recent4_snoc del: append_assoc)
  then show ?thesis by (rule that)
qed

lemma recent4_line:
  assumes "\<forall>b \<in> set w. plain_byte b" and "recent4 c = [a, b, x, y]"
  shows "recent4 ((c @ w) @ [CR]) =
    (case rev w of [] \<Rightarrow> [b, x, y, CR] | [p] \<Rightarrow> [x, y, p, CR] | [p, q] \<Rightarrow> [y, q, p, CR]
     | p # q # r # _ \<Rightarrow> [r, q, p, CR])"
proof -
  have w: "w = rev (rev w)" by simp
  have "recent4 ((c @ rev v) @ [CR]) =
    (case v of [] \<Rightarrow> [b, x, y, CR] | [p] \<Rightarrow> [x, y, p, CR] | [p, q] \<Rightarrow> [y, q, p, CR]
     | p # q # r # _ \<Rightarrow> [r, q, p, CR])" for v
  proof -
    consider "v = []" | p where "v = [p]" | p q where "v = [p, q]"
      | p q r u where "v = p # q # r # u"
      by (metis list.exhaust)
    then show ?thesis
    proof cases
      case (4 p q r u)
      obtain s t z z' where "recent4 (c @ rev u) = [s, t, z, z']" by (rule recent4_elems)
      moreover have "(c @ rev v) @ [CR] = ((((c @ rev u) @ [r]) @ [q]) @ [p]) @ [CR]"
        using 4 by simp
      ultimately show ?thesis using 4 by (simp only: recent4_snoc) simp
    next
      case (3 p q)
      then have "(c @ rev v) @ [CR] = ((c @ [q]) @ [p]) @ [CR]" by simp
      with 3 assms(2) show ?thesis by (simp only: recent4_snoc) simp
    next
      case (2 p)
      then have "(c @ rev v) @ [CR] = (c @ [p]) @ [CR]" by simp
      with 2 assms(2) show ?thesis by (simp only: recent4_snoc) simp
    qed (simp add: recent4_snoc assms(2))
  qed
  from this [of "rev w"] show ?thesis by simp
qed

lemma last4_end:
  assumes c: "c = [] \<or> suffix CRLF c" and w: "\<forall>b \<in> set w. plain_byte b"
  shows "recent4 ((c @ w) @ [CR]) = [CR, LF, CHR ''.'', CR] \<longleftrightarrow> c \<noteq> [] \<and> w = ''.''"
    and "Suc (length ((c @ w) @ [CR])) = 3 \<and> recent4 ((c @ w) @ [CR]) = [NUL, NUL, CHR ''.'', CR]
           \<longleftrightarrow> c = [] \<and> w = ''.''"
proof -
  have pl: "plain_byte x" if "x \<in> set (rev w)" for x using w that by simp
  consider (start) "c = []" | (crlf) a b where "c \<noteq> []" "recent4 c = [a, b, CR, LF]" "2 \<le> length c"
  proof (cases "c = []")
    case False
    with c have "suffix CRLF c" by simp
    moreover from this have "2 \<le> length c" by (auto simp: suffix_def)
    ultimately show ?thesis using recent4_crlf [of c thesis] False crlf by blast
  qed (rule start)
  then have "(recent4 ((c @ w) @ [CR]) = [CR, LF, CHR ''.'', CR] \<longleftrightarrow> c \<noteq> [] \<and> w = ''.'') \<and>
    (Suc (length ((c @ w) @ [CR])) = 3 \<and> recent4 ((c @ w) @ [CR]) = [NUL, NUL, CHR ''.'', CR]
      \<longleftrightarrow> c = [] \<and> w = ''.'')"
  proof cases
    case start
    then have "recent4 c = [NUL, NUL, NUL, NUL]" by (simp add: recent4_Nil)
    from recent4_line [OF w this] start pl show ?thesis
      by (cases w rule: rev_cases) (auto simp: plain_byte_def split: list.splits)
  next
    case crlf
    from recent4_line [OF w crlf(2)] crlf pl show ?thesis
      by (cases w rule: rev_cases) (auto simp: plain_byte_def split: list.splits)
  qed
  then show "recent4 ((c @ w) @ [CR]) = [CR, LF, CHR ''.'', CR] \<longleftrightarrow> c \<noteq> [] \<and> w = ''.''"
    and "Suc (length ((c @ w) @ [CR])) = 3 \<and> recent4 ((c @ w) @ [CR]) = [NUL, NUL, CHR ''.'', CR]
           \<longleftrightarrow> c = [] \<and> w = ''.''"
    by simp_all
qed


section \<open>One line at a time\<close>

definition line_start :: "string \<Rightarrow> bool" where
  "line_start c \<longleftrightarrow> c = [] \<or> suffix CRLF c"

lemma line_start_snoc: "line_start (c @ w @ CRLF)"
  by (simp add: line_start_def suffix_def)

lemma dot_loop_cr:
  assumes "\<forall>b \<in> set w. plain_byte b"
  shows "dot_loop e mx (dot_at mx prevCRLF c full) (w @ CR # s)
      = dot_loop e mx (dot_at mx prevCR ((c @ w) @ [CR]) (full @ unstuff w)) s"
  by (simp add: dot_loop_line [OF assms] dot_push_at)

lemma dot_loop_crlf:
  assumes "line_start c" and w: "\<forall>b \<in> set w. plain_byte b"
  shows "dot_loop e mx (dot_at mx prevCRLF c full) (w @ CR # LF # s)
      = (if w = ''.'' then dot_finish mx c full s
         else dot_loop e mx (dot_at mx prevCRLF (c @ w @ CRLF) (full @ unstuff w @ [LF])) s)"
proof -
  have c: "c = [] \<or> suffix CRLF c" using assms(1) by (simp add: line_start_def)
  let ?l = "recent4 ((c @ w) @ [CR])"
  have step: "dot_loop e mx (dot_at mx prevCR ((c @ w) @ [CR]) (full @ unstuff w)) (LF # s) =
     (if ?l = [CR, LF, CHR ''.'', CR] then
          (take (nat mx) (full @ unstuff w),
           if mx < int (length c + length w + 2) then Some errMessageTooLarge else None, s)
        else if Suc (length ((c @ w) @ [CR])) = 3 \<and> ?l = [NUL, NUL, CHR ''.'', CR] then ([], None, s)
        else dot_loop e mx (dot_at mx prevCRLF (c @ w @ CRLF) (full @ unstuff w @ [LF])) s)"
    by (simp add: dot_push_at del: append_assoc) simp
  have dot: "w = ''.'' \<Longrightarrow> unstuff w = []" by (simp add: unstuff_def)
  show ?thesis
    unfolding dot_loop_cr [OF w] step last4_end [OF c w] dot_finish_def
    using dot by simp
qed

lemma wire_simps [simp]:
  "wire [] = []" "wire (w # ws) = w @ CRLF @ wire ws"
  "unwire [] = []" "unwire (w # ws) = unstuff w @ [LF] @ unwire ws"
  by (simp_all add: wire_def unwire_def)

text \<open>A sequence of well-formed lines, from any line start.\<close>

lemma dot_loop_wire:
  "\<lbrakk>line_start c; \<forall>w \<in> set ws. wire_line w\<rbrakk> \<Longrightarrow>
    dot_loop e mx (dot_at mx prevCRLF c full) (wire ws @ s)
      = dot_loop e mx (dot_at mx prevCRLF (c @ wire ws) (full @ unwire ws)) s"
proof (induction ws arbitrary: c full)
  case (Cons w ws)
  then have w: "\<forall>b \<in> set w. plain_byte b" "w \<noteq> ''.''" by (simp_all add: wire_line_def)
  have "dot_loop e mx (dot_at mx prevCRLF c full) (wire (w # ws) @ s)
      = dot_loop e mx (dot_at mx prevCRLF (c @ w @ CRLF) (full @ unstuff w @ [LF])) (wire ws @ s)"
    using dot_loop_crlf [OF Cons.prems(1) w(1), of e mx full "wire ws @ s"] w(2) by simp
  also have "\<dots> = dot_loop e mx (dot_at mx prevCRLF (c @ wire (w # ws)) (full @ unwire (w # ws))) s"
    using Cons.IH [of "c @ w @ CRLF" "full @ unstuff w @ [LF]"] Cons.prems(2)
    by (simp add: line_start_snoc)
  finally show ?case .
qed simp

lemma line_start_wire: "line_start c \<Longrightarrow> line_start (c @ wire ws)"
proof (induction ws arbitrary: c)
  case (Cons w ws)
  show ?case using Cons.IH [of "c @ w @ CRLF"] by (simp add: line_start_snoc)
qed simp

text \<open>The reader by lines: the lines before the one that ends the reading, and why it ends it.\<close>

datatype dot_stop = StopDot | StopBare | StopEnd

function dot_lines :: "string \<Rightarrow> string list \<times> dot_stop \<times> string" where
  "dot_lines s =
     (let w = takeWhile plain_byte s in
      case dropWhile plain_byte s of
        [] \<Rightarrow> ([], StopEnd, [])
      | b # t \<Rightarrow>
          if b = LF then ([], StopBare, t)
          else (case t of
              [] \<Rightarrow> ([], StopEnd, [])
            | d # u \<Rightarrow>
                if d \<noteq> LF then ([], StopBare, u)
                else if w = ''.'' then ([], StopDot, u)
                else (let (ws, res) = dot_lines u in (w # ws, res))))"
  by pat_completeness auto
termination
proof (relation "measure length")
  fix s x and b :: char and t d u
  assume "dropWhile plain_byte s = b # t" "t = d # u"
  then have "length (dropWhile plain_byte s) = Suc (Suc (length u))" by simp
  moreover have "length (dropWhile plain_byte s) \<le> length s" by (rule length_dropWhile_le)
  ultimately show "(u, s) \<in> measure length" by simp
qed simp

declare dot_lines.simps [simp del]

lemma takeWhile_plain:
  "\<lbrakk>\<forall>c \<in> set w. plain_byte c; \<not> plain_byte b\<rbrakk> \<Longrightarrow> takeWhile plain_byte (w @ b # t) = w"
  "\<lbrakk>\<forall>c \<in> set w. plain_byte c; \<not> plain_byte b\<rbrakk> \<Longrightarrow> dropWhile plain_byte (w @ b # t) = b # t"
  by (simp_all add: takeWhile_append_hit dropWhile_append_hit)

lemma not_plain [simp]: "\<not> plain_byte CR" "\<not> plain_byte LF"
  by (simp_all add: plain_byte_def)

lemma dot_lines_unfold:
  assumes "\<forall>c \<in> set w. plain_byte c"
  shows "dot_lines w = ([], StopEnd, [])"
    and "dot_lines (w @ [CR]) = ([], StopEnd, [])"
    and "dot_lines (w @ LF # t) = ([], StopBare, t)"
    and "d \<noteq> LF \<Longrightarrow> dot_lines (w @ CR # d # t) = ([], StopBare, t)"
    and "dot_lines (w @ CR # LF # t) =
      (if w = ''.'' then ([], StopDot, t) else (let (ws, res) = dot_lines t in (w # ws, res)))"
proof -
  have "dropWhile plain_byte w = []" using assms by simp
  then show "dot_lines w = ([], StopEnd, [])" by (simp only: dot_lines.simps [of w] Let_def list.case)
qed (simp_all add: dot_lines.simps [of "w @ _"] takeWhile_plain assms)

lemma dot_lines_cases [consumes 0, case_names eof bare dot line]:
  obtains (eof) w where "\<forall>c \<in> set w. plain_byte c" "s = w \<or> s = w @ [CR]"
  | (bare) w t where "\<forall>c \<in> set w. plain_byte c"
      "s = w @ LF # t \<or> (\<exists>d. d \<noteq> LF \<and> s = w @ CR # d # t)"
  | (dot) t where "s = terminator @ t"
  | (line) w t where "wire_line w" "s = w @ CRLF @ t"
proof (cases rule: plain_byte_split [of s])
  case (1 w)
  then show ?thesis by (intro eof) auto
next
  case (2 w b t)
  then have "b = CR \<or> b = LF" by (simp add: plain_byte_def)
  moreover have "t = [] \<or> (\<exists>d u. t = d # u)" by (cases t) auto
  ultimately consider "b = LF" | "b = CR" "t = []" | d u where "b = CR" "t = d # u" "d \<noteq> LF"
    | u where "b = CR" "t = LF # u" by blast
  then show ?thesis
  proof cases
    case (4 u)
    with 2 show ?thesis using dot [of u] line [of w u] by (cases "w = ''.''") (auto simp: wire_line_def)
  qed (use 2 eof bare in blast)+
qed

lemma dot_loop_stops:
  assumes "\<forall>c \<in> set w. plain_byte c"
  shows "snd (dot_loop e mx (dot_at mx prevCRLF c full) (w @ LF # t)) = (Some errInvalidLineEnding, t)"
    and "d \<noteq> LF \<Longrightarrow>
      snd (dot_loop e mx (dot_at mx prevCRLF c full) (w @ CR # d # t)) = (Some errInvalidLineEnding, t)"
    and "snd (dot_loop e mx (dot_at mx prevCRLF c full) w)
      = (Some (errRead (if e = EOF then ErrUnexpectedEOF else e)), [])"
    and "snd (dot_loop e mx (dot_at mx prevCRLF c full) (w @ [CR]))
      = (Some (errRead (if e = EOF then ErrUnexpectedEOF else e)), [])"
proof -
  show "snd (dot_loop e mx (dot_at mx prevCRLF c full) w)
      = (Some (errRead (if e = EOF then ErrUnexpectedEOF else e)), [])"
    using dot_loop_line [OF assms, of e mx c full "[]"] by simp
  show "snd (dot_loop e mx (dot_at mx prevCRLF c full) (w @ LF # t)) = (Some errInvalidLineEnding, t)"
    unfolding dot_loop_line [OF assms] by simp
qed (simp_all only: dot_loop_cr [OF assms] dot_loop.simps dot_at_sel, simp_all)

lemma dot_loop_lines:
  assumes "line_start c"
  shows "case dot_lines s of
      (ws, StopDot, rest) \<Rightarrow>
        dot_loop e mx (dot_at mx prevCRLF c full) s = dot_finish mx (c @ wire ws) (full @ unwire ws) rest
    | (ws, StopBare, rest) \<Rightarrow>
        snd (dot_loop e mx (dot_at mx prevCRLF c full) s) = (Some errInvalidLineEnding, rest)
    | (ws, StopEnd, rest) \<Rightarrow>
        snd (dot_loop e mx (dot_at mx prevCRLF c full) s)
          = (Some (errRead (if e = EOF then ErrUnexpectedEOF else e)), rest)"
  using assms
proof (induction s arbitrary: c full rule: length_induct)
  case (1 s)
  show ?case
  proof (cases rule: dot_lines_cases [of s])
    case (eof w)
    from eof(2) show ?thesis
      by (elim disjE) (simp_all add: dot_lines_unfold [OF eof(1)] dot_loop_stops [OF eof(1)])
  next
    case (bare w t)
    from bare(2) show ?thesis
      by (elim disjE exE conjE)
        (simp_all add: dot_lines_unfold [OF bare(1)] dot_loop_stops [OF bare(1)])
  next
    case (dot t)
    have "\<forall>c \<in> set ''.''. plain_byte c" by (simp add: plain_byte_def)
    then show ?thesis
      using dot_lines_unfold(5) [of "''.''" t] dot_loop_crlf [OF "1.prems", of "''.''" e mx full t] dot
      by simp
  next
    case (line w t)
    then have w: "\<forall>c \<in> set w. plain_byte c" "w \<noteq> ''.''" by (simp_all add: wire_line_def)
    have "length t < length s" using line by simp
    note IH = "1.IH" [rule_format, OF this line_start_snoc, of c w "full @ unstuff w @ [LF]"]
    show ?thesis
      using IH dot_lines_unfold(5) [OF w(1), of t] dot_loop_crlf [OF "1.prems" w(1), of e mx full t]
        line w(2)
      by (auto split: prod.splits dot_stop.splits)
  qed
qed

lemma dot_lines_wire:
  "\<forall>w \<in> set ws. wire_line w \<Longrightarrow>
     dot_lines (wire ws @ s) = (let (ws', res) = dot_lines s in (ws @ ws', res))"
proof (induction ws)
  case (Cons w ws)
  then have "\<forall>c \<in> set w. plain_byte c" "w \<noteq> ''.''" by (simp_all add: wire_line_def)
  with Cons show ?case
    using dot_lines_unfold(5) [of w "wire ws @ s"] by (simp split: prod.splits)
qed (simp split: prod.splits)

lemma dot_lines_dot [simp]: "dot_lines (CHR ''.'' # CR # LF # rest) = ([], StopDot, rest)"
  using dot_lines_unfold(5) [of "''.''" rest] by (simp add: plain_byte_def)

lemma dot_lines_StopDot_iff:
  "dot_lines s = (ws, StopDot, rest) \<longleftrightarrow>
     (\<forall>w \<in> set ws. wire_line w) \<and> s = wire ws @ terminator @ rest"
proof
  show "dot_lines s = (ws, StopDot, rest) \<Longrightarrow>
      (\<forall>w \<in> set ws. wire_line w) \<and> s = wire ws @ terminator @ rest"
  proof (induction s arbitrary: ws rule: length_induct)
    case (1 s)
    show ?case
    proof (cases rule: dot_lines_cases [of s])
      case (line w t)
      then have w: "\<forall>c \<in> set w. plain_byte c" "w \<noteq> ''.''" by (simp_all add: wire_line_def)
      obtain ws' where "ws = w # ws'" "dot_lines t = (ws', StopDot, rest)"
        using "1.prems" line dot_lines_unfold(5) [OF w(1), of t] w(2) by (auto split: prod.splits)
      moreover have "length t < length s" using line by simp
      ultimately show ?thesis using "1.IH" [rule_format, of t ws'] line by simp
    qed (use "1.prems" in \<open>auto simp: dot_lines_unfold\<close>)
  qed
qed (simp add: dot_lines_wire)

lemma dot_lines_StopBare_sound:
  "dot_lines s = (ws, StopBare, rest) \<Longrightarrow>
     (\<forall>w \<in> set ws. wire_line w) \<and> (\<exists>w. (\<forall>c \<in> set w. plain_byte c) \<and>
        (s = wire ws @ w @ LF # rest \<or> (\<exists>d. d \<noteq> LF \<and> s = wire ws @ w @ CR # d # rest)))"
proof (induction s arbitrary: ws rule: length_induct)
  case (1 s)
  show ?case
  proof (cases rule: dot_lines_cases [of s])
    case (bare w t)
    then have "t = rest \<and> ws = []" using "1.prems" by (auto simp: dot_lines_unfold)
    then show ?thesis using bare by (intro conjI exI [of _ w]) auto
  next
    case (line w t)
    then have w: "\<forall>c \<in> set w. plain_byte c" "w \<noteq> ''.''" by (simp_all add: wire_line_def)
    obtain ws' where ws: "ws = w # ws'" "dot_lines t = (ws', StopBare, rest)"
      using "1.prems" line dot_lines_unfold(5) [OF w(1), of t] w(2) by (auto split: prod.splits)
    have "length t < length s" using line by simp
    from "1.IH" [rule_format, OF this ws(2)] line ws(1) show ?thesis by simp
  next
    case (dot t)
    then show ?thesis using "1.prems" by simp
  next
    case (eof w)
    from eof(2) "1.prems" show ?thesis
      by (elim disjE) (simp_all add: dot_lines_unfold [OF eof(1)])
  qed
qed

lemma dot_lines_StopBare_complete:
  assumes "\<forall>w \<in> set ws. wire_line w" "\<forall>c \<in> set w. plain_byte c"
  shows "dot_lines (wire ws @ w @ LF # rest) = (ws, StopBare, rest)"
    and "d \<noteq> LF \<Longrightarrow> dot_lines (wire ws @ w @ CR # d # rest) = (ws, StopBare, rest)"
  by (simp_all add: dot_lines_wire [OF assms(1)] dot_lines_unfold [OF assms(2)])

lemma dot_lines_StopBare_iff:
  "(\<exists>ws. dot_lines s = (ws, StopBare, rest)) \<longleftrightarrow>
     (\<exists>ws w. (\<forall>l \<in> set ws. wire_line l) \<and> (\<forall>c \<in> set w. plain_byte c) \<and>
        (s = wire ws @ w @ LF # rest \<or> (\<exists>d. d \<noteq> LF \<and> s = wire ws @ w @ CR # d # rest)))"
proof
  assume "\<exists>ws. dot_lines s = (ws, StopBare, rest)"
  then obtain ws where "dot_lines s = (ws, StopBare, rest)" ..
  from dot_lines_StopBare_sound [OF this]
  show "\<exists>ws w. (\<forall>l \<in> set ws. wire_line l) \<and> (\<forall>c \<in> set w. plain_byte c) \<and>
        (s = wire ws @ w @ LF # rest \<or> (\<exists>d. d \<noteq> LF \<and> s = wire ws @ w @ CR # d # rest))"
    by (intro exI [of _ ws]) simp
qed (use dot_lines_StopBare_complete in \<open>elim exE conjE disjE; simp; metis\<close>)

section \<open>What the reader accepts, and what it refuses\<close>

text \<open>The result of the whole reader by the way the lines end.\<close>

lemma readUntilDot_cases:
  "case dot_lines (r_bytes r) of
      (ws, StopDot, rest) \<Rightarrow>
        readUntilDot r mx = (let (buf, err, _) = dot_finish mx (wire ws) (unwire ws) rest
                             in (buf, err, r\<lparr>r_bytes := rest\<rparr>))
    | (ws, StopBare, rest) \<Rightarrow>
        snd (readUntilDot r mx) = (Some errInvalidLineEnding, r\<lparr>r_bytes := rest\<rparr>)
    | (ws, StopEnd, rest) \<Rightarrow>
        snd (readUntilDot r mx)
          = (Some (errRead (if r_end r = EOF then ErrUnexpectedEOF else r_end r)), r\<lparr>r_bytes := rest\<rparr>)"
proof -
  obtain ws stop rest where d: "dot_lines (r_bytes r) = (ws, stop, rest)" by (metis prod_cases3)
  obtain buf err x where l: "dot_loop (r_end r) mx dot_init (r_bytes r) = (buf, err, x)"
    by (metis prod_cases3)
  have "readUntilDot r mx = (buf, err, r\<lparr>r_bytes := x\<rparr>)" by (simp add: readUntilDot_def l)
  moreover have "line_start []" by (simp add: line_start_def)
  note dot_loop_lines [OF this, where s = "r_bytes r" and e = "r_end r" and mx = mx and full = "[]"]
  ultimately show ?thesis
    unfolding dot_init_at [of mx, symmetric] d l append_Nil
    by (cases stop) (simp_all add: dot_finish_def split: if_splits)
qed

lemma unwire_length: "length (unwire ws) \<le> length (wire ws)"
proof (induction ws)
  case (Cons w ws)
  have "length (unstuff w) \<le> length w" by (simp add: unstuff_def split: list.split)
  with Cons show ?case by simp
qed simp

lemma wire_Nil_iff [simp]: "wire ws = [] \<longleftrightarrow> ws = []"
  by (cases ws) simp_all

lemma readUntilDot_wire:
  assumes "\<forall>w \<in> set ws. wire_line w" and "int (length (wire ws) + 3) \<le> mx"
  shows "readUntilDot \<lparr>r_bytes = wire ws @ terminator @ rest, r_end = e\<rparr> mx
    = (unwire ws, None, \<lparr>r_bytes = rest, r_end = e\<rparr>)"
proof -
  have "dot_lines (wire ws @ terminator @ rest) = (ws, StopDot, rest)"
    using assms(1) by (simp only: dot_lines_StopDot_iff simp_thms)
  moreover have "take (nat mx) (unwire ws) = unwire ws"
    using assms(2) unwire_length [of ws] by simp
  ultimately show ?thesis
    using assms(2) readUntilDot_cases [of "\<lparr>r_bytes = wire ws @ terminator @ rest, r_end = e\<rparr>" mx]
    by (auto simp: dot_finish_def)
qed

lemma reader_eq_iff: "r\<lparr>r_bytes := x\<rparr> = r' \<longleftrightarrow> r_bytes r' = x \<and> r_end r' = r_end r" for r r' :: reader
  by (cases r; cases r') auto

text \<open>
  C5. The message reader accepts a payload exactly when the input is a sequence of CRLF-terminated
  lines, none of them a lone dot and none holding a CR or an LF of its own, followed by the
  line of a lone dot, and all of it fits in the limit (an empty message always does). It
  then returns the lines with their leading dot removed and ended by LF, and leaves the
  reader right after the final dot: no other input can end a message, so no part of a
  message can be taken for the commands that follow it, nor the reverse.
\<close>

theorem readUntilDot_accepts_iff:
  "readUntilDot r mx = (body, None, r') \<longleftrightarrow>
     (\<exists>ws. (\<forall>w \<in> set ws. wire_line w) \<and>
           r_bytes r = wire ws @ terminator @ r_bytes r' \<and> r_end r' = r_end r \<and>
           body = unwire ws \<and> (ws = [] \<or> int (length (wire ws) + 3) \<le> mx))"
proof -
  have lines: "(\<forall>w \<in> set ws. wire_line w) \<and> r_bytes r = wire ws @ terminator @ r_bytes r' \<and> P
      \<longleftrightarrow> dot_lines (r_bytes r) = (ws, StopDot, r_bytes r') \<and> P" for ws P
    by (simp only: dot_lines_StopDot_iff conj_assoc)
  have fits: "take (nat mx) (unwire ws) = unwire ws" if "int (length (wire ws) + 3) \<le> mx" for ws
    using that unwire_length [of ws] by simp
  obtain ws stop rest where d: "dot_lines (r_bytes r) = (ws, stop, rest)"
    by (metis prod_cases3)
  show ?thesis
    unfolding lines using d fits readUntilDot_cases [of r mx]
    by (cases stop) (auto simp: dot_finish_def reader_eq_iff)
qed

lemma readUntilDot_accepts_iff_witness:
  "readUntilDot \<lparr>r_bytes = ''a'' @ CRLF @ ''..b'' @ CRLF @ terminator @ ''RSET'', r_end = EOF\<rparr> 100
     = (''a'' @ [LF] @ ''.b'' @ [LF], None, \<lparr>r_bytes = ''RSET'', r_end = EOF\<rparr>)"
  by (subst readUntilDot_accepts_iff, rule exI [of _ "[''a'', ''..b'']"])
    (simp add: wire_line_def plain_byte_def unstuff_def)

text \<open>
  C6. A CR that is not followed by LF, or an LF that does not follow a CR, is refused with
  \<open>errInvalidLineEnding\<close> wherever it stands before the final dot, and nothing else is: the
  error is given exactly when well-formed lines are followed by plain bytes and then such a
  byte, whatever the size of the message and the bytes after it.
\<close>

theorem readUntilDot_bare_iff:
  "snd (readUntilDot r mx) = (Some errInvalidLineEnding, r') \<longleftrightarrow>
     r_end r' = r_end r \<and>
     (\<exists>ws w. (\<forall>l \<in> set ws. wire_line l) \<and> (\<forall>c \<in> set w. plain_byte c) \<and>
        (r_bytes r = wire ws @ w @ LF # r_bytes r' \<or>
         (\<exists>d. d \<noteq> LF \<and> r_bytes r = wire ws @ w @ CR # d # r_bytes r')))"
proof -
  obtain ws stop rest where d: "dot_lines (r_bytes r) = (ws, stop, rest)"
    by (metis prod_cases3)
  show ?thesis
    unfolding dot_lines_StopBare_iff [symmetric] using d readUntilDot_cases [of r mx]
    by (cases stop) (auto simp: dot_finish_def reader_eq_iff)
qed

lemma readUntilDot_bare_iff_witness:
  "snd (readUntilDot \<lparr>r_bytes = ''a'' @ [LF] @ terminator, r_end = EOF\<rparr> 100)
     = (Some errInvalidLineEnding, \<lparr>r_bytes = terminator, r_end = EOF\<rparr>)"
  by (subst readUntilDot_bare_iff, rule conjI, simp, rule exI [of _ "[]"], rule exI [of _ "''a''"])
    (simp add: plain_byte_def)

text \<open>
  C20. A well-formed message over the limit is refused with \<open>errMessageTooLarge\<close>, but only after
  all of it has been read, so the connection stays in step with the client; the buffer
  never holds more than the limit.
\<close>

theorem readUntilDot_too_large_iff:
  "readUntilDot r mx = (body, Some errMessageTooLarge, r') \<longleftrightarrow>
     (\<exists>ws. ws \<noteq> [] \<and> (\<forall>w \<in> set ws. wire_line w) \<and>
           r_bytes r = wire ws @ terminator @ r_bytes r' \<and> r_end r' = r_end r \<and>
           body = take (nat mx) (unwire ws) \<and> mx < int (length (wire ws) + 3))"
proof -
  have lines: "(\<forall>w \<in> set ws. wire_line w) \<and> r_bytes r = wire ws @ terminator @ r_bytes r' \<and> P
      \<longleftrightarrow> dot_lines (r_bytes r) = (ws, StopDot, r_bytes r') \<and> P" for ws P
    by (simp only: dot_lines_StopDot_iff conj_assoc)
  obtain ws stop rest where d: "dot_lines (r_bytes r) = (ws, stop, rest)"
    by (metis prod_cases3)
  show ?thesis
    unfolding lines using d readUntilDot_cases [of r mx]
    by (cases stop) (auto simp: dot_finish_def reader_eq_iff)
qed

lemma readUntilDot_too_large_iff_witness:
  "readUntilDot \<lparr>r_bytes = ''abc'' @ CRLF @ terminator @ ''RSET'', r_end = EOF\<rparr> 2
     = (''ab'', Some errMessageTooLarge, \<lparr>r_bytes = ''RSET'', r_end = EOF\<rparr>)"
  by (subst readUntilDot_too_large_iff, rule exI [of _ "[''abc'']"])
    (simp add: wire_line_def plain_byte_def unstuff_def numeral_eq_Suc)

text \<open>
  Dot-stuffing round trip: a message of any lines without CR and LF, sent the way RFC 5321
  section 4.5.2 says (a dot before each line that starts with one, CRLF after each line, a
  final lone dot) is received as those lines, each ended by LF, and what follows it is
  left in the reader.
\<close>

theorem readUntilDot_roundtrip:
  assumes "\<forall>l \<in> set ls. \<forall>c \<in> set l. plain_byte c"
    and "int (length (wire (map stuff ls)) + 3) \<le> mx"
  shows "readUntilDot \<lparr>r_bytes = wire (map stuff ls) @ terminator @ rest, r_end = e\<rparr> mx
    = (concat (map (\<lambda>l. l @ [LF]) ls), None, \<lparr>r_bytes = rest, r_end = e\<rparr>)"
proof -
  have us: "unstuff (stuff l) = l" for l
    by (simp add: unstuff_def stuff_def split: list.split)
  have wl: "wire_line (stuff l)" if "\<forall>c \<in> set l. plain_byte c" for l
    using that by (cases l) (simp_all add: wire_line_def stuff_def plain_byte_def)
  have "unwire (map stuff ls) = concat (map (\<lambda>l. l @ [LF]) ls)"
    by (simp add: unwire_def us comp_def)
  moreover have "\<forall>w \<in> set (map stuff ls). wire_line w" using assms(1) wl by simp
  ultimately show ?thesis
    using assms(2) readUntilDot_wire [of "map stuff ls" mx rest e] by simp
qed

lemma readUntilDot_roundtrip_witness:
  "readUntilDot \<lparr>r_bytes = wire (map stuff [''.a'', ''b'']) @ terminator @ ''QUIT'', r_end = EOF\<rparr> 50
     = (''.a'' @ [LF] @ ''b'' @ [LF], None, \<lparr>r_bytes = ''QUIT'', r_end = EOF\<rparr>)"
  using readUntilDot_roundtrip [of "[''.a'', ''b'']" 50 "''QUIT''" EOF]
  by (simp add: plain_byte_def stuff_def)

end
