(* ===== verification/Normalize.thy ===== *)
theory Normalize
  imports Envelope
begin

text \<open>
  \<open>src/internal/normalize/normalize.go\<close>: normalization of user names, domains and addresses, and
  the conversion of line endings. The Unicode tables and the packages \<open>precis\<close>, \<open>idna\<close> and
  \<open>norm\<close> are not part of the program; they are the fields of a record the definitions take.
  \<open>idna_ToASCII_partial\<close> is the string that \<open>idna.ToASCII\<close> returns together with an error.
\<close>

record textlib =
  tl_unicode :: unicode
  precis_username :: "string \<Rightarrow> (string, string) result"
  idna_ToUnicode :: "string \<Rightarrow> (string, string) result"
  idna_ToASCII :: "string \<Rightarrow> (string, string) result"
  idna_ToASCII_partial :: "string \<Rightarrow> string"
  norm_NFC :: "string \<Rightarrow> string"

text \<open>
  An instance of these parameters that is right on ASCII text, where lower case is all there
  is to normalization, and that leaves other text as it is.
\<close>

definition ascii_text :: textlib where
  "ascii_text =
     \<lparr>tl_unicode = \<lparr>uni_lower = id, uni_upper = id, uni_fold_eq = (=), uni_print = (\<lambda>r. False)\<rparr>,
      precis_username = (\<lambda>u. if u = [] then Err ''empty'' else Ok (map lower_byte u)),
      idna_ToUnicode = Ok, idna_ToASCII = Ok, idna_ToASCII_partial = id, norm_NFC = id\<rparr>"

section \<open>Users, domains and addresses\<close>

text \<open>These return a usable string even when they fail, as the code does.\<close>

definition User :: "textlib \<Rightarrow> string \<Rightarrow> string \<times> string option" where
  "User tx user = (case precis_username tx user of
      Inl e \<Rightarrow> (user, Some e)
    | Inr n \<Rightarrow> (n, None))"

definition Domain_norm :: "textlib \<Rightarrow> string \<Rightarrow> string \<times> string option" where
  "Domain_norm tx domain = (case idna_ToUnicode tx domain of
      Inl e \<Rightarrow> (domain, Some e)
    | Inr d \<Rightarrow> (ToLower (tl_unicode tx) (norm_NFC tx d), None))"

definition Addr :: "textlib \<Rightarrow> string \<Rightarrow> string \<times> string option" where
  "Addr tx addr =
     (let (user, domain) = Split_addr addr in
      case User tx user of
        (_, Some e) \<Rightarrow> (addr, Some e)
      | (user', None) \<Rightarrow>
          (case Domain_norm tx domain of
            (_, Some e) \<Rightarrow> (addr, Some e)
          | (domain', None) \<Rightarrow> (user' @ ''@'' @ domain', None)))"

definition DomainToUnicode :: "textlib \<Rightarrow> string \<Rightarrow> string \<times> string option" where
  "DomainToUnicode tx addr =
     (if addr = ''<>'' then (addr, None)
      else (let (user, domain) = Split_addr addr; (domain', err) = Domain_norm tx domain
            in (user @ ''@'' @ domain', err)))"

lemma DomainToUnicode_cases:
  assumes "addr \<noteq> ''<>''"
  shows "fst (DomainToUnicode tx addr) = UserOf addr @ ''@'' @ fst (Domain_norm tx (DomainOf addr))"
    and "snd (DomainToUnicode tx addr) = snd (Domain_norm tx (DomainOf addr))"
  using assms by (simp_all add: DomainToUnicode_def UserOf_def DomainOf_def split: prod.split)

section \<open>Line endings\<close>

text \<open>The loop over the lines: the last one is written as it is.\<close>

fun crlf_lines :: "string list \<Rightarrow> string" where
  "crlf_lines [] = []"
| "crlf_lines [line] = line"
| "crlf_lines (line # lines) =
     line @ (if HasSuffix line [CR] then [] else [CR]) @ [LF] @ crlf_lines lines"

definition ToCRLF :: "string \<Rightarrow> string" where
  "ToCRLF s = crlf_lines (Split s [LF])"

definition StringToCRLF :: "string \<Rightarrow> string" where
  "StringToCRLF s = crlf_lines (Split s [LF])"

text \<open>The reference: byte by byte, a CR is put before each LF that does not have one.\<close>

fun crlf_ref :: "bool \<Rightarrow> string \<Rightarrow> string" where
  "crlf_ref cr [] = []"
| "crlf_ref cr (c # cs) =
     (if c = LF \<and> \<not> cr then [CR, LF] else [c]) @ crlf_ref (c = CR) cs"

lemma crlf_ref_line:
  "LF \<notin> set l \<Longrightarrow>
     crlf_ref cr (l @ LF # s)
       = l @ (if (if l = [] then cr else last l = CR) then [] else [CR]) @ [LF] @ crlf_ref False s"
  by (induction l arbitrary: cr) auto

lemma crlf_ref_no_LF: "LF \<notin> set l \<Longrightarrow> crlf_ref cr l = l"
  by (induction l arbitrary: cr) auto

lemma HasSuffix_char: "HasSuffix l [c] \<longleftrightarrow> l \<noteq> [] \<and> last l = c"
  by (cases l rule: rev_cases) (auto simp: HasSuffix_def suffix_def)

lemma crlf_lines_Cons:
  "ls \<noteq> [] \<Longrightarrow> crlf_lines (l # ls) = l @ (if HasSuffix l [CR] then [] else [CR]) @ [LF] @ crlf_lines ls"
  by (cases ls) simp_all

lemma ToCRLF_ref: "ToCRLF s = crlf_ref False s"
proof (induction s rule: length_induct)
  case (1 s)
  show ?case
  proof (cases "LF \<in> set s")
    case False
    then show ?thesis by (simp add: ToCRLF_def Split_char_none crlf_ref_no_LF)
  next
    case True
    then obtain l t where s: "s = l @ LF # t" and l: "LF \<notin> set l" by (metis split_list_first)
    then have "ToCRLF t = crlf_ref False t" using 1 by simp
    with s l show ?thesis
      by (simp add: ToCRLF_def Split_char_append crlf_ref_line crlf_lines_Cons HasSuffix_char)
  qed
qed

lemma crlf_ref_idem: "crlf_ref cr (crlf_ref cr s) = crlf_ref cr s"
proof (induction s arbitrary: cr)
  case (Cons c s)
  show ?case using Cons by (cases "c = LF"; cases cr) simp_all
qed simp

text \<open>Every LF of the output follows a CR.\<close>

fun all_crlf :: "bool \<Rightarrow> string \<Rightarrow> bool" where
  "all_crlf cr [] \<longleftrightarrow> True"
| "all_crlf cr (c # cs) \<longleftrightarrow> (c = LF \<longrightarrow> cr) \<and> all_crlf (c = CR) cs"

lemma crlf_ref_all: "all_crlf cr (crlf_ref cr s)"
  by (induction s arbitrary: cr) auto

lemma crlf_ref_id_iff: "crlf_ref cr s = s \<longleftrightarrow> all_crlf cr s"
  by (induction s arbitrary: cr) auto

lemma crlf_ref_undo: "CR \<notin> set s \<Longrightarrow> filter (\<lambda>c. c \<noteq> CR) (crlf_ref cr s) = s"
  by (induction s arbitrary: cr) auto

lemma crlf_ref_append_line:
  "\<lbrakk>LF \<notin> set l; CR \<notin> set l\<rbrakk> \<Longrightarrow> crlf_ref False (l @ LF # s) = l @ CRLF @ crlf_ref False s"
  by (subst crlf_ref_line) (auto dest: last_in_set)

text \<open>
  The line-wise conversion to CRLF puts a CR before exactly those LFs that lack one: its output
  has a CR before every LF, an input that already has them all is unchanged, so that it is
  idempotent, and on an input without CR nothing but CRs was added.
\<close>

theorem ToCRLF_correct:
  "all_crlf False (ToCRLF s) \<and>
   (ToCRLF s = s \<longleftrightarrow> all_crlf False s) \<and>
   ToCRLF (ToCRLF s) = ToCRLF s \<and>
   (CR \<notin> set s \<longrightarrow> filter (\<lambda>c. c \<noteq> CR) (ToCRLF s) = s)"
  by (simp add: ToCRLF_ref crlf_ref_all crlf_ref_id_iff crlf_ref_idem crlf_ref_undo)

lemma ToCRLF_correct_witness:
  "ToCRLF (''a'' @ [LF] @ ''b'' @ CRLF) = ''a'' @ CRLF @ ''b'' @ CRLF \<and>
   filter (\<lambda>c. c \<noteq> CR) (ToCRLF (''a'' @ [LF])) = ''a'' @ [LF]"
  using ToCRLF_correct [of "''a'' @ [LF]"] by (simp add: ToCRLF_ref)

lemmas normalize_eval [go_eval] =
  User_def Domain_norm_def Addr_def DomainToUnicode_def ascii_text_def

end
