(* ===== verification/SmtpClient.thy ===== *)
theory SmtpClient
  imports Normalize
begin

text \<open>
  \<open>src/internal/smtp/smtp.go\<close>: the SMTP client, which decides if the addresses of a message need the
  SMTPUTF8 extension. The client of the standard library underneath is given by what the
  server answers to each line; the model keeps the lines it sent.
\<close>

text \<open>A \<open>textproto.Error\<close> with its code, or any other error.\<close>

datatype smtp_error = ProtocolError int string | NetError string

type_synonym reply = "(string, int \<times> string) result"

record Client =
  cl_exts :: "string list"
  cl_reply :: "string \<Rightarrow> reply"
  cl_sent :: "string list"

definition Extension :: "Client \<Rightarrow> string \<Rightarrow> bool" where
  "Extension c ext \<longleftrightarrow> ext \<in> set (cl_exts c)"

text \<open>\<open>ReadResponse\<close>: an expected code may be given by its first one or two digits.\<close>

definition code_expected :: "int \<Rightarrow> int \<Rightarrow> bool" where
  "code_expected expect code \<longleftrightarrow>
     (if 1 \<le> expect \<and> expect < 10 then code div 100 = expect
      else if 10 \<le> expect \<and> expect < 100 then code div 10 = expect
      else if 100 \<le> expect \<and> expect < 1000 then code = expect
      else True)"

definition read_response :: "int \<Rightarrow> reply \<Rightarrow> smtp_error option" where
  "read_response expect r =
     (case r of
        Inl e \<Rightarrow> Some (NetError e)
      | Inr (code, msg) \<Rightarrow> if code_expected expect code then None else Some (ProtocolError code msg))"

definition cmd :: "Client \<Rightarrow> int \<Rightarrow> string \<Rightarrow> smtp_error option \<times> Client" where
  "cmd c expect line = (read_response expect (cl_reply c line), c\<lparr>cl_sent := cl_sent c @ [line]\<rparr>)"

definition isASCII :: "string \<Rightarrow> bool" where
  "isASCII s = list_all (\<lambda>r. r \<le> 127) (runes s)"

definition prepareForSMTPUTF8 :: "textlib \<Rightarrow> Client \<Rightarrow> string \<Rightarrow> (smtp_error, string \<times> bool) result" where
  "prepareForSMTPUTF8 tx c addr =
     (if isASCII addr then Ok (addr, False)
      else if Extension c ''SMTPUTF8'' then Ok (addr, True)
      else
        (let (user, domain) = Split_addr addr in
         if \<not> isASCII user then
           Err (ProtocolError 599 ''local part is not ASCII but server does not support SMTPUTF8'')
         else case idna_ToASCII tx domain of
             Inl e \<Rightarrow> Err (ProtocolError 599 ''non-ASCII domain is not IDNA safe'')
           | Inr d \<Rightarrow> Ok (user @ ''@'' @ d, False)))"

definition mail_cmd :: "Client \<Rightarrow> string \<Rightarrow> bool \<Rightarrow> string" where
  "mail_cmd c from smtputf8Needed =
     ''MAIL FROM:<'' @ from @ ''>''
     @ (if Extension c ''8BITMIME'' then '' BODY=8BITMIME'' else [])
     @ (if smtputf8Needed then '' SMTPUTF8'' else [])"

definition MailAndRcpt :: "textlib \<Rightarrow> Client \<Rightarrow> string \<Rightarrow> string \<Rightarrow> smtp_error option \<times> Client" where
  "MailAndRcpt tx c from to =
     (case prepareForSMTPUTF8 tx c from of
        Inl e \<Rightarrow> (Some e, c)
      | Inr (from', fromNeeds) \<Rightarrow>
          (case prepareForSMTPUTF8 tx c to of
             Inl e \<Rightarrow> (Some e, c)
           | Inr (to', toNeeds) \<Rightarrow>
               (case cmd c 250 (mail_cmd c from' (fromNeeds \<or> toNeeds)) of
                  (Some e, c') \<Rightarrow> (Some e, c')
                | (None, c') \<Rightarrow> cmd c' 25 (''RCPT TO:<'' @ to' @ ''>''))))"

definition IsPermanent :: "smtp_error \<Rightarrow> bool" where
  "IsPermanent err =
     (case err of ProtocolError code _ \<Rightarrow> 500 \<le> code \<and> code < 600 | NetError _ \<Rightarrow> False)"

section \<open>Addresses and SMTPUTF8\<close>

lemma isASCII_iff: "isASCII s \<longleftrightarrow> is_ascii s"
proof
  assume "is_ascii s"
  then show "isASCII s" by (auto simp: isASCII_def runes_def chunks_ascii list_all_iff is_ascii_def is_ascii_byte_def)
next
  show "isASCII s \<Longrightarrow> is_ascii s"
  proof (induction s)
    case (Cons a s)
    have "fst (decode_rune (a # s)) < 128"
      using Cons.prems by (simp add: isASCII_def runes_def chunks_Cons)
    then have a: "byte a < 128" by (rule decode_rune_small)
    then have "isASCII s" using Cons.prems by (simp add: isASCII_def runes_def chunks_ascii_Cons)
    with Cons.IH a show ?case by (simp add: is_ascii_def is_ascii_byte_def)
  qed (simp add: is_ascii_def)
qed

lemma prepare_Ok:
  assumes "prepareForSMTPUTF8 tx c addr = Ok (a, needs)"
    "\<forall>d d'. idna_ToASCII tx d = Ok d' \<longrightarrow> is_ascii d'"
  shows "(needs \<longleftrightarrow> \<not> is_ascii a) \<and> (needs \<longrightarrow> Extension c ''SMTPUTF8'') \<and>
    (is_ascii addr \<or> Extension c ''SMTPUTF8'' \<longrightarrow> a = addr) \<and> UserOf a = UserOf addr"
proof (cases "is_ascii addr \<or> Extension c ''SMTPUTF8''")
  case True
  then show ?thesis using assms(1) by (auto simp: prepareForSMTPUTF8_def isASCII_iff split: if_splits)
next
  case False
  then obtain d where d: "is_ascii (UserOf addr)" "idna_ToASCII tx (DomainOf addr) = Ok d"
    "a = UserOf addr @ CHR ''@'' # d" "\<not> needs"
    using assms(1) by (auto simp: prepareForSMTPUTF8_def isASCII_iff UserOf_def DomainOf_def
        split: if_splits sum.splits prod.splits)
  then have "is_ascii a" using assms(2) by (auto simp: is_ascii_def is_ascii_byte_def)
  then show ?thesis using False d by (simp add: UserOf_at UserOf_no_at)
qed

lemma prepare_Err:
  "prepareForSMTPUTF8 tx c addr = Err e \<Longrightarrow> IsPermanent e \<and> \<not> is_ascii addr \<and> \<not> Extension c ''SMTPUTF8''"
  by (auto simp: prepareForSMTPUTF8_def isASCII_iff IsPermanent_def split: if_splits sum.splits prod.splits)

lemma prepare_user:
  "\<not> is_ascii (UserOf addr) \<Longrightarrow> \<not> Extension c ''SMTPUTF8'' \<Longrightarrow> \<not> is_ok (prepareForSMTPUTF8 tx c addr)"
proof -
  assume a: "\<not> is_ascii (UserOf addr)" "\<not> Extension c ''SMTPUTF8''"
  have "\<not> is_ascii addr"
    using a(1) by (cases rule: Split_addr_cases [of addr]) (auto simp: UserOf_def)
  with a show ?thesis
    by (cases "Split_addr addr") (simp add: prepareForSMTPUTF8_def isASCII_iff UserOf_def)
qed

text \<open>
  The sender and the recipient are sent in one MAIL and then one RCPT line. To a server without
  SMTPUTF8 every byte sent is ASCII, the local parts are what they were, and a local part that is
  not ASCII is a permanent error before anything is sent. To a server with it the addresses are
  sent as they are, and the parameter is given exactly when one of them is not ASCII.
\<close>

theorem MailAndRcpt_utf8:
  assumes idna: "\<forall>d d'. idna_ToASCII tx d = Ok d' \<longrightarrow> is_ascii d'"
    and run: "MailAndRcpt tx c from to = (err, c')"
  defines "utf8 \<equiv> Extension c ''SMTPUTF8''"
  shows "if cl_sent c' = cl_sent c
    then (\<exists>e. err = Some e \<and> IsPermanent e) \<and> \<not> utf8 \<and> \<not> (is_ascii from \<and> is_ascii to)
    else (utf8 \<or> is_ascii (UserOf from) \<and> is_ascii (UserOf to)) \<and>
      (\<exists>f t. UserOf f = UserOf from \<and> UserOf t = UserOf to \<and>
         (if utf8 then f = from \<and> t = to else is_ascii f \<and> is_ascii t) \<and>
         (let mail = mail_cmd c f (\<not> (is_ascii f \<and> is_ascii t)); taken = read_response 250 (cl_reply c mail) = None in
          cl_sent c' = cl_sent c @ mail # (if taken then [''RCPT TO:<'' @ t @ ''>''] else []) \<and> (err = None \<longrightarrow> taken)))"
proof (cases "prepareForSMTPUTF8 tx c from")
  case (Inl e)
  then show ?thesis using run prepare_Err [OF Inl] by (auto simp: MailAndRcpt_def utf8_def)
next
  case f: (Inr fn)
  obtain f nf where fn: "fn = (f, nf)" by fastforce
  note pf = prepare_Ok [OF f [unfolded fn] idna]
  show ?thesis
  proof (cases "prepareForSMTPUTF8 tx c to")
    case (Inl e)
    then show ?thesis using run prepare_Err [OF Inl] f fn by (auto simp: MailAndRcpt_def utf8_def)
  next
    case t: (Inr tn)
    obtain t nt where tn: "tn = (t, nt)" by fastforce
    note pt = prepare_Ok [OF t [unfolded tn] idna]
    let ?line = "mail_cmd c f (\<not> (is_ascii f \<and> is_ascii t))"
    have "(nf \<or> nt) = (\<not> (is_ascii f \<and> is_ascii t))" using pf pt by blast
    then have line: "mail_cmd c f (nf \<or> nt) = ?line" by (rule arg_cong)
    have sent: "cl_sent c' = cl_sent c @ ?line #
        (if read_response 250 (cl_reply c ?line) = None then [''RCPT TO:<'' @ t @ ''>''] else [])"
      "err = None \<longrightarrow> read_response 250 (cl_reply c ?line) = None"
      using run f fn t tn by (auto simp: MailAndRcpt_def line cmd_def split: option.splits)
    have users: "utf8 \<or> is_ascii (UserOf from) \<and> is_ascii (UserOf to)"
      using prepare_user [of "from" c tx] prepare_user [of to c tx] f t by (auto simp: utf8_def)
    have "utf8 \<longrightarrow> f = from \<and> t = to" "\<not> utf8 \<longrightarrow> is_ascii f \<and> is_ascii t"
      unfolding utf8_def using pf pt by blast+
    then have addrs: "if utf8 then f = from \<and> t = to else is_ascii f \<and> is_ascii t"
      by (cases utf8) simp_all
    have ne: "cl_sent c' \<noteq> cl_sent c" using sent(1) by simp
    show ?thesis
      unfolding if_not_P [OF ne] Let_def
      using users addrs sent pf pt by blast
  qed
qed

lemma MailAndRcpt_utf8_witness:
  "let c = \<lparr>cl_exts = [''8BITMIME''], cl_reply = (\<lambda>l. Ok (250, ''ok'')), cl_sent = []\<rparr>;
       tx = ascii_text\<lparr>idna_ToASCII := (\<lambda>d. Ok ''xn--a.b'')\<rparr>;
       r = MailAndRcpt tx c ''a@b'' (''u@'' @ [CHR 0xC3, CHR 0xB1] @ ''.b'')
   in cl_sent (snd r) = [''MAIL FROM:<a@b> BODY=8BITMIME'', ''RCPT TO:<u@xn--a.b>'']"
proof -
  let ?c = "\<lparr>cl_exts = [''8BITMIME''], cl_reply = (\<lambda>l. Ok (250, ''ok'')), cl_sent = []\<rparr> :: Client"
  let ?tx = "ascii_text\<lparr>idna_ToASCII := (\<lambda>d. Ok ''xn--a.b'')\<rparr>"
  let ?to = "''u@'' @ [CHR 0xC3, CHR 0xB1] @ ''.b''"
  let ?r = "MailAndRcpt ?tx ?c ''a@b'' ?to"
  have idna: "\<forall>d d'. idna_ToASCII ?tx d = Ok d' \<longrightarrow> is_ascii d'" by (simp add: is_ascii_def is_ascii_byte_def)
  have ext: "\<not> Extension ?c ''SMTPUTF8''" by (simp add: Extension_def)
  have r: "?r = (None, ?c\<lparr>cl_sent := [''MAIL FROM:<a@b> BODY=8BITMIME'', ''RCPT TO:<u@xn--a.b>'']\<rparr>)"
    by (simp add: MailAndRcpt_def prepareForSMTPUTF8_def isASCII_iff is_ascii_def is_ascii_byte_def ext Split_addr_def
        SplitN2_def cmd_def mail_cmd_def Extension_def read_response_def code_expected_def)
  show ?thesis using MailAndRcpt_utf8 [OF idna r] r by (simp add: Let_def)
qed

end
