(* ===== verification/Safeio.thy ===== *)
theory Safeio
  imports GoStrings "HOL-Library.AList"
begin

text \<open>
  \<open>src/internal/safeio/safeio.go\<close>: writing a file atomically through a temporary file and a
  rename. The file system is an association list from paths to files. The model returns
  every state the file system goes through, so that the lemmas speak of a crash at any
  point, and takes the outcome of every system call from a record.
\<close>

record os_file =
  f_data :: string
  f_perm :: nat
  f_owner :: "int \<times> int"
  f_mtime :: int

type_synonym file_system = "(string \<times> os_file) list"

text \<open>A \<open>FileOp\<close> gets the name of the file; it returns its error, if any, and the new state.\<close>

type_synonym file_op = "string \<Rightarrow> file_system \<Rightarrow> string option \<times> file_system"

text \<open>
  The outcomes of the system calls of one \<open>WriteFile\<close>: what \<open>os.CreateTemp\<close> added to the name it
  was given, the errors of the others, how much was written before a failed write, whether \<open>os.Remove\<close>
  worked, the owner of new files and the time.
\<close>

record write_env =
  we_create :: "(string, string) result"
  we_chmod :: "string option"
  we_chown :: "string option"
  we_write :: "(nat \<times> string) option"
  we_close :: "string option"
  we_rename :: "string option"
  we_remove :: bool
  we_owner :: "int \<times> int"
  we_now :: int

definition getOwner :: "file_system \<Rightarrow> string \<Rightarrow> int \<times> int" where
  "getOwner fs fname = (case map_of fs fname of None \<Rightarrow> (-1, -1) | Some f \<Rightarrow> f_owner f)"

definition os_Remove :: "write_env \<Rightarrow> string \<Rightarrow> file_system \<Rightarrow> file_system" where
  "os_Remove env name fs = (if we_remove env then AList.delete name fs else fs)"

definition os_Rename :: "string \<Rightarrow> string \<Rightarrow> file_system \<Rightarrow> file_system" where
  "os_Rename old new fs =
     (case map_of fs old of
        None \<Rightarrow> fs
      | Some f \<Rightarrow> AList.update new f (AList.delete old fs))"

text \<open>The loop over the operations on the finished temporary file.\<close>

fun run_ops ::
  "write_env \<Rightarrow> string \<Rightarrow> file_op list \<Rightarrow> file_system \<Rightarrow> string option \<times> file_system list" where
  "run_ops env tmp [] fs = (None, [fs])"
| "run_ops env tmp (op # ops) fs =
     (case op tmp fs of
        (Some e, fs') \<Rightarrow> (Some e, [fs, fs', os_Remove env tmp fs'])
      | (None, fs') \<Rightarrow> (let (e, tr) = run_ops env tmp ops fs' in (e, fs # tr)))"

text \<open>
  \<open>WriteFile\<close>, as the error it returns and the states of the file system, the last of them the
  final one. The blocks that close the file, remove it and return are \<open>write_fail\<close>.
\<close>

definition write_fail ::
  "write_env \<Rightarrow> string \<Rightarrow> string \<Rightarrow> file_system \<Rightarrow> string option \<times> file_system list" where
  "write_fail env tmp e fs = (Some e, [fs, os_Remove env tmp fs])"

definition write_finish ::
  "write_env \<Rightarrow> string \<Rightarrow> string \<Rightarrow> file_op list \<Rightarrow> file_system \<Rightarrow> string option \<times> file_system list" where
  "write_finish env tmp filename ops fs =
     (case run_ops env tmp ops fs of
        (Some e, tr) \<Rightarrow> (Some e, tr)
      | (None, tr) \<Rightarrow>
          (case we_rename env of
             Some e \<Rightarrow> (Some e, tr)
           | None \<Rightarrow> (None, tr @ [os_Rename tmp filename (last tr)])))"

definition write_body ::
  "write_env \<Rightarrow> string \<Rightarrow> string \<Rightarrow> string \<Rightarrow> file_op list \<Rightarrow> os_file \<Rightarrow> file_system
     \<Rightarrow> string option \<times> file_system list" where
  "write_body env tmp filename data ops f fs =
     (case we_write env of
        Some (n, e) \<Rightarrow> write_fail env tmp e (AList.update tmp (f\<lparr>f_data := take n data\<rparr>) fs)
      | None \<Rightarrow>
          (let fs' = AList.update tmp (f\<lparr>f_data := data\<rparr>) fs in
           case we_close env of
             Some e \<Rightarrow> (Some e, [fs', os_Remove env tmp fs'])
           | None \<Rightarrow> write_finish env tmp filename ops fs'))"

text \<open>From the new temporary file on: its mode and its owner, then its contents.\<close>

definition write_tmp ::
  "write_env \<Rightarrow> string \<Rightarrow> string \<Rightarrow> string \<Rightarrow> nat \<Rightarrow> file_op list \<Rightarrow> os_file \<Rightarrow> file_system
     \<Rightarrow> string option \<times> file_system list" where
  "write_tmp env tmp filename data perm ops f fs =
     (case we_chmod env of
        Some e \<Rightarrow> write_fail env tmp e fs
      | None \<Rightarrow>
          (let f1 = f\<lparr>f_perm := perm\<rparr>;
               fs1 = AList.update tmp f1 fs;
               owner = getOwner fs1 filename
           in if 0 \<le> fst owner then
                (case we_chown env of
                   Some e \<Rightarrow> write_fail env tmp e fs1
                 | None \<Rightarrow>
                     (let f2 = f1\<lparr>f_owner := owner\<rparr>
                      in write_body env tmp filename data ops f2 (AList.update tmp f2 fs1)))
              else write_body env tmp filename data ops f1 fs1))"

text \<open>
  The temporary file is in the directory of the target; its name starts with a dot, and ends
  with what \<open>os.CreateTemp\<close> chose.
\<close>

definition path_dir :: "string \<Rightarrow> string" where
  "path_dir p = rev (dropWhile (\<lambda>c. c \<noteq> CHR ''/'') (rev p))"

definition path_base :: "string \<Rightarrow> string" where
  "path_base p = rev (takeWhile (\<lambda>c. c \<noteq> CHR ''/'') (rev p))"

definition tmp_name :: "string \<Rightarrow> string \<Rightarrow> string" where
  "tmp_name filename rnd = path_dir filename @ ''.'' @ path_base filename @ rnd"

definition WriteFile ::
  "write_env \<Rightarrow> file_system \<Rightarrow> string \<Rightarrow> string \<Rightarrow> nat \<Rightarrow> file_op list
     \<Rightarrow> string option \<times> file_system list" where
  "WriteFile env fs filename data perm ops =
     (case we_create env of
        Inl e \<Rightarrow> (Some e, [fs])
      | Inr rnd \<Rightarrow>
          (let tmp = tmp_name filename rnd;
               f = \<lparr>f_data = [], f_perm = 384, f_owner = we_owner env, f_mtime = we_now env\<rparr>;
               (err, tr) = write_tmp env tmp filename data perm ops f (AList.update tmp f fs)
           in (err, fs # tr)))"

text \<open>\<open>FsyncFileOp\<close>: opening, syncing and closing may fail; nothing in the file changes.\<close>

definition FsyncFileOp :: "string option \<Rightarrow> string option \<Rightarrow> string option \<Rightarrow> file_op" where
  "FsyncFileOp open_err sync_err close_err fname fs =
     ((case open_err of
         Some e \<Rightarrow> Some e
       | None \<Rightarrow> (case sync_err of Some e \<Rightarrow> Some e | None \<Rightarrow> close_err)), fs)"

section \<open>Atomicity\<close>

text \<open>An operation that touches only the file it is given, and leaves its data alone.\<close>

definition local_op :: "file_op \<Rightarrow> bool" where
  "local_op op \<longleftrightarrow>
     (\<forall>name fs e fs'. op name fs = (e, fs') \<longrightarrow>
        (\<forall>p. p \<noteq> name \<longrightarrow> map_of fs' p = map_of fs p) \<and>
        map_option f_data (map_of fs' name) = map_option f_data (map_of fs name))"

text \<open>What a state may look like before the rename: only the temporary file differs.\<close>

definition only_tmp :: "string \<Rightarrow> file_system \<Rightarrow> file_system \<Rightarrow> bool" where
  "only_tmp tmp fs s \<longleftrightarrow> (\<forall>p. p \<noteq> tmp \<longrightarrow> map_of s p = map_of fs p)"

lemma only_tmp_simps [simp]:
  "only_tmp tmp fs fs"
  "only_tmp tmp fs (AList.update tmp f s) \<longleftrightarrow> only_tmp tmp fs s"
  "only_tmp tmp fs (AList.delete tmp s) \<longleftrightarrow> only_tmp tmp fs s"
  "only_tmp tmp fs (os_Remove env tmp s) \<longleftrightarrow> only_tmp tmp fs s"
  by (auto simp: only_tmp_def update_conv' delete_conv' os_Remove_def)

lemma run_ops_props:
  assumes "\<forall>op \<in> set ops. local_op op" "only_tmp tmp fs s"
    "map_option f_data (map_of s tmp) = Some data" "run_ops env tmp ops s = (e, tr)"
  shows "tr \<noteq> [] \<and> (\<forall>s' \<in> set tr. only_tmp tmp fs s') \<and>
    (e = None \<longrightarrow> map_option f_data (map_of (last tr) tmp) = Some data)"
  using assms
proof (induction ops arbitrary: s tr)
  case (Cons op ops)
  obtain e1 s1 where op: "op tmp s = (e1, s1)" by fastforce
  have "local_op op" using Cons.prems(1) by simp
  with op have s1: "only_tmp tmp fs s1" "map_option f_data (map_of s1 tmp) = Some data"
    using Cons.prems(2,3) unfolding local_op_def only_tmp_def by (metis, metis)
  show ?case
  proof (cases e1)
    case None
    obtain tr2 where r: "run_ops env tmp ops s1 = (e, tr2)" "tr = s # tr2"
      using Cons.prems(4) op None by (auto split: prod.splits)
    with Cons.IH [OF _ s1 r(1)] Cons.prems(1,2) show ?thesis by auto
  qed (use Cons.prems op s1(1) in auto)
qed auto

text \<open>The shape of a run: the temporary file is all that changes, up to a final rename.\<close>

definition atomic_run ::
  "string \<Rightarrow> string \<Rightarrow> string \<Rightarrow> file_system \<Rightarrow> string option \<times> file_system list \<Rightarrow> bool" where
  "atomic_run tmp filename data fs r \<longleftrightarrow>
     (case r of (err, tr) \<Rightarrow>
        tr \<noteq> [] \<and> (\<forall>s \<in> set (butlast tr). only_tmp tmp fs s) \<and>
        (if err = None then
           (\<exists>f. map_of (last tr) filename = Some f \<and> f_data f = data) \<and> map_of (last tr) tmp = None \<and>
           (\<forall>p. p \<noteq> tmp \<and> p \<noteq> filename \<longrightarrow> map_of (last tr) p = map_of fs p)
         else only_tmp tmp fs (last tr)))"

lemma atomic_run_fail: "only_tmp tmp fs s \<Longrightarrow> atomic_run tmp filename data fs (write_fail env tmp e s)"
  by (simp add: atomic_run_def write_fail_def)

lemma atomic_run_finish:
  assumes "\<forall>op \<in> set ops. local_op op" "only_tmp tmp fs s" "tmp \<noteq> filename"
    "map_option f_data (map_of s tmp) = Some data"
  shows "atomic_run tmp filename data fs (write_finish env tmp filename ops s)"
proof -
  obtain e tr where r: "run_ops env tmp ops s = (e, tr)" by fastforce
  note p = run_ops_props [OF assms(1,2,4) r]
  show ?thesis
  proof (cases "e = None \<and> we_rename env = None")
    case True
    with p obtain f where f: "map_of (last tr) tmp = Some f" "f_data f = data" by auto
    have "only_tmp tmp fs (last tr)" using p by simp
    with f True p r assms(3) show ?thesis
      by (auto simp: atomic_run_def write_finish_def os_Rename_def update_conv' delete_conv' only_tmp_def)
  next
    case False
    then have "\<exists>e'. write_finish env tmp filename ops s = (Some e', tr)"
      using r by (auto simp: write_finish_def split: option.splits)
    with p show ?thesis by (auto simp: atomic_run_def dest: in_set_butlastD)
  qed
qed

lemma atomic_run_body:
  assumes "\<forall>op \<in> set ops. local_op op" "only_tmp tmp fs s" "tmp \<noteq> filename"
  shows "atomic_run tmp filename data fs (write_body env tmp filename data ops f s)"
proof -
  let ?s = "AList.update tmp (f\<lparr>f_data := data\<rparr>) s"
  have "atomic_run tmp filename data fs (write_finish env tmp filename ops ?s)"
    using assms by (intro atomic_run_finish) (simp_all add: update_conv')
  moreover have "atomic_run tmp filename data fs (Some e, [?s, os_Remove env tmp ?s])" for e
    using assms(2) by (simp add: atomic_run_def)
  ultimately show ?thesis
    using assms(2) by (simp add: write_body_def atomic_run_fail Let_def split: option.split prod.split)
qed

lemma atomic_run_Cons:
  "\<lbrakk>only_tmp tmp fs s; atomic_run tmp filename data fs (err, tr)\<rbrakk>
     \<Longrightarrow> atomic_run tmp filename data fs (err, s # tr)"
  by (auto simp: atomic_run_def)

lemma atomic_run_tmp:
  assumes "\<forall>op \<in> set ops. local_op op" "only_tmp tmp fs s" "tmp \<noteq> filename"
  shows "atomic_run tmp filename data fs (write_tmp env tmp filename data perm ops f s)"
  using assms
  by (simp add: write_tmp_def Let_def atomic_run_body atomic_run_fail split: option.split)

lemma path_dir_base: "path_dir p @ path_base p = p"
  unfolding path_dir_def path_base_def
  by (metis rev_append rev_rev_ident takeWhile_dropWhile_id)

lemma tmp_name_neq: "tmp_name filename rnd \<noteq> filename"
proof
  assume "tmp_name filename rnd = filename"
  then have "length (tmp_name filename rnd) = length (path_dir filename @ path_base filename)"
    by (simp add: path_dir_base)
  then show False by (simp add: tmp_name_def)
qed

lemma WriteFile_run:
  assumes "we_create env = Ok rnd" "\<forall>op \<in> set ops. local_op op"
  shows "atomic_run (tmp_name filename rnd) filename data fs (WriteFile env fs filename data perm ops)"
proof -
  let ?f = "\<lparr>f_data = [], f_perm = 384, f_owner = we_owner env, f_mtime = we_now env\<rparr>"
  let ?tmp = "tmp_name filename rnd"
  obtain err tr where "write_tmp env ?tmp filename data perm ops ?f (AList.update ?tmp ?f fs) = (err, tr)"
    by fastforce
  with atomic_run_tmp [of ops ?tmp fs "AList.update ?tmp ?f fs" filename data env perm ?f] assms
  show ?thesis by (simp add: WriteFile_def atomic_run_Cons tmp_name_neq)
qed

text \<open>What is left after a write, for the clients of this theory.\<close>

lemma WriteFile_last:
  assumes "\<forall>op \<in> set ops. local_op op" "WriteFile env fs filename data perm ops = (err, tr)"
  shows "err = None \<Longrightarrow> \<exists>f. map_of (last tr) filename = Some f \<and> f_data f = data"
    and "err \<noteq> None \<Longrightarrow> map_of (last tr) filename = map_of fs filename"
    and "\<lbrakk>p \<noteq> filename; \<And>rnd. p \<noteq> tmp_name filename rnd\<rbrakk> \<Longrightarrow> map_of (last tr) p = map_of fs p"
proof -
  have "(err = None \<longrightarrow> (\<exists>f. map_of (last tr) filename = Some f \<and> f_data f = data)) \<and>
    (err \<noteq> None \<longrightarrow> map_of (last tr) filename = map_of fs filename) \<and>
    (p \<noteq> filename \<and> (\<forall>rnd. p \<noteq> tmp_name filename rnd) \<longrightarrow> map_of (last tr) p = map_of fs p)"
  proof (cases "we_create env")
    case (Inr rnd)
    have r: "atomic_run (tmp_name filename rnd) filename data fs (err, tr)"
      using WriteFile_run [OF Inr assms(1), of filename data fs perm] assms(2) by simp
    have ne: "filename \<noteq> tmp_name filename rnd" using tmp_name_neq by metis
    show ?thesis
      using r ne by (cases err) (simp_all add: atomic_run_def only_tmp_def)
  qed (use assms(2) in \<open>auto simp: WriteFile_def\<close>)
  then show "err = None \<Longrightarrow> \<exists>f. map_of (last tr) filename = Some f \<and> f_data f = data"
    and "err \<noteq> None \<Longrightarrow> map_of (last tr) filename = map_of fs filename"
    and "\<lbrakk>p \<noteq> filename; \<And>rnd. p \<noteq> tmp_name filename rnd\<rbrakk> \<Longrightarrow> map_of (last tr) p = map_of fs p"
    by blast+
qed

text \<open>
  C8. Writing a file is atomic at every crash point: in each state the file system goes through,
  the target is either exactly as before or has all of the new data, and no other file has
  changed except the temporary one. On success the data is there and the temporary file is
  gone; on any error the target is untouched.
\<close>

theorem WriteFile_atomic:
  assumes "we_create env = Ok rnd" "\<forall>op \<in> set ops. local_op op"
    and "WriteFile env fs filename data perm ops = (err, tr)"
  defines "tmp \<equiv> tmp_name filename rnd"
  shows "(\<forall>s \<in> set tr.
            (map_of s filename = map_of fs filename \<or>
             (\<exists>f. map_of s filename = Some f \<and> f_data f = data)) \<and>
            (\<forall>p. p \<noteq> tmp \<and> p \<noteq> filename \<longrightarrow> map_of s p = map_of fs p)) \<and>
         (err = None \<longrightarrow> (\<exists>f. map_of (last tr) filename = Some f \<and> f_data f = data) \<and>
                         map_of (last tr) tmp = None) \<and>
         (err \<noteq> None \<longrightarrow> map_of (last tr) filename = map_of fs filename)"
proof -
  have r: "atomic_run tmp filename data fs (err, tr)"
    using WriteFile_run [OF assms(1-2), of filename data fs perm] assms(3) by (simp add: tmp_def)
  have ne: "tmp \<noteq> filename" by (simp add: tmp_def tmp_name_neq)
  have "tr \<noteq> []" using r by (simp add: atomic_run_def)
  then have "set tr = insert (last tr) (set (butlast tr))"
    by (metis append_butlast_last_id list.set(1) list.set(2) set_append Un_insert_right sup_bot.right_neutral)
  then show ?thesis
    using r ne by (auto simp: atomic_run_def only_tmp_def split: if_splits)
qed

lemma WriteFile_atomic_witness:
  "let env = \<lparr>we_create = Ok ''1'', we_chmod = None, we_chown = None, we_write = Some (1, ''full''),
              we_close = None, we_rename = None, we_remove = True, we_owner = (0, 0), we_now = 0\<rparr>;
       old = \<lparr>f_data = ''old'', f_perm = 0, f_owner = (0, 0), f_mtime = 0\<rparr>;
       r = WriteFile env [(''d/f'', old)] ''d/f'' ''new'' 0 [FsyncFileOp None None None]
   in fst r = Some ''full'' \<and> map_of (last (snd r)) ''d/f'' = Some old"
  unfolding Let_def
proof
  let ?env = "\<lparr>we_create = Ok ''1'', we_chmod = None, we_chown = None, we_write = Some (1, ''full''),
              we_close = None, we_rename = None, we_remove = True, we_owner = (0, 0), we_now = 0\<rparr>"
  let ?old = "\<lparr>f_data = ''old'', f_perm = 0, f_owner = (0, 0), f_mtime = 0\<rparr>"
  let ?r = "WriteFile ?env [(''d/f'', ?old)] ''d/f'' ''new'' 0 [FsyncFileOp None None None]"
  have op: "\<forall>op \<in> set [FsyncFileOp None None None]. local_op op"
    by (simp add: local_op_def FsyncFileOp_def)
  show err: "fst ?r = Some ''full''"
    by (simp add: WriteFile_def write_tmp_def write_fail_def write_body_def getOwner_def tmp_name_def
        path_dir_def path_base_def Let_def)
  show "map_of (last (snd ?r)) ''d/f'' = Some ?old"
    using WriteFile_atomic [of ?env "''1''" "[FsyncFileOp None None None]"
        "[(''d/f'', ?old)]" "''d/f''" "''new''" 0 "fst ?r" "snd ?r"] op err by simp
qed

end
