(* ===== verification/Protoio.thy ===== *)
theory Protoio
  imports Safeio "HOL-Library.List_Lexorder" "HOL-Library.Char_ord"
begin

text \<open>
  \<open>src/internal/protoio/protoio.go\<close>: messages written to and read from files, and the store that
  keeps one message per file of a directory, named after its identifier. The encoding of
  messages (the \<open>prototext\<close> package) is a parameter.
\<close>

section \<open>URL query escaping\<close>

text \<open>\<open>url.QueryEscape\<close> and \<open>url.QueryUnescape\<close> of the Go library.\<close>

definition hex_digit :: "nat \<Rightarrow> char" where
  "hex_digit n = (if n < 10 then char_of (48 + n) else char_of (55 + n))"

definition unreserved :: "char \<Rightarrow> bool" where
  "unreserved c \<longleftrightarrow> in_range (CHR ''a'') (CHR ''z'') c \<or> in_range (CHR ''A'') (CHR ''Z'') c
     \<or> in_range (CHR ''0'') (CHR ''9'') c \<or> c \<in> set ''-_.~''"

definition escape_byte :: "char \<Rightarrow> string" where
  "escape_byte c =
     (if unreserved c then [c]
      else if c = SP then ''+''
      else [CHR ''%'', hex_digit (byte c div 16), hex_digit (byte c mod 16)])"

definition QueryEscape :: "string \<Rightarrow> string" where
  "QueryEscape s = concat (map escape_byte s)"

definition unhex :: "char \<Rightarrow> nat option" where
  "unhex c =
     (if in_range (CHR ''0'') (CHR ''9'') c then Some (byte c - 48)
      else if in_range (CHR ''a'') (CHR ''f'') c then Some (byte c - 87)
      else if in_range (CHR ''A'') (CHR ''F'') c then Some (byte c - 55)
      else None)"

fun QueryUnescape :: "string \<Rightarrow> (string, string) result" where
  "QueryUnescape [] = Ok []"
| "QueryUnescape (c # s) =
     (if c = CHR ''%'' then
        (case s of
           a # b # rest \<Rightarrow>
             (case (unhex a, unhex b) of
                (Some x, Some y) \<Rightarrow> and_then (QueryUnescape rest) (\<lambda>r. Ok (char_of (16 * x + y) # r))
              | _ \<Rightarrow> Err ''invalid URL escape'')
         | _ \<Rightarrow> Err ''invalid URL escape'')
      else and_then (QueryUnescape s) (\<lambda>r. Ok ((if c = CHR ''+'' then SP else c) # r)))"

section \<open>Messages in files\<close>

record 'm codec =
  marshal :: "'m \<Rightarrow> (string, string) result"
  unmarshal :: "string \<Rightarrow> (string, 'm) result"

text \<open>What the encoding promises: reading back what was written.\<close>

definition codec_ok :: "'m codec \<Rightarrow> bool" where
  "codec_ok cd \<longleftrightarrow> (\<forall>m s. marshal cd m = Ok s \<longrightarrow> unmarshal cd s = Ok m)"

datatype read_error = IsNotExist | ReadErr string

definition ReadTextMessage :: "'m codec \<Rightarrow> file_system \<Rightarrow> string \<Rightarrow> (read_error, 'm) result" where
  "ReadTextMessage cd fs fname =
     (case map_of fs fname of
        None \<Rightarrow> Err IsNotExist
      | Some f \<Rightarrow>
          (case unmarshal cd (f_data f) of Inl e \<Rightarrow> Err (ReadErr e) | Inr m \<Rightarrow> Ok m))"

definition WriteTextMessage ::
  "'m codec \<Rightarrow> write_env \<Rightarrow> file_system \<Rightarrow> string \<Rightarrow> 'm \<Rightarrow> nat \<Rightarrow> file_op list
     \<Rightarrow> string option \<times> file_system list" where
  "WriteTextMessage cd env fs fname m perm ops =
     (case marshal cd m of
        Inl e \<Rightarrow> (Some e, [fs])
      | Inr out \<Rightarrow> WriteFile env fs fname out perm ops)"

text \<open>The binary format goes through another codec, and the same files.\<close>

definition ReadMessage :: "'m codec \<Rightarrow> file_system \<Rightarrow> string \<Rightarrow> (read_error, 'm) result" where
  "ReadMessage binary fs fname =
     (case map_of fs fname of
        None \<Rightarrow> Err IsNotExist
      | Some f \<Rightarrow> (case unmarshal binary (f_data f) of Inl e \<Rightarrow> Err (ReadErr e) | Inr m \<Rightarrow> Ok m))"

definition WriteMessage ::
  "'m codec \<Rightarrow> write_env \<Rightarrow> file_system \<Rightarrow> string \<Rightarrow> 'm \<Rightarrow> nat \<Rightarrow> file_op list \<Rightarrow> string option \<times> file_system list" where
  "WriteMessage binary env fs fname m perm ops =
     (case marshal binary m of
        Inl e \<Rightarrow> (Some e, [fs])
      | Inr out \<Rightarrow> WriteFile env fs fname out perm ops)"

lemma WriteMessage_ReadMessage:
  assumes "codec_ok binary" "\<forall>op \<in> set ops. local_op op" "WriteMessage binary env fs fname m perm ops = (None, tr)"
  shows "ReadMessage binary (last tr) fname = Ok m"
proof -
  obtain out where out: "marshal binary m = Ok out" "WriteFile env fs fname out perm ops = (None, tr)"
    using assms(3) by (auto simp: WriteMessage_def split: sum.splits)
  then obtain f where "map_of (last tr) fname = Some f" "f_data f = out" using WriteFile_last(1) [OF assms(2)] by blast
  then show ?thesis using out(1) assms(1) by (simp add: ReadMessage_def codec_ok_def)
qed

section \<open>Stores\<close>

definition storeIDPrefix :: string where
  "storeIDPrefix = ''s:''"

definition idToFname :: "string \<Rightarrow> string \<Rightarrow> string" where
  "idToFname dir key = dir @ ''/'' @ storeIDPrefix @ QueryEscape key"

definition store_Put ::
  "'m codec \<Rightarrow> string \<Rightarrow> write_env \<Rightarrow> file_system \<Rightarrow> string \<Rightarrow> 'm \<Rightarrow> string option \<times> file_system list" where
  "store_Put cd dir env fs key m = WriteTextMessage cd env fs (idToFname dir key) m 432 []"

definition store_Get ::
  "'m codec \<Rightarrow> string \<Rightarrow> file_system \<Rightarrow> string \<Rightarrow> (string, 'm option) result" where
  "store_Get cd dir fs key =
     (case ReadTextMessage cd fs (idToFname dir key) of
        Inl IsNotExist \<Rightarrow> Ok None
      | Inl (ReadErr e) \<Rightarrow> Err e
      | Inr m \<Rightarrow> Ok (Some m))"

text \<open>\<open>os.ReadDir\<close>: the names of the files right below the directory, sorted.\<close>

definition ReadDir :: "file_system \<Rightarrow> string \<Rightarrow> string list" where
  "ReadDir fs dir =
     (let pre = dir @ ''/''
      in sort (remdups (filter (\<lambda>n. CHR ''/'' \<notin> set n)
           (map (drop (length pre)) (filter (prefix pre) (map fst fs))))))"

text \<open>The loop over the entries, which skips what is not a message of the store.\<close>

definition entry_id :: "string \<Rightarrow> string option" where
  "entry_id name =
     (if \<not> HasPrefix name storeIDPrefix then None
      else case QueryUnescape (drop (length storeIDPrefix) name) of
          Inl _ \<Rightarrow> None
        | Inr key \<Rightarrow> Some key)"

definition ListIDs :: "file_system \<Rightarrow> string \<Rightarrow> string list" where
  "ListIDs fs dir = List.map_filter entry_id (ReadDir fs dir)"

section \<open>Escaping is reversible and stays in the directory\<close>

lemma unhex_hex_digit: "n < 16 \<Longrightarrow> unhex (hex_digit n) = Some n"
  by (cases "n < 10") (simp_all add: unhex_def hex_digit_def in_range_def)

lemma QueryUnescape_escape_byte:
  "QueryUnescape (escape_byte c @ s) = and_then (QueryUnescape s) (\<lambda>r. Ok (c # r))"
proof -
  consider "unreserved c" | "c = SP" "\<not> unreserved c" | "\<not> unreserved c" "c \<noteq> SP" by blast
  then show ?thesis
  proof cases
    case 1
    then have "c \<noteq> CHR ''%'' \<and> c \<noteq> CHR ''+''" by (auto simp: unreserved_def in_range_def)
    with 1 show ?thesis by (simp add: escape_byte_def)
  next
    case 3
    have "byte c div 16 < 16" using nat_of_char_less_256 [of c] by (simp add: less_mult_imp_div_less)
    moreover have "char_of (16 * (byte c div 16) + byte c mod 16) = c" by simp
    ultimately show ?thesis using 3 by (simp add: escape_byte_def unhex_hex_digit)
  qed (simp add: escape_byte_def)
qed

lemma QueryUnescape_QueryEscape: "QueryUnescape (QueryEscape s) = Ok s"
  by (induction s) (simp_all add: QueryEscape_def QueryUnescape_escape_byte)

lemma QueryEscape_inj: "QueryEscape s = QueryEscape t \<Longrightarrow> s = t"
  by (metis QueryUnescape_QueryEscape sum.inject(2))

lemma hex_digit_neq: "n < 16 \<Longrightarrow> hex_digit n \<noteq> CHR ''/''"
proof
  assume "n < 16" "hex_digit n = CHR ''/''"
  then have "unhex (CHR ''/'') = Some n" by (metis unhex_hex_digit)
  then show False by (simp add: unhex_def in_range_def)
qed

lemma QueryEscape_no_slash: "CHR ''/'' \<notin> set (QueryEscape s)"
proof -
  have "CHR ''/'' \<notin> set (escape_byte c)" for c
  proof -
    have "byte c div 16 < 16" using nat_of_char_less_256 [of c] by (simp add: less_mult_imp_div_less)
    then show ?thesis
      using hex_digit_neq [of "byte c div 16"] hex_digit_neq [of "byte c mod 16"]
      by (auto simp: escape_byte_def unreserved_def in_range_def)
  qed
  then show ?thesis by (auto simp: QueryEscape_def)
qed

lemma idToFname_inj: "idToFname dir a = idToFname dir b \<longleftrightarrow> a = b"
  using QueryEscape_inj by (auto simp: idToFname_def)

section \<open>The store as a map\<close>

text \<open>
  Encodings that keep the promise of reading back what was written, as a type, so that it needs
  not be a premise of every fact.
\<close>

typedef 'm lawful_codec = "{cd :: 'm codec. codec_ok cd}"
  by (intro exI [of _ "\<lparr>marshal = (\<lambda>_. Err []), unmarshal = (\<lambda>_. Err [])\<rparr>"])
    (simp add: codec_ok_def)

text \<open>
  The operations on a state of the file system, with a write seen from its end. The outcomes of
  the system calls may be different for each write.
\<close>

type_synonym 'm write_envs = "file_system \<Rightarrow> string \<Rightarrow> 'm \<Rightarrow> write_env"

definition fs_put ::
  "'m lawful_codec \<Rightarrow> string \<Rightarrow> 'm write_envs \<Rightarrow> file_system \<Rightarrow> string \<Rightarrow> 'm \<Rightarrow> string option \<times> file_system" where
  "fs_put cd dir env fs key m =
     (let (err, tr) = store_Put (Rep_lawful_codec cd) dir (env fs key m) fs key m in (err, last tr))"

definition fs_get ::
  "'m lawful_codec \<Rightarrow> string \<Rightarrow> file_system \<Rightarrow> string \<Rightarrow> (string, 'm option) result" where
  "fs_get cd dir fs key = store_Get (Rep_lawful_codec cd) dir fs key"

text \<open>
  What the users of a store rely on: a message is there after it was put, putting it touches no
  other one, a failed put changes nothing, and every message is listed.
\<close>

locale proto_store =
  fixes put :: "'s \<Rightarrow> string \<Rightarrow> 'm \<Rightarrow> string option \<times> 's"
    and get :: "'s \<Rightarrow> string \<Rightarrow> (string, 'm option) result"
    and ids :: "'s \<Rightarrow> string list"
  assumes put_get: "put s k m = (None, s') \<Longrightarrow> get s' k = Ok (Some m)"
    and put_other: "\<lbrakk>put s k m = (e, s'); k' \<noteq> k\<rbrakk> \<Longrightarrow> get s' k' = get s k'"
    and put_failed: "put s k m = (Some err, s') \<Longrightarrow> get s' k = get s k"
    and ids_get: "get s k = Ok (Some m) \<Longrightarrow> k \<in> set (ids s)"
    and ids_put: "put s k m = (e, s') \<Longrightarrow>
      set (ids s') = (if e = None then insert k (set (ids s)) else set (ids s))"
begin

lemma get_after_put:
  assumes "put s k m = (e, s')"
  shows "get s' k' = (if k' = k \<and> e = None then Ok (Some m) else get s k')"
proof (cases "k' = k")
  case True
  then show ?thesis using assms put_get put_failed by (cases e) auto
qed (use assms put_other in auto)

end

lemma path_dir_slash: "CHR ''/'' \<notin> set b \<Longrightarrow> path_dir (d @ CHR ''/'' # b) = d @ ''/''"
proof -
  assume "CHR ''/'' \<notin> set b"
  then have "\<forall>c \<in> set (rev b). c \<noteq> CHR ''/''" by auto
  then show ?thesis by (simp add: path_dir_def dropWhile_append_hit)
qed

lemma idToFname_neq_tmp: "idToFname dir k' \<noteq> tmp_name (idToFname dir k) rnd"
proof -
  have "CHR ''/'' \<notin> set (storeIDPrefix @ QueryEscape k)"
    using QueryEscape_no_slash by (simp add: storeIDPrefix_def)
  then have "path_dir (idToFname dir k) = dir @ ''/''"
    using path_dir_slash [of "storeIDPrefix @ QueryEscape k" dir] by (simp add: idToFname_def)
  then show ?thesis by (simp add: tmp_name_def idToFname_def storeIDPrefix_def)
qed

lemma store_Put_last:
  assumes "store_Put cd dir env fs k m = (err, tr)"
  shows "err = None \<Longrightarrow> \<exists>f out. map_of (last tr) (idToFname dir k) = Some f \<and> marshal cd m = Ok out \<and> f_data f = out"
    and "err \<noteq> None \<Longrightarrow> map_of (last tr) (idToFname dir k) = map_of fs (idToFname dir k)"
    and "k' \<noteq> k \<Longrightarrow> map_of (last tr) (idToFname dir k') = map_of fs (idToFname dir k')"
proof -
  have no_ops: "\<forall>op \<in> set ([] :: file_op list). local_op op" by simp
  have cases: "(\<exists>e. marshal cd m = Err e \<and> err = Some e \<and> tr = [fs]) \<or>
      (\<exists>out. marshal cd m = Ok out \<and> WriteFile env fs (idToFname dir k) out 432 [] = (err, tr))"
    using assms by (auto simp: store_Put_def WriteTextMessage_def split: sum.splits)
  show "err = None \<Longrightarrow> \<exists>f out. map_of (last tr) (idToFname dir k) = Some f \<and> marshal cd m = Ok out \<and> f_data f = out"
    using cases WriteFile_last(1) [OF no_ops] by blast
  show "err \<noteq> None \<Longrightarrow> map_of (last tr) (idToFname dir k) = map_of fs (idToFname dir k)"
    using cases WriteFile_last(2) [OF no_ops] by auto
  show "k' \<noteq> k \<Longrightarrow> map_of (last tr) (idToFname dir k') = map_of fs (idToFname dir k')"
    using cases WriteFile_last(3) [OF no_ops, of env fs "idToFname dir k"] idToFname_inj idToFname_neq_tmp
    by (metis last.simps)
qed

lemma store_Put_frame:
  assumes "store_Put cd dir env fs k m = (err, tr)" "p \<noteq> idToFname dir k" "\<And>rnd. p \<noteq> tmp_name (idToFname dir k) rnd"
  shows "map_of (last tr) p = map_of fs p"
proof (cases "marshal cd m")
  case (Inr out)
  then show ?thesis
    using assms WriteFile_last(3) [of "[]" env fs "idToFname dir k" out 432 err tr p]
    by (simp add: store_Put_def WriteTextMessage_def)
qed (use assms in \<open>auto simp: store_Put_def WriteTextMessage_def\<close>)

lemma store_Get_cong:
  "map_of fs (idToFname dir k) = map_of fs' (idToFname dir k) \<Longrightarrow> store_Get cd dir fs k = store_Get cd dir fs' k"
  by (simp add: store_Get_def ReadTextMessage_def)

lemma ListIDs_complete:
  assumes "map_of fs (idToFname dir k) = Some f"
  shows "k \<in> set (ListIDs fs dir)"
proof -
  let ?n = "storeIDPrefix @ QueryEscape k"
  have "idToFname dir k \<in> set (map fst fs)" using assms by (metis list.set_map map_of_SomeD fst_conv image_eqI)
  then have "?n \<in> set (ReadDir fs dir)"
    using QueryEscape_no_slash [of k] unfolding ReadDir_def Let_def
    by (simp add: storeIDPrefix_def) (rule image_eqI [of _ _ "idToFname dir k"],
      simp_all add: idToFname_def storeIDPrefix_def prefix_def)
  moreover have "entry_id ?n = Some k"
    by (simp add: entry_id_def HasPrefix_def QueryUnescape_QueryEscape)
  ultimately show ?thesis by (force simp: ListIDs_def List.map_filter_def)
qed

text \<open>The files of the store are known by their contents under the paths of the directory.\<close>

lemma ReadDir_iff: "n \<in> set (ReadDir fs dir) \<longleftrightarrow> (\<exists>f. map_of fs (dir @ ''/'' @ n) = Some f) \<and> CHR ''/'' \<notin> set n"
proof -
  have "(\<exists>f. map_of fs p = Some f) \<longleftrightarrow> p \<in> fst ` set fs" for p
    by (metis map_of_eq_None_iff not_None_eq)
  moreover have "n \<in> drop (length (dir @ ''/'')) ` {p \<in> fst ` set fs. prefix (dir @ ''/'') p}
      \<longleftrightarrow> dir @ ''/'' @ n \<in> fst ` set fs"
  proof
    assume "dir @ ''/'' @ n \<in> fst ` set fs"
    then have "dir @ ''/'' @ n \<in> {p \<in> fst ` set fs. prefix (dir @ ''/'') p}" by (simp add: prefix_def)
    moreover have "n = drop (length (dir @ ''/'')) (dir @ ''/'' @ n)" by simp
    ultimately show "n \<in> drop (length (dir @ ''/'')) ` {p \<in> fst ` set fs. prefix (dir @ ''/'') p}"
      by (rule rev_image_eqI)
  qed (force simp: prefix_def)
  ultimately show ?thesis by (auto simp: ReadDir_def)
qed

lemma ListIDs_iff:
  "k \<in> set (ListIDs fs dir) \<longleftrightarrow>
     (\<exists>n f. map_of fs (dir @ ''/'' @ n) = Some f \<and> CHR ''/'' \<notin> set n \<and> entry_id n = Some k)"
  by (force simp: ListIDs_def List.map_filter_def ReadDir_iff)

lemma entry_id_tmp: "entry_id (CHR ''.'' # n) = None"
  by (simp add: entry_id_def HasPrefix_def storeIDPrefix_def)

lemma ListIDs_put:
  assumes "store_Put cd dir env fs k m = (err, tr)"
  shows "set (ListIDs (last tr) dir) = (if err = None then insert k (set (ListIDs fs dir)) else set (ListIDs fs dir))"
proof -
  let ?t = "storeIDPrefix @ QueryEscape k"
  have t: "idToFname dir k = dir @ ''/'' @ ?t" "entry_id ?t = Some k" "CHR ''/'' \<notin> set ?t"
    using QueryEscape_no_slash [of k]
    by (simp_all add: idToFname_def entry_id_def HasPrefix_def QueryUnescape_QueryEscape storeIDPrefix_def)
  have pd: "path_dir (idToFname dir k) = dir @ ''/''"
    using path_dir_slash [of ?t dir] t by simp
  have other: "map_of (last tr) (dir @ ''/'' @ n) = map_of fs (dir @ ''/'' @ n)"
    if "n \<noteq> ?t" "entry_id n = Some k'" for n k'
  proof -
    have "dir @ ''/'' @ n \<noteq> tmp_name (idToFname dir k) rnd" for rnd
      using that(2) entry_id_tmp pd by (auto simp: tmp_name_def)
    moreover have "dir @ ''/'' @ n \<noteq> idToFname dir k" using that(1) t by simp
    ultimately show ?thesis using store_Put_frame [OF assms] by metis
  qed
  define rest where "rest s x \<longleftrightarrow>
      (\<exists>n f. n \<noteq> ?t \<and> map_of s (dir @ ''/'' @ n) = Some f \<and> CHR ''/'' \<notin> set n \<and> entry_id n = Some x)" for s :: file_system and x
  have mem: "x \<in> set (ListIDs s dir) \<longleftrightarrow> (x = k \<and> map_of s (idToFname dir k) \<noteq> None) \<or> rest s x" for s x
    using t unfolding ListIDs_iff rest_def by (metis option.inject not_None_eq)
  have rest: "rest (last tr) x \<longleftrightarrow> rest fs x" for x
    unfolding rest_def using other by (metis (no_types))
  show ?thesis
  proof (cases err)
    case None
    then have "map_of (last tr) (idToFname dir k) \<noteq> None" using store_Put_last(1) [OF assms] by auto
    with None rest show ?thesis by (auto simp: mem)
  next
    case (Some e)
    then have "map_of (last tr) (idToFname dir k) = map_of fs (idToFname dir k)"
      using store_Put_last(2) [OF assms] by simp
    with Some rest show ?thesis by (auto simp: mem)
  qed
qed

interpretation fs_store: proto_store "fs_put cd dir env" "fs_get cd dir" "\<lambda>fs. ListIDs fs dir"
  for cd dir env
proof
  fix fs fs' :: file_system and k m
  assume put: "fs_put cd dir env fs k m = (None, fs')"
  then obtain tr where tr: "store_Put (Rep_lawful_codec cd) dir (env fs k m) fs k m = (None, tr)" "fs' = last tr"
    by (auto simp: fs_put_def split: prod.splits)
  from store_Put_last(1) [OF tr(1)] obtain f out where
    f: "map_of fs' (idToFname dir k) = Some f" "marshal (Rep_lawful_codec cd) m = Ok out" "f_data f = out"
    using tr(2) by auto
  have "unmarshal (Rep_lawful_codec cd) out = Ok m"
    using Rep_lawful_codec [of cd] f(2) by (simp add: codec_ok_def)
  with f show "fs_get cd dir fs' k = Ok (Some m)"
    by (simp add: fs_get_def store_Get_def ReadTextMessage_def)
next
  fix fs fs' :: file_system and k m e k'
  assume "fs_put cd dir env fs k m = (e, fs')" "k' \<noteq> k"
  then show "fs_get cd dir fs' k' = fs_get cd dir fs k'"
    unfolding fs_get_def fs_put_def
    by (intro store_Get_cong) (auto split: prod.splits dest: store_Put_last(3))
next
  fix fs fs' :: file_system and k m e
  assume "fs_put cd dir env fs k m = (Some e, fs')"
  then show "fs_get cd dir fs' k = fs_get cd dir fs k"
    unfolding fs_get_def fs_put_def
    by (intro store_Get_cong) (auto split: prod.splits dest: store_Put_last(2))
next
  fix fs :: file_system and k m
  assume "fs_get cd dir fs k = Ok (Some m)"
  then obtain f where "map_of fs (idToFname dir k) = Some f"
    by (auto simp: fs_get_def store_Get_def ReadTextMessage_def split: option.splits)
  then show "k \<in> set (ListIDs fs dir)" by (rule ListIDs_complete)
next
  fix fs fs' :: file_system and k m e
  assume "fs_put cd dir env fs k m = (e, fs')"
  then show "set (ListIDs fs' dir) = (if e = None then insert k (set (ListIDs fs dir)) else set (ListIDs fs dir))"
    using ListIDs_put by (fastforce simp: fs_put_def split: prod.splits)
qed

text \<open>
  C33. The store is crash-safe and its names are safe. Whatever the identifier, its file is right
  in the store's directory and the identifier can be read back from its name; different
  identifiers have different files. In every state that putting a message goes through, the
  message read under the identifier is the old or the new one, all other identifiers are
  unaffected, and if the put succeeded the new message is there and its identifier is listed.
\<close>

theorem store_Put_safe:
  assumes "codec_ok cd" "store_Put cd dir env fs k m = (err, tr)"
  shows "path_dir (idToFname dir k) = dir @ ''/'' \<and> QueryUnescape (QueryEscape k) = Ok k \<and>
     (\<forall>k'. idToFname dir k' = idToFname dir k \<longrightarrow> k' = k) \<and>
     (\<forall>s \<in> set tr.
        (store_Get cd dir s k = store_Get cd dir fs k \<or> store_Get cd dir s k = Ok (Some m)) \<and>
        (\<forall>k'. k' \<noteq> k \<longrightarrow> store_Get cd dir s k' = store_Get cd dir fs k')) \<and>
     (err = None \<longrightarrow> store_Get cd dir (last tr) k = Ok (Some m) \<and> k \<in> set (ListIDs (last tr) dir))"
proof -
  let ?f = "idToFname dir k"
  have dir: "path_dir ?f = dir @ ''/''"
    using path_dir_slash [of "storeIDPrefix @ QueryEscape k" dir] QueryEscape_no_slash [of k]
    by (simp add: idToFname_def storeIDPrefix_def)
  have new: "store_Get cd dir s k = Ok (Some m)"
    if "map_of s ?f = Some f" "marshal cd m = Ok (f_data f)" for s f
    using that assms(1) by (simp add: store_Get_def ReadTextMessage_def codec_ok_def)
  have states: "(store_Get cd dir s k = store_Get cd dir fs k \<or> store_Get cd dir s k = Ok (Some m)) \<and>
      (\<forall>k'. k' \<noteq> k \<longrightarrow> store_Get cd dir s k' = store_Get cd dir fs k')" if "s \<in> set tr" for s
  proof (cases "(\<exists>e. marshal cd m = Err e) \<or> (\<exists>e. we_create env = Err e)")
    case True
    then have "tr = [fs]"
      using assms(2) by (auto simp: store_Put_def WriteTextMessage_def WriteFile_def split: sum.splits)
    then show ?thesis using that by simp
  next
    case False
    then obtain out rnd where m: "marshal cd m = Ok out" and c: "we_create env = Ok rnd"
      by (metis obj_sumE)
    have w: "atomic_run (tmp_name ?f rnd) ?f out fs (err, tr)"
      using WriteFile_run [OF c, of "[]" ?f out fs 432] assms(2) m
      by (simp add: store_Put_def WriteTextMessage_def)
    have "s = last tr \<or> s \<in> set (butlast tr)"
      using that by (metis append_butlast_last_id empty_iff empty_set set_ConsD set_append Un_iff list.set_intros(1))
    with w have st: "(map_of s ?f = map_of fs ?f \<or> (\<exists>f. map_of s ?f = Some f \<and> f_data f = out)) \<and>
        (\<forall>p. p \<noteq> tmp_name ?f rnd \<and> p \<noteq> ?f \<longrightarrow> map_of s p = map_of fs p)"
      using tmp_name_neq [of ?f rnd] by (auto simp: atomic_run_def only_tmp_def split: if_splits)
    then show ?thesis
      using m new idToFname_inj idToFname_neq_tmp store_Get_cong by metis
  qed
  have fin: "store_Get cd dir (last tr) k = Ok (Some m) \<and> k \<in> set (ListIDs (last tr) dir)" if "err = None"
    using store_Put_last(1) [OF assms(2) that] new ListIDs_complete by metis
  show ?thesis using dir QueryUnescape_QueryEscape idToFname_inj states fin by metis
qed

lemma store_Put_safe_witness:
  "let cd = \<lparr>marshal = (\<lambda>m. Ok m), unmarshal = (\<lambda>s. Ok s)\<rparr>;
       env = \<lparr>we_create = Ok ''1'', we_chmod = None, we_chown = None, we_write = None,
              we_close = None, we_rename = None, we_remove = True, we_owner = (0, 0), we_now = 0\<rparr>;
       r = store_Put cd ''st'' env [] ''../a b'' ''m''
   in fst r = None \<and> store_Get cd ''st'' (last (snd r)) ''../a b'' = Ok (Some ''m'')"
proof -
  let ?cd = "\<lparr>marshal = (\<lambda>m. Ok m), unmarshal = (\<lambda>s. Ok s)\<rparr> :: string codec"
  let ?env = "\<lparr>we_create = Ok ''1'', we_chmod = None, we_chown = None, we_write = None,
              we_close = None, we_rename = None, we_remove = True, we_owner = (0, 0), we_now = 0\<rparr>"
  let ?r = "store_Put ?cd ''st'' ?env [] ''../a b'' ''m''"
  have cd: "codec_ok ?cd" by (simp add: codec_ok_def)
  have "fst ?r = None"
    by (simp add: store_Put_def WriteTextMessage_def WriteFile_def write_tmp_def write_body_def
        write_finish_def getOwner_def Let_def split: prod.split)
  then obtain tr where r: "?r = (None, tr)" by (cases ?r) simp
  from store_Put_safe [OF cd r] show ?thesis unfolding Let_def r by simp
qed

end
