(* ===== verification/Sts.thy ===== *)
theory Sts
  imports Normalize GoIO Protoio
begin

text \<open>
  \<open>src/internal/sts/sts.go\<close>: MTA-STS policies, how they are fetched, checked and matched, and the
  cache of policies on disk, whose files have as modification time the time the policy expires.
  DNS, HTTP and the JSON encoding are parameters. Durations are in nanoseconds, in 64 bits.
\<close>

section \<open>Policies\<close>

record Policy =
  p_Version :: string
  p_Mode :: string
  p_MXs :: "string list"
  p_MaxAge :: int

abbreviation Enforce :: string where "Enforce \<equiv> ''enforce''"
abbreviation Testing :: string where "Testing \<equiv> ''testing''"
abbreviation ModeNone :: string where "ModeNone \<equiv> ''none''"

text \<open>The value \<open>strconv.Atoi\<close> returns, also next to an error.\<close>

definition Atoi_value :: "string \<Rightarrow> int" where
  "Atoi_value s =
     (case ParseInt64 s of
        Inr n \<Rightarrow> n
      | Inl ErrSyntax \<Rightarrow> 0
      | Inl ErrRange \<Rightarrow> if HasPrefix s ''-'' then - (2 ^ 63) else 2 ^ 63 - 1)"

definition second_ns :: int where
  "second_ns = 1000000000"

definition policy_line :: "string \<Rightarrow> Policy \<Rightarrow> Policy" where
  "policy_line line p =
     (case SplitN2 line '':'' of
        [k, v] \<Rightarrow>
          (let key = TrimSpace k; val = TrimSpace v in
           if key = ''version'' then p\<lparr>p_Version := val\<rparr>
           else if key = ''mode'' then p\<lparr>p_Mode := val\<rparr>
           else if key = ''max_age'' then p\<lparr>p_MaxAge := wrap64 (Atoi_value val * second_ns)\<rparr>
           else if key = ''mx'' then p\<lparr>p_MXs := p_MXs p @ [val]\<rparr>
           else p)
      | _ \<Rightarrow> p)"

datatype sts_error =
    ErrUnknownVersion | ErrInvalidMaxAge | ErrInvalidMode | ErrInvalidMX | ErrInvalidMediaType
  | errRejectRedirect | errExpired | StsErr string

definition parsePolicy :: "string \<Rightarrow> (sts_error, Policy) result" where
  "parsePolicy raw =
     (let (ls, long) = scan_lines raw;
          p = fold policy_line ls \<lparr>p_Version = [], p_Mode = [], p_MXs = [], p_MaxAge = 0\<rparr>
      in if long then Err (StsErr ''bufio.Scanner: token too long'') else Ok p)"

definition Check :: "Policy \<Rightarrow> sts_error option" where
  "Check p =
     (if p_Version p \<noteq> ''STSv1'' then Some ErrUnknownVersion
      else if p_MaxAge p \<le> 0 \<or> 31557600 * second_ns < p_MaxAge p then Some ErrInvalidMaxAge
      else if p_Mode p \<noteq> Enforce \<and> p_Mode p \<noteq> Testing \<and> p_Mode p \<noteq> ModeNone then Some ErrInvalidMode
      else if p_MXs p = [] then Some ErrInvalidMX
      else None)"

definition domainToASCII :: "textlib \<Rightarrow> string \<Rightarrow> (string, string) result" where
  "domainToASCII tx domain = idna_ToASCII tx (ToLower (tl_unicode tx) (TrimSuffix domain ''.''))"

definition matchDomain :: "textlib \<Rightarrow> string \<Rightarrow> string \<Rightarrow> bool" where
  "matchDomain tx domain pattern =
     (case (domainToASCII tx domain, domainToASCII tx pattern) of
        (Inr d, Inr p) \<Rightarrow>
          if d = p then True
          else if HasPrefix p ''*.'' then
            (case SplitN2 d ''.'' of [_, rest] \<Rightarrow> rest = drop 2 p | _ \<Rightarrow> False)
          else False
      | _ \<Rightarrow> False)"

definition MXIsAllowed :: "textlib \<Rightarrow> Policy \<Rightarrow> string \<Rightarrow> bool" where
  "MXIsAllowed tx p mx =
     (if p_Mode p \<noteq> Enforce then True else list_ex (matchDomain tx mx) (p_MXs p))"

section \<open>Fetching\<close>

text \<open>An HTTP reply: the status, the media type or its error, and the body with how it ends.\<close>

datatype http_reply =
    HttpError string
  | HttpRedirect
  | HttpResponse int "(string, string) result" reader

text \<open>What a fetch meets; \<open>st_fakeURL\<close> is the variable tests set, empty otherwise.\<close>

record sts_env =
  st_text :: textlib
  st_lookupTXT :: "string \<Rightarrow> (string, string list) result"
  st_http :: "string \<Rightarrow> http_reply"
  st_fakeURL :: string

definition urlForDomain :: "string \<Rightarrow> string \<Rightarrow> string" where
  "urlForDomain fakeURL domain =
     (if fakeURL \<noteq> [] then fakeURL @ ''/'' @ domain
      else ''https://mta-sts.'' @ domain @ ''/.well-known/mta-sts.txt'')"

definition hasSTSRecord :: "sts_env \<Rightarrow> string \<Rightarrow> (sts_error, bool) result" where
  "hasSTSRecord env domain =
     (case st_lookupTXT env (''_mta-sts.'' @ domain) of
        Inl e \<Rightarrow> Err (StsErr e)
      | Inr txts \<Rightarrow> Ok (list_ex (\<lambda>txt. HasPrefix txt ''v=STSv1;'') txts))"

definition httpGet :: "sts_env \<Rightarrow> string \<Rightarrow> (sts_error, string) result" where
  "httpGet env url =
     (case st_http env url of
        HttpError e \<Rightarrow> Err (StsErr e)
      | HttpRedirect \<Rightarrow> Err errRejectRedirect
      | HttpResponse status mt body \<Rightarrow>
          if status \<noteq> 200 then Err (StsErr ''HTTP response status code'')
          else (case mt of
              Inl e \<Rightarrow> Err (StsErr e)
            | Inr m \<Rightarrow>
                if m \<noteq> ''text/plain'' then Err ErrInvalidMediaType
                else if length (r_bytes body) < 10 * 1024 \<and> r_end body \<noteq> EOF then Err (StsErr ''read error'')
                else Ok (take (10 * 1024) (r_bytes body))))"

definition UncheckedFetch :: "sts_env \<Rightarrow> string \<Rightarrow> (sts_error, Policy) result" where
  "UncheckedFetch env domain =
     (case idna_ToASCII (st_text env) domain of
        Inl e \<Rightarrow> Err (StsErr e)
      | Inr d \<Rightarrow>
          and_then (hasSTSRecord env d) (\<lambda>ok.
          if \<not> ok then Err (StsErr ''MTA-STS TXT record missing'')
          else and_then (httpGet env (urlForDomain (st_fakeURL env) d)) parsePolicy))"

definition sts_Fetch :: "sts_env \<Rightarrow> string \<Rightarrow> (sts_error, Policy) result" where
  "sts_Fetch env domain =
     and_then (UncheckedFetch env domain) (\<lambda>p. case Check p of Some e \<Rightarrow> Err e | None \<Rightarrow> Ok p)"

section \<open>The cache\<close>

text \<open>A domain with a slash is a panic, the value \<open>None\<close>.\<close>

definition pathPrefix :: string where
  "pathPrefix = ''pol:''"

definition domainPath :: "string \<Rightarrow> string \<Rightarrow> string option" where
  "domainPath dir domain =
     (if Contains domain ''/'' then None else Some (dir @ ''/'' @ pathPrefix @ domain))"

text \<open>What a load meets: the time, and the errors of \<open>os.Stat\<close> and of \<open>os.ReadFile\<close> on a file that is there.\<close>

record load_env =
  lo_now :: int
  lo_stat :: "string option"
  lo_read :: "string option"

definition cache_load ::
  "Policy codec \<Rightarrow> string \<Rightarrow> load_env \<Rightarrow> file_system \<Rightarrow> string \<Rightarrow> (sts_error, Policy) result option" where
  "cache_load cd dir env fs domain =
     (case domainPath dir domain of
        None \<Rightarrow> None
      | Some fname \<Rightarrow> Some (
          case (map_of fs fname, lo_stat env) of
            (None, _) \<Rightarrow> Err (StsErr ''no such file'')
          | (_, Some e) \<Rightarrow> Err (StsErr e)
          | (Some f, None) \<Rightarrow>
              if 0 < lo_now env - f_mtime f then Err errExpired
              else (case lo_read env of
                  Some e \<Rightarrow> Err (StsErr e)
                | None \<Rightarrow>
                    (case unmarshal cd (f_data f) of
                       Inl e \<Rightarrow> Err (StsErr e)
                     | Inr p \<Rightarrow>
                         (case Check p of
                            Some e \<Rightarrow> Err (StsErr ''unmarshalled invalid policy'')
                          | None \<Rightarrow> Ok p)))))"

text \<open>\<open>os.Chtimes\<close> as an operation on the temporary file.\<close>

definition chTime :: "string option \<Rightarrow> int \<Rightarrow> file_op" where
  "chTime err expires fname fs =
     (case err of
        Some e \<Rightarrow> (Some e, fs)
      | None \<Rightarrow>
          (None, (case map_of fs fname of
                    None \<Rightarrow> fs
                  | Some f \<Rightarrow> AList.update fname (f\<lparr>f_mtime := expires\<rparr>) fs)))"

text \<open>What a store meets: the time, the outcomes of the write, and the error of changing the times.\<close>

record store_env =
  so_now :: int
  so_write :: write_env
  so_chtimes :: "string option"

definition cache_store ::
  "Policy codec \<Rightarrow> string \<Rightarrow> store_env \<Rightarrow> file_system \<Rightarrow> string \<Rightarrow> Policy \<Rightarrow> (string option \<times> file_system) option" where
  "cache_store cd dir env fs domain p =
     (case marshal cd p of
        Inl e \<Rightarrow> Some (Some e, fs)
      | Inr data \<Rightarrow>
          (case domainPath dir domain of
             None \<Rightarrow> None
           | Some fname \<Rightarrow>
               (let (err, tr) = WriteFile (so_write env) fs fname data 416 [chTime (so_chtimes env) (so_now env + p_MaxAge p)]
                in Some (err, last tr))))"

definition cache_Fetch ::
  "Policy codec \<Rightarrow> string \<Rightarrow> load_env \<Rightarrow> sts_env \<Rightarrow> store_env \<Rightarrow> file_system \<Rightarrow> string
     \<Rightarrow> ((sts_error, Policy) result \<times> file_system) option" where
  "cache_Fetch cd dir lenv env senv fs domain =
     (case cache_load cd dir lenv fs domain of
        None \<Rightarrow> None
      | Some (Inr p) \<Rightarrow> Some (Ok p, fs)
      | Some (Inl _) \<Rightarrow>
          (case sts_Fetch env domain of
             Inl e \<Rightarrow> Some (Err e, fs)
           | Inr p \<Rightarrow>
               (case cache_store cd dir senv fs domain p of
                  None \<Rightarrow> None
                | Some (_, fs') \<Rightarrow> Some (Ok p, fs'))))"

text \<open>One pass over the cache. Entries that cannot be fetched are left as they are.\<close>

fun refresh_entries ::
  "Policy codec \<Rightarrow> string \<Rightarrow> (string \<Rightarrow> sts_env \<times> store_env) \<Rightarrow> string list \<Rightarrow> file_system \<Rightarrow> file_system option" where
  "refresh_entries cd dir envs [] fs = Some fs"
| "refresh_entries cd dir envs (name # names) fs =
     (if \<not> HasPrefix name pathPrefix then refresh_entries cd dir envs names fs
      else
        (let domain = drop (length pathPrefix) name; (env, senv) = envs domain in
         case sts_Fetch env domain of
           Inl _ \<Rightarrow> refresh_entries cd dir envs names fs
         | Inr p \<Rightarrow>
             (case cache_store cd dir senv fs domain p of
                None \<Rightarrow> None
              | Some (_, fs') \<Rightarrow> refresh_entries cd dir envs names fs')))"

definition cache_refresh ::
  "Policy codec \<Rightarrow> string \<Rightarrow> string option \<Rightarrow> (string \<Rightarrow> sts_env \<times> store_env) \<Rightarrow> file_system \<Rightarrow> file_system option" where
  "cache_refresh cd dir list_err envs fs =
     (case list_err of
        Some _ \<Rightarrow> Some fs
      | None \<Rightarrow> refresh_entries cd dir envs (ReadDir fs dir) fs)"

text \<open>The passes made before the context is done, with what each of them meets.\<close>

fun PeriodicallyRefresh ::
  "Policy codec \<Rightarrow> string \<Rightarrow> (string option \<times> (string \<Rightarrow> sts_env \<times> store_env)) list \<Rightarrow> file_system \<Rightarrow> file_system option" where
  "PeriodicallyRefresh cd dir [] fs = Some fs"
| "PeriodicallyRefresh cd dir ((list_err, envs) # passes) fs =
     Option.bind (cache_refresh cd dir list_err envs fs) (PeriodicallyRefresh cd dir passes)"

section \<open>Policies that are accepted\<close>

lemma max_age_line:
  "n < 2 ^ 63 \<Longrightarrow> policy_line (''max_age: '' @ FormatUint n) p = p\<lparr>p_MaxAge := wrap64 (int n * second_ns)\<rparr>"
proof -
  assume n: "n < 2 ^ 63"
  have "SplitN2 (''max_age'' @ CHR '':'' # SP # FormatUint n) '':'' = [''max_age'', SP # FormatUint n]"
    by (rule SplitN2_char_found) simp
  moreover have "TrimSpace ''max_age'' = ''max_age''" by (simp add: go_eval)
  ultimately show ?thesis
    using n by (simp add: policy_line_def TrimSpace_FormatUint Atoi_value_def ParseInt64_FormatUint)
qed

text \<open>
  C31. The check bounds a policy: one that passes is of the known version and mode, has an MX, and a
  positive life of at most a year. A \<open>max_age\<close> line gives its number of seconds as long as they
  fit in 64 bits of nanoseconds; past that it wraps around, so a number far beyond the limit of
  a year can still pass the check with some other life.
\<close>

theorem policy_bounds:
  assumes "n < 2 ^ 63"
  shows "(Check p = None \<longleftrightarrow>
      p_Version p = ''STSv1'' \<and> p_MXs p \<noteq> [] \<and> p_Mode p \<in> {Enforce, Testing, ModeNone} \<and>
      0 < p_MaxAge p \<and> p_MaxAge p \<le> 31557600 * second_ns) \<and>
    p_MaxAge (policy_line (''max_age: '' @ FormatUint n) p) = wrap64 (int n * second_ns) \<and>
    (n \<le> 9223372036 \<longrightarrow> p_MaxAge (policy_line (''max_age: '' @ FormatUint n) p) = int n * second_ns) \<and>
    (n = 18446744074 \<longrightarrow> p_MaxAge (policy_line (''max_age: '' @ FormatUint n) p) = 290448384)"
proof (intro conjI)
  have small: "wrap64 x = x" if "0 \<le> x" "x < 2 ^ 63" for x
    using that by (simp add: wrap64_def)
  show "n \<le> 9223372036 \<longrightarrow> p_MaxAge (policy_line (''max_age: '' @ FormatUint n) p) = int n * second_ns"
    using max_age_line [OF assms] small [of "int n * second_ns"] by (simp add: second_ns_def)
  show "n = 18446744074 \<longrightarrow> p_MaxAge (policy_line (''max_age: '' @ FormatUint n) p) = 290448384"
    by (simp only: max_age_line [OF assms]) (simp add: second_ns_def wrap64_def)
qed (use max_age_line [OF assms, of p] in \<open>auto simp: Check_def\<close>)

lemma policy_bounds_witness:
  "let p = \<lparr>p_Version = ''STSv1'', p_Mode = ''none'', p_MXs = [''mx''], p_MaxAge = 0\<rparr>
   in Check (policy_line (''max_age: '' @ FormatUint 18446744074) p) = None"
proof -
  let ?p = "\<lparr>p_Version = ''STSv1'', p_Mode = ''none'', p_MXs = [''mx''], p_MaxAge = 0\<rparr>"
  let ?q = "policy_line (''max_age: '' @ FormatUint 18446744074) ?p"
  have n: "(18446744074 :: nat) < 2 ^ 63" by simp
  have "?q = ?p\<lparr>p_MaxAge := p_MaxAge ?q\<rparr>" by (subst (1 2) max_age_line [OF n]) simp
  moreover have "p_MaxAge ?q = 290448384" using policy_bounds [OF n, of ?p] by blast
  ultimately have "?q = ?p\<lparr>p_MaxAge := 290448384\<rparr>" by simp
  then show ?thesis using policy_bounds [OF n, of ?q] by (simp add: Let_def second_ns_def)
qed

section \<open>Matching\<close>

lemma wildcard_iff:
  "(case SplitN2 d ''.'' of [_, rest] \<Rightarrow> rest = r | _ \<Rightarrow> False) \<longleftrightarrow>
     (\<exists>label. d = label @ CHR ''.'' # r \<and> CHR ''.'' \<notin> set label)"
proof (cases "CHR ''.'' \<in> set d")
  case True
  then obtain a b where d: "d = a @ CHR ''.'' # b" "CHR ''.'' \<notin> set a" by (metis split_list_first)
  then have "SplitN2 d ''.'' = [a, b]" by (simp add: SplitN2_char_found)
  with d show ?thesis by (auto simp: append_eq_append_conv2 Cons_eq_append_conv append_eq_Cons_conv)
next
  case False
  then show ?thesis by (auto simp: SplitN2_char_none)
qed

text \<open>
  Which servers a policy allows: any when it is not enforced; otherwise those that are equal to
  one of its patterns, up to case, encoding and a final dot, or for which a pattern that starts
  with a star has the same domain after exactly one label.
\<close>

theorem MXIsAllowed_iff:
  "MXIsAllowed tx p mx \<longleftrightarrow>
     (if p_Mode p = ''enforce'' then
        \<exists>pat \<in> set (p_MXs p). \<exists>d q. domainToASCII tx mx = Ok d \<and> domainToASCII tx pat = Ok q \<and>
          (d = q \<or> (\<exists>label rest. q = ''*.'' @ rest \<and> d = label @ ''.'' @ rest \<and> CHR ''.'' \<notin> set label))
      else True)"
proof -
  have "matchDomain tx mx pat \<longleftrightarrow>
      (\<exists>d q. domainToASCII tx mx = Ok d \<and> domainToASCII tx pat = Ok q \<and>
         (d = q \<or> (\<exists>label rest. q = ''*.'' @ rest \<and> d = label @ ''.'' @ rest \<and> CHR ''.'' \<notin> set label)))" for pat
  proof (cases "domainToASCII tx mx"; cases "domainToASCII tx pat")
    fix d q
    assume a: "domainToASCII tx mx = Ok d" "domainToASCII tx pat = Ok q"
    have "matchDomain tx mx pat \<longleftrightarrow>
        d = q \<or> HasPrefix q ''*.'' \<and> (\<exists>label. d = label @ CHR ''.'' # drop 2 q \<and> CHR ''.'' \<notin> set label)"
      using a by (simp add: matchDomain_def wildcard_iff)
    moreover have "HasPrefix q ''*.'' \<longleftrightarrow> q = ''*.'' @ drop 2 q"
      by (auto simp: HasPrefix_def prefix_def)
    ultimately show ?thesis using a by force
  qed (simp_all add: matchDomain_def)
  then show ?thesis by (simp add: MXIsAllowed_def list_ex_iff)
qed

section \<open>The cache\<close>

lemma chTime_local: "local_op (chTime err t)"
  by (auto simp: local_op_def chTime_def update_conv' split: option.splits)

text \<open>What a successful write with one operation did at its end.\<close>

lemma WriteFile_one_op:
  assumes "WriteFile env fs fname data perm [op] = (None, tr)"
  shows "\<exists>tmp s f s'. map_of s tmp = Some f \<and> op tmp s = (None, s') \<and> last tr = os_Rename tmp fname s'"
proof -
  have fin: "\<exists>s'. op tmp s = (None, s') \<and> t \<noteq> [] \<and> last t = os_Rename tmp fname s'"
    if "write_finish env tmp fname [op] s = (None, t)" for tmp s t
    using that by (auto simp: write_finish_def split: prod.splits option.splits)
  have body: "\<exists>s f s'. map_of s tmp = Some f \<and> op tmp s = (None, s') \<and> t \<noteq> [] \<and> last t = os_Rename tmp fname s'"
    if b: "write_body env tmp fname data [op] f s = (None, t)" for tmp f s t
  proof -
    let ?s = "AList.update tmp (f\<lparr>f_data := data\<rparr>) s"
    have "write_finish env tmp fname [op] ?s = (None, t)"
      using b by (auto simp: write_body_def write_fail_def Let_def split: option.splits prod.splits)
    from fin [OF this] show ?thesis by (metis map_upd_Some_unfold update_conv)
  qed
  obtain rnd f s t where t: "write_tmp env (tmp_name fname rnd) fname data perm [op] f s = (None, t)" "tr = fs # t"
    using assms by (auto simp: WriteFile_def Let_def split: sum.splits prod.splits)
  then have "\<exists>f' s'. write_body env (tmp_name fname rnd) fname data [op] f' s' = (None, t)"
    by (auto simp: write_tmp_def write_fail_def Let_def split: option.splits if_splits)
  with body t(2) show ?thesis by fastforce
qed

lemma WriteFile_chTime:
  assumes "WriteFile env fs fname data perm [chTime e t] = (None, tr)"
  shows "\<exists>f. map_of (last tr) fname = Some f \<and> f_data f = data \<and> f_mtime f = t"
proof -
  obtain f where f: "map_of (last tr) fname = Some f" "f_data f = data"
    using WriteFile_last(1) [OF _ assms] chTime_local by auto
  obtain tmp s g s' where o: "map_of s tmp = Some g" "chTime e t tmp s = (None, s')" "last tr = os_Rename tmp fname s'"
    using WriteFile_one_op [OF assms] by blast
  then have "map_of s' tmp = Some (g\<lparr>f_mtime := t\<rparr>)"
    by (auto simp: chTime_def update_conv' split: option.splits)
  with o f show ?thesis by (auto simp: os_Rename_def update_conv')
qed

lemma domainPath_cases:
  "domainPath dir d = (if CHR ''/'' \<in> set d then None else Some (dir @ ''/'' @ pathPrefix @ d))"
  by (simp add: domainPath_def Contains_char)

lemma policy_path_not_tmp:
  assumes "CHR ''/'' \<notin> set b"
  shows "dir @ ''/'' @ pathPrefix @ a \<noteq> tmp_name (dir @ ''/'' @ pathPrefix @ b) rnd"
proof -
  have "path_dir (dir @ ''/'' @ pathPrefix @ b) = dir @ ''/''"
    using assms path_dir_slash [of "pathPrefix @ b" dir] by (simp add: pathPrefix_def)
  then show ?thesis by (simp add: tmp_name_def pathPrefix_def)
qed

lemma cache_store_other:
  assumes "cache_store cd dir senv fs domain p = Some (err, fs')" "d \<noteq> domain"
  shows "cache_load cd dir lenv fs' d = cache_load cd dir lenv fs d"
proof -
  let ?f = "dir @ ''/'' @ pathPrefix @ domain" and ?g = "dir @ ''/'' @ pathPrefix @ d"
  have "map_of fs' ?g = map_of fs ?g"
  proof (cases "marshal cd p")
    case (Inr out)
    then obtain tr where sl: "CHR ''/'' \<notin> set domain"
      and w: "WriteFile (so_write senv) fs ?f out 416 [chTime (so_chtimes senv) (so_now senv + p_MaxAge p)] = (err, tr)"
        "fs' = last tr"
      using assms(1) by (auto simp: cache_store_def domainPath_cases split: if_splits prod.splits)
    show ?thesis
      using WriteFile_last(3) [OF _ w(1), of ?g] chTime_local policy_path_not_tmp [OF sl] assms(2) w(2) by simp
  qed (use assms(1) in \<open>simp add: cache_store_def\<close>)
  then show ?thesis by (simp add: cache_load_def domainPath_cases)
qed

text \<open>
  A stored policy is what the cache gives for its domain until it expires, its life
  after it was stored, and not after; a store that fails leaves what was there; and no other
  domain is affected.
\<close>

theorem cache_store_load:
  assumes "marshal cd p = Ok out" "unmarshal cd out = Ok p" "Check p = None"
    "cache_store cd dir senv fs domain p = Some (err, fs')" "lo_stat lenv = None" "lo_read lenv = None"
  shows "cache_load cd dir lenv fs' domain =
      (if err = None
       then Some (if lo_now lenv \<le> so_now senv + p_MaxAge p then Ok p else Err errExpired)
       else cache_load cd dir lenv fs domain) \<and>
    (\<forall>d. d \<noteq> domain \<longrightarrow> cache_load cd dir lenv fs' d = cache_load cd dir lenv fs d)"
proof (intro conjI allI impI)
  let ?f = "dir @ ''/'' @ pathPrefix @ domain"
  let ?op = "chTime (so_chtimes senv) (so_now senv + p_MaxAge p)"
  obtain tr where sl: "CHR ''/'' \<notin> set domain"
    and w: "WriteFile (so_write senv) fs ?f out 416 [?op] = (err, tr)" "fs' = last tr"
    using assms(1,4) by (auto simp: cache_store_def domainPath_cases split: if_splits prod.splits)
  show "cache_load cd dir lenv fs' domain =
      (if err = None
       then Some (if lo_now lenv \<le> so_now senv + p_MaxAge p then Ok p else Err errExpired)
       else cache_load cd dir lenv fs domain)"
  proof (cases err)
    case None
    then obtain f where "map_of fs' ?f = Some f" "f_data f = out" "f_mtime f = so_now senv + p_MaxAge p"
      using WriteFile_chTime w by blast
    with None sl assms show ?thesis by (simp add: cache_load_def domainPath_cases)
  next
    case (Some e)
    then have "map_of fs' ?f = map_of fs ?f" using WriteFile_last(2) [OF _ w(1)] chTime_local w(2) by simp
    with Some show ?thesis by (simp add: cache_load_def domainPath_cases)
  qed
qed (rule cache_store_other [OF assms(4)])

definition ex_policy :: Policy where
  "ex_policy = \<lparr>p_Version = ''STSv1'', p_Mode = ''enforce'', p_MXs = [''*.m.org''], p_MaxAge = 604800 * second_ns\<rparr>"

definition ex_json :: "Policy codec" where
  "ex_json = \<lparr>marshal = (\<lambda>p. if p = ex_policy then Ok ''P'' else Err ''?''),
              unmarshal = (\<lambda>s. if s = ''P'' then Ok ex_policy else Err ''?'')\<rparr>"

definition ex_store :: store_env where
  "ex_store = \<lparr>so_now = 5, so_write = \<lparr>we_create = Ok ''1'', we_chmod = None, we_chown = None, we_write = None,
      we_close = None, we_rename = None, we_remove = True, we_owner = (0, 0), we_now = 0\<rparr>, so_chtimes = None\<rparr>"

lemma cache_store_load_witness:
  "\<exists>fs. cache_store ex_json ''d'' ex_store [] ''m.org'' ex_policy = Some (None, fs) \<and>
     cache_load ex_json ''d'' \<lparr>lo_now = 9, lo_stat = None, lo_read = None\<rparr> fs ''m.org'' = Some (Ok ex_policy)"
proof -
  let ?r = "cache_store ex_json ''d'' ex_store [] ''m.org'' ex_policy"
  have m: "marshal ex_json ex_policy = Ok ''P''" "unmarshal ex_json ''P'' = Ok ex_policy" "Check ex_policy = None"
    by (simp_all add: ex_json_def ex_policy_def Check_def second_ns_def)
  have "\<exists>fs. ?r = Some (None, fs)"
    by (simp add: cache_store_def m domainPath_cases WriteFile_def write_tmp_def write_body_def write_finish_def
        ex_store_def getOwner_def chTime_def Let_def tmp_name_def path_dir_def path_base_def pathPrefix_def)
  then obtain fs where "?r = Some (None, fs)" by blast
  with cache_store_load [OF m this, of "\<lparr>lo_now = 9, lo_stat = None, lo_read = None\<rparr>"]
  show ?thesis by (simp add: ex_store_def ex_policy_def second_ns_def)
qed

lemma cache_load_Ok:
  "cache_load cd dir env fs domain = Some (Ok p) \<longleftrightarrow>
     (CHR ''/'' \<notin> set domain \<and> lo_stat env = None \<and> lo_read env = None \<and> Check p = None \<and>
      (\<exists>f. map_of fs (dir @ ''/'' @ pathPrefix @ domain) = Some f \<and> lo_now env \<le> f_mtime f \<and> unmarshal cd (f_data f) = Ok p))"
  by (auto simp: cache_load_def domainPath_cases split: option.split sum.split)

lemma sts_Fetch_Ok:
  "sts_Fetch env domain = Ok p \<longleftrightarrow>
     (Check p = None \<and>
      (\<exists>d txts body. idna_ToASCII (st_text env) domain = Ok d \<and>
         st_lookupTXT env (''_mta-sts.'' @ d) = Ok txts \<and> (\<exists>t \<in> set txts. prefix ''v=STSv1;'' t) \<and>
         st_http env (urlForDomain (st_fakeURL env) d) = HttpResponse 200 (Ok ''text/plain'') body \<and>
         (10 * 1024 \<le> length (r_bytes body) \<or> r_end body = EOF) \<and>
         parsePolicy (take (10 * 1024) (r_bytes body)) = Ok p))"
proof -
  have rec: "hasSTSRecord env d = Ok True \<longleftrightarrow>
      (\<exists>txts. st_lookupTXT env (''_mta-sts.'' @ d) = Ok txts \<and> (\<exists>t \<in> set txts. prefix ''v=STSv1;'' t))" for d
    by (simp add: hasSTSRecord_def HasPrefix_def list_ex_iff split: sum.split)
  have get: "httpGet env url = Ok raw \<longleftrightarrow>
      (\<exists>body. st_http env url = HttpResponse 200 (Ok ''text/plain'') body \<and>
         (10 * 1024 \<le> length (r_bytes body) \<or> r_end body = EOF) \<and> raw = take (10 * 1024) (r_bytes body))" for url raw
    by (auto simp: httpGet_def not_le split: http_reply.split sum.split)
  have "UncheckedFetch env domain = Ok p \<longleftrightarrow>
      (\<exists>d raw. idna_ToASCII (st_text env) domain = Ok d \<and> hasSTSRecord env d = Ok True \<and>
         httpGet env (urlForDomain (st_fakeURL env) d) = Ok raw \<and> parsePolicy raw = Ok p)"
    by (auto simp: UncheckedFetch_def and_then_Ok_iff split: sum.split)
  then show ?thesis unfolding rec get by (auto simp: sts_Fetch_def and_then_Ok_iff split: option.splits)
qed


lemma cache_Fetch_None: "cache_Fetch cd dir lenv env senv fs domain = None \<longleftrightarrow> CHR ''/'' \<in> set domain"
  by (auto simp: cache_Fetch_def cache_load_def cache_store_def domainPath_cases Let_def
      split: option.splits sum.splits prod.splits if_splits)

text \<open>A refresh never panics: the names it reads are those of files in the directory.\<close>

lemma refresh_total: "\<exists>fs'. cache_refresh cd dir list_err envs fs = Some fs'"
proof -
  have "\<exists>fs'. refresh_entries cd dir envs names fs = Some fs'" if "\<forall>n \<in> set names. CHR ''/'' \<notin> set n" for names fs
    using that
  proof (induction names arbitrary: fs)
    case (Cons n names)
    obtain env senv where e: "envs (drop (length pathPrefix) n) = (env, senv)" by fastforce
    have "CHR ''/'' \<notin> set (drop (length pathPrefix) n)" using Cons.prems by (auto dest: in_set_dropD)
    then have st: "\<exists>err fs'. cache_store cd dir senv fs (drop (length pathPrefix) n) p = Some (err, fs')" for p
      by (auto simp: cache_store_def domainPath_cases split: sum.split prod.split)
    have rest: "\<exists>fs'. refresh_entries cd dir envs names fs2 = Some fs'" for fs2 using Cons by simp
    show ?case
    proof (cases "sts_Fetch env (drop (length pathPrefix) n)")
      case (Inr p)
      obtain err fs2 where "cache_store cd dir senv fs (drop (length pathPrefix) n) p = Some (err, fs2)"
        using st by blast
      then show ?thesis using rest [of fs] rest [of fs2] e Inr by simp
    qed (use rest [of fs] e in simp)
  qed simp
  moreover have "\<forall>n \<in> set (ReadDir fs dir). CHR ''/'' \<notin> set n" by (simp add: ReadDir_iff)
  ultimately show ?thesis by (simp add: cache_refresh_def split: option.split)
qed

text \<open>The goroutine in the background never brings the server down, whatever the directory and the domains give it.\<close>

lemma PeriodicallyRefresh_total: "\<exists>fs'. PeriodicallyRefresh cd dir passes fs = Some fs'"
proof (induction cd dir passes fs rule: PeriodicallyRefresh.induct)
  case (2 cd dir list_err envs passes fs)
  obtain fs1 where "cache_refresh cd dir list_err envs fs = Some fs1" using refresh_total by blast
  then show ?case using 2 by simp
qed simp

end
