(* ===== verification/DomainInfo.thy ===== *)
theory DomainInfo
  imports Protoio
begin

text \<open>
  \<open>src/internal/domaininfo/domaininfo.go\<close>: the security level seen so far for each domain, in each
  direction. Levels only go up, and a message at a lower level than the recorded one is
  refused. The database is kept in memory and written through to a store of messages.
\<close>

section \<open>Security levels\<close>

datatype SecLevel = PLAIN | TLS_CLIENT | TLS_INSECURE | TLS_SECURE

text \<open>The numbers of the enumeration, which give its order.\<close>

fun sec_num :: "SecLevel \<Rightarrow> nat" where
  "sec_num PLAIN = 0"
| "sec_num TLS_CLIENT = 1"
| "sec_num TLS_INSECURE = 2"
| "sec_num TLS_SECURE = 3"

lemma sec_num_inj: "sec_num a = sec_num b \<Longrightarrow> a = b"
  by (cases a; cases b) simp_all

instantiation SecLevel :: linorder
begin

definition less_eq_SecLevel :: "SecLevel \<Rightarrow> SecLevel \<Rightarrow> bool" where
  "less_eq_SecLevel a b \<longleftrightarrow> sec_num a \<le> sec_num b"

definition less_SecLevel :: "SecLevel \<Rightarrow> SecLevel \<Rightarrow> bool" where
  "less_SecLevel a b \<longleftrightarrow> sec_num a < sec_num b"

instance
  by standard (auto simp: less_eq_SecLevel_def less_SecLevel_def dest: sec_num_inj)

end

lemma PLAIN_least [simp]: "PLAIN \<le> l"
  by (simp add: less_eq_SecLevel_def)

lemma max_PLAIN [simp]: "max PLAIN l = l" "max l PLAIN = l"
  by (simp_all add: max_absorb2 max_absorb1)

section \<open>The database\<close>

record Domain =
  dom_Name :: string
  IncomingSecLevel :: SecLevel
  OutgoingSecLevel :: SecLevel

record 's domain_db =
  di_store :: 's
  di_info :: "(string \<times> Domain) list"

abbreviation new_domain :: "string \<Rightarrow> Domain" where
  "new_domain n \<equiv> \<lparr>dom_Name = n, IncomingSecLevel = PLAIN, OutgoingSecLevel = PLAIN\<rparr>"

text \<open>The store's operations are arguments: \<open>put\<close> writes a message, \<open>get\<close> reads one.\<close>

type_synonym 's put_fn = "'s \<Rightarrow> string \<Rightarrow> Domain \<Rightarrow> string option \<times> 's"
type_synonym 's get_fn = "'s \<Rightarrow> string \<Rightarrow> (string, Domain option) result"

definition di_write :: "'s put_fn \<Rightarrow> 's domain_db \<Rightarrow> Domain \<Rightarrow> 's domain_db \<times> string option" where
  "di_write put db d =
     (case put (di_store db) (dom_Name d) d of (err, st) \<Rightarrow> (db\<lparr>di_store := st\<rparr>, err))"

text \<open>The loop of \<open>Reload\<close>; an identifier whose file is gone leaves an empty message.\<close>

fun reload_ids ::
  "'s get_fn \<Rightarrow> 's \<Rightarrow> string list \<Rightarrow> (string \<times> Domain) list \<Rightarrow> (string \<times> Domain) list \<times> string option" where
  "reload_ids get st [] info = (info, None)"
| "reload_ids get st (k # ks) info =
     (case get st k of
        Inl e \<Rightarrow> (info, Some e)
      | Inr m \<Rightarrow>
          (let d = (case m of None \<Rightarrow> new_domain [] | Some d \<Rightarrow> d)
           in reload_ids get st ks (AList.update (dom_Name d) d info)))"

definition di_Reload ::
  "'s get_fn \<Rightarrow> ('s \<Rightarrow> string list) \<Rightarrow> 's domain_db \<Rightarrow> 's domain_db \<times> string option" where
  "di_Reload get ids db =
     (let (info, err) = reload_ids get (di_store db) (ids (di_store db)) []
      in (db\<lparr>di_info := info\<rparr>, err))"

definition di_New :: "'s get_fn \<Rightarrow> ('s \<Rightarrow> string list) \<Rightarrow> 's \<Rightarrow> (string, 's domain_db) result" where
  "di_New get ids st =
     (case di_Reload get ids \<lparr>di_store = st, di_info = []\<rparr> of
        (db, None) \<Rightarrow> Ok db
      | (db, Some e) \<Rightarrow> Err e)"

text \<open>
  The deferred writes happen when the function returns, with the value the domain has then: for
  a domain that is new, and for one whose level was raised.
\<close>

definition Incoming ::
  "'s put_fn \<Rightarrow> 's domain_db \<Rightarrow> string \<Rightarrow> SecLevel \<Rightarrow> bool \<times> 's domain_db" where
  "Incoming put db domain level =
     (let (d, exists) = (case map_of (di_info db) domain of
                           Some d \<Rightarrow> (d, True) | None \<Rightarrow> (new_domain domain, False));
          db1 = (if exists then db else db\<lparr>di_info := AList.update domain d (di_info db)\<rparr>)
      in if level < IncomingSecLevel d then
           (False, if exists then db1 else fst (di_write put db1 d))
         else if level = IncomingSecLevel d then
           (True, if exists then db1 else fst (di_write put db1 d))
         else
           (let d' = d\<lparr>IncomingSecLevel := level\<rparr>;
                db2 = db1\<lparr>di_info := AList.update domain d' (di_info db1)\<rparr>
            in (True, fst (di_write put db2 d'))))"

definition Outgoing ::
  "'s put_fn \<Rightarrow> 's domain_db \<Rightarrow> string \<Rightarrow> SecLevel \<Rightarrow> bool \<times> 's domain_db" where
  "Outgoing put db domain level =
     (let (d, exists) = (case map_of (di_info db) domain of
                           Some d \<Rightarrow> (d, True) | None \<Rightarrow> (new_domain domain, False));
          db1 = (if exists then db else db\<lparr>di_info := AList.update domain d (di_info db)\<rparr>)
      in if level < OutgoingSecLevel d then
           (False, if exists then db1 else fst (di_write put db1 d))
         else if level = OutgoingSecLevel d then
           (True, if exists then db1 else fst (di_write put db1 d))
         else
           (let d' = d\<lparr>OutgoingSecLevel := level\<rparr>;
                db2 = db1\<lparr>di_info := AList.update domain d' (di_info db1)\<rparr>
            in (True, fst (di_write put db2 d'))))"

definition Clear :: "'s put_fn \<Rightarrow> 's domain_db \<Rightarrow> string \<Rightarrow> bool \<times> 's domain_db" where
  "Clear put db domain =
     (case map_of (di_info db) domain of
        None \<Rightarrow> (False, db)
      | Some d \<Rightarrow>
          (let d' = d\<lparr>IncomingSecLevel := PLAIN, OutgoingSecLevel := PLAIN\<rparr>
           in (True, fst (di_write put (db\<lparr>di_info := AList.update domain d' (di_info db)\<rparr>) d'))))"

section \<open>The levels of a domain\<close>

text \<open>What the database promises, without its representation: a level for each direction.\<close>

definition in_level :: "'s domain_db \<Rightarrow> string \<Rightarrow> SecLevel" where
  "in_level db domain =
     (case map_of (di_info db) domain of None \<Rightarrow> PLAIN | Some d \<Rightarrow> IncomingSecLevel d)"

definition out_level :: "'s domain_db \<Rightarrow> string \<Rightarrow> SecLevel" where
  "out_level db domain =
     (case map_of (di_info db) domain of None \<Rightarrow> PLAIN | Some d \<Rightarrow> OutgoingSecLevel d)"

lemma di_write_info [simp]: "di_info (fst (di_write put db d)) = di_info db"
  by (simp add: di_write_def split: prod.split)

lemma not_less_PLAIN [simp]: "\<not> l < PLAIN"
  by (simp add: less_SecLevel_def)

lemma max_raised: "\<lbrakk>\<not> l < l'; l \<noteq> l'\<rbrakk> \<Longrightarrow> max l' l = l" for l l' :: SecLevel
  by (simp add: max_def)

lemma Incoming_levels:
  assumes "Incoming put db domain level = (ok, db')"
  shows "ok \<longleftrightarrow> in_level db domain \<le> level"
    and "in_level db' = (in_level db)(domain := max (in_level db domain) level)"
    and "out_level db' = out_level db"
  using assms
  by (auto simp: Incoming_def in_level_def out_level_def Let_def update_conv' fun_eq_iff max_raised
      not_less max_absorb1 split: option.splits if_splits)

lemma Outgoing_levels:
  assumes "Outgoing put db domain level = (ok, db')"
  shows "ok \<longleftrightarrow> out_level db domain \<le> level"
    and "out_level db' = (out_level db)(domain := max (out_level db domain) level)"
    and "in_level db' = in_level db"
  using assms
  by (auto simp: Outgoing_def in_level_def out_level_def Let_def update_conv' fun_eq_iff max_raised
      not_less max_absorb1 split: option.splits if_splits)

lemma Clear_levels:
  assumes "Clear put db domain = (ok, db')"
  shows "in_level db' = (in_level db)(domain := PLAIN)" and "out_level db' = (out_level db)(domain := PLAIN)"
  using assms
  by (auto simp: Clear_def in_level_def out_level_def Let_def update_conv' fun_eq_iff
      split: option.splits if_splits)

section \<open>Sequences of operations\<close>

datatype sec_op = OpIncoming string SecLevel | OpOutgoing string SecLevel | OpClear string

fun di_step :: "'s put_fn \<Rightarrow> 's domain_db \<Rightarrow> sec_op \<Rightarrow> bool \<times> 's domain_db" where
  "di_step put db (OpIncoming d l) = Incoming put db d l"
| "di_step put db (OpOutgoing d l) = Outgoing put db d l"
| "di_step put db (OpClear d) = Clear put db d"

fun di_run :: "'s put_fn \<Rightarrow> 's domain_db \<Rightarrow> sec_op list \<Rightarrow> 's domain_db" where
  "di_run put db [] = db"
| "di_run put db (op # ops) = di_run put (snd (di_step put db op)) ops"

definition clears :: "string \<Rightarrow> sec_op list \<Rightarrow> bool" where
  "clears domain ops \<longleftrightarrow> OpClear domain \<in> set ops"

lemma di_step_mono:
  assumes "op \<noteq> OpClear domain"
  shows "in_level db domain \<le> in_level (snd (di_step put db op)) domain \<and>
         out_level db domain \<le> out_level (snd (di_step put db op)) domain"
proof -
  obtain ok db' where r: "di_step put db op = (ok, db')" by fastforce
  show ?thesis
  proof (cases op)
    case (OpIncoming d l)
    with r Incoming_levels [of put db d l ok db'] show ?thesis by simp
  next
    case (OpOutgoing d l)
    with r Outgoing_levels [of put db d l ok db'] show ?thesis by simp
  next
    case (OpClear d)
    with r assms Clear_levels [of put db d ok db'] show ?thesis by simp
  qed
qed

lemma di_run_mono:
  "\<not> clears domain ops \<Longrightarrow>
     in_level db domain \<le> in_level (di_run put db ops) domain \<and>
     out_level db domain \<le> out_level (di_run put db ops) domain"
proof (induction ops arbitrary: db)
  case (Cons op ops)
  have "op \<noteq> OpClear domain" "\<not> clears domain ops" using Cons.prems by (auto simp: clears_def)
  with Cons.IH [of "snd (di_step put db op)"] di_step_mono [of op domain db put]
  show ?case by (simp, meson order_trans)
qed simp



section \<open>Memory and disk\<close>

text \<open>The store has exactly the domains that are in memory, under their names.\<close>

definition synced :: "'s get_fn \<Rightarrow> ('s \<Rightarrow> string list) \<Rightarrow> 's domain_db \<Rightarrow> bool" where
  "synced get ids db \<longleftrightarrow>
     (\<forall>k d. map_of (di_info db) k = Some d \<longleftrightarrow> get (di_store db) k = Ok (Some d)) \<and>
     (\<forall>k d. map_of (di_info db) k = Some d \<longrightarrow> dom_Name d = k) \<and>
     (\<forall>k \<in> set (ids (di_store db)). \<exists>d. get (di_store db) k = Ok (Some d))"

locale domain_store = proto_store put get ids
  for put :: "'s put_fn" and get :: "'s get_fn" and ids :: "'s \<Rightarrow> string list"
begin

lemma synced_write:
  assumes "synced get ids db" "dom_Name d = k" "fst (put (di_store db) k d) = None"
  shows "synced get ids (fst (di_write put (db\<lparr>di_info := AList.update k d (di_info db)\<rparr>) d))"
proof -
  obtain st where put: "put (di_store db) k d = (None, st)" using assms(3) by (metis prod.collapse)
  have g: "get st k' = (if k' = k then Ok (Some d) else get (di_store db) k')" for k'
    using get_after_put [OF put, of k'] by simp
  have i: "set (ids st) = insert k (set (ids (di_store db)))" using ids_put [OF put] by simp
  show ?thesis
    using assms(1,2) put g i by (auto simp: synced_def di_write_def update_conv')
qed

lemma synced_step:
  assumes "synced get ids db" "\<And>st k d. fst (put st k d) = None"
  shows "synced get ids (snd (di_step put db op))"
proof -
  have name: "map_of (di_info db) k = Some d \<Longrightarrow> dom_Name d = k" for k d
    using assms(1) by (simp add: synced_def)
  note wr = synced_write [OF assms(1) _ assms(2)]
  show ?thesis
    using assms(1) name
    by (cases op) (auto simp: Incoming_def Outgoing_def Clear_def Let_def wr update_last split: option.splits if_splits)
qed

lemma synced_run:
  assumes "\<And>st k d. fst (put st k d) = None"
  shows "synced get ids db \<Longrightarrow> synced get ids (di_run put db ops)"
  by (induction ops arbitrary: db) (simp_all add: synced_step assms)

lemma reload_ids_synced:
  assumes "\<And>k. k \<in> set ks \<Longrightarrow> \<exists>d. get st k = Ok (Some d) \<and> dom_Name d = k"
  shows "\<exists>info'. reload_ids get st ks info = (info', None) \<and>
    (\<forall>k. map_of info' k = (if k \<in> set ks then projr (get st k) else map_of info k))"
  using assms
proof (induction ks arbitrary: info)
  case (Cons k ks)
  obtain d where d: "get st k = Ok (Some d)" "dom_Name d = k" using Cons.prems [of k] by auto
  from Cons.IH [of "AList.update k d info"] Cons.prems obtain info' where
    "reload_ids get st ks (AList.update k d info) = (info', None)"
    "\<forall>x. map_of info' x = (if x \<in> set ks then projr (get st x) else map_of (AList.update k d info) x)"
    by auto
  with d show ?case by (auto simp: update_conv')
qed simp

lemma reload_synced:
  assumes "synced get ids db"
  shows "snd (di_Reload get ids db) = None"
    and "map_of (di_info (fst (di_Reload get ids db))) = map_of (di_info db)"
proof -
  let ?st = "di_store db"
  have mem: "map_of (di_info db) k = Some d \<longleftrightarrow> get ?st k = Ok (Some d)" for k d
    using assms by (simp add: synced_def)
  have ks: "\<exists>d. get ?st k = Ok (Some d) \<and> dom_Name d = k" if "k \<in> set (ids ?st)" for k
    using assms that unfolding synced_def by blast
  from reload_ids_synced [where ks = "ids ?st" and st = ?st and info = "[]"] ks obtain info' where
    r: "reload_ids get ?st (ids ?st) [] = (info', None)"
    "\<And>k. map_of info' k = (if k \<in> set (ids ?st) then projr (get ?st k) else None)" by auto
  have "map_of info' k = map_of (di_info db) k" for k
  proof (cases "map_of (di_info db) k")
    case None
    then show ?thesis using r(2) ks mem by (metis not_None_eq)
  next
    case (Some d)
    then have "get ?st k = Ok (Some d)" by (simp add: mem)
    then show ?thesis using r(2) Some ids_get by fastforce
  qed
  then show "snd (di_Reload get ids db) = None"
    and "map_of (di_info (fst (di_Reload get ids db))) = map_of (di_info db)"
    using r(1) by (auto simp: di_Reload_def)
qed

end

interpretation fs_domains: domain_store "fs_put cd dir env" "fs_get cd dir" "\<lambda>fs. ListIDs fs dir"
  for cd dir env ..

text \<open>
  C34. What the server has learned survives a restart: if no write fails, then after any sequence
  of checks and clears, reloading the database from its directory succeeds and gives back
  exactly the levels in memory.
\<close>

theorem domaininfo_persistent:
  assumes "\<And>fs k d. fst (fs_put cd dir env fs k d) = None"
    and "synced (fs_get cd dir) (\<lambda>fs. ListIDs fs dir) db"
  shows "let db' = di_run (fs_put cd dir env) db ops;
             r = di_Reload (fs_get cd dir) (\<lambda>fs. ListIDs fs dir) db'
         in snd r = None \<and> in_level (fst r) = in_level db' \<and> out_level (fst r) = out_level db'"
proof -
  have "synced (fs_get cd dir) (\<lambda>fs. ListIDs fs dir) (di_run (fs_put cd dir env) db ops)"
    by (rule fs_domains.synced_run) (use assms in auto)
  then show ?thesis
    using fs_domains.reload_synced [of cd dir "di_run (fs_put cd dir env) db ops"]
    by (simp add: Let_def in_level_def out_level_def fun_eq_iff)
qed

text \<open>An encoding of domains, and a file system on which every write works.\<close>

fun ex_char :: "SecLevel \<Rightarrow> char" where
  "ex_char PLAIN = CHR ''0''"
| "ex_char TLS_CLIENT = CHR ''1''"
| "ex_char TLS_INSECURE = CHR ''2''"
| "ex_char TLS_SECURE = CHR ''3''"

fun ex_level :: "char \<Rightarrow> SecLevel" where
  "ex_level c = (if c = CHR ''0'' then PLAIN else if c = CHR ''1'' then TLS_CLIENT
     else if c = CHR ''2'' then TLS_INSECURE else TLS_SECURE)"

definition ex_codec :: "Domain lawful_codec" where
  "ex_codec = Abs_lawful_codec
     \<lparr>marshal = (\<lambda>d. Ok ([ex_char (IncomingSecLevel d), ex_char (OutgoingSecLevel d)] @ dom_Name d)),
      unmarshal = (\<lambda>s. case s of
          a # b # n \<Rightarrow> Ok \<lparr>dom_Name = n, IncomingSecLevel = ex_level a, OutgoingSecLevel = ex_level b\<rparr>
        | _ \<Rightarrow> Err ''short'')\<rparr>"

lemma ex_codec_Rep:
  "Rep_lawful_codec ex_codec =
     \<lparr>marshal = (\<lambda>d. Ok ([ex_char (IncomingSecLevel d), ex_char (OutgoingSecLevel d)] @ dom_Name d)),
      unmarshal = (\<lambda>s. case s of
          a # b # n \<Rightarrow> Ok \<lparr>dom_Name = n, IncomingSecLevel = ex_level a, OutgoingSecLevel = ex_level b\<rparr>
        | _ \<Rightarrow> Err ''short'')\<rparr>"
proof -
  have "ex_level (ex_char l) = l" for l by (cases l) simp_all
  then show ?thesis
    unfolding ex_codec_def by (intro Abs_lawful_codec_inverse) (simp add: codec_ok_def del: ex_level.simps)
qed

definition ex_env :: "Domain write_envs" where
  "ex_env fs k m = \<lparr>we_create = Ok ''1'', we_chmod = None, we_chown = None, we_write = None,
     we_close = None, we_rename = None, we_remove = True, we_owner = (0, 0), we_now = 0\<rparr>"

lemma domaininfo_persistent_witness:
  "let put = fs_put ex_codec ''di'' ex_env;
       db = di_run put \<lparr>di_store = [], di_info = []\<rparr> [OpIncoming ''d'' TLS_CLIENT];
       r = di_Reload (fs_get ex_codec ''di'') (\<lambda>fs. ListIDs fs ''di'') db
   in snd r = None \<and> in_level (fst r) ''d'' = TLS_CLIENT"
proof -
  let ?put = "fs_put ex_codec ''di'' ex_env"
  let ?db = "\<lparr>di_store = [], di_info = []\<rparr>"
  have w: "fst (?put fs k d) = None" for fs k d
    by (simp add: fs_put_def store_Put_def ex_codec_Rep WriteTextMessage_def WriteFile_def ex_env_def
        write_tmp_def write_body_def write_finish_def Let_def split: prod.split)
  have s: "synced (fs_get ex_codec ''di'') (\<lambda>fs. ListIDs fs ''di'') ?db"
    by (simp add: synced_def fs_get_def store_Get_def ReadTextMessage_def ListIDs_def ReadDir_def
        List.map_filter_def)
  have "in_level (di_run ?put ?db [OpIncoming ''d'' TLS_CLIENT]) ''d'' = TLS_CLIENT"
    using Incoming_levels(2) [OF prod.collapse [symmetric], of ?put ?db "''d''" TLS_CLIENT]
    by (simp add: in_level_def)
  with domaininfo_persistent [OF w s, of "[OpIncoming ''d'' TLS_CLIENT]"]
  show ?thesis unfolding Let_def by simp
qed

end
