(* ===== verification/Aliases.thy ===== *)
theory Aliases
  imports Normalize GoIO "HOL-Library.AList"
begin

text \<open>
  The aliases resolver, \<open>src/internal/aliases/aliases.go\<close>: the parsing of aliases files and of
  the right-hand sides of aliases, the cleaning of addresses, the lookup with the resolve hook,
  and the recursive resolution of an address into its final recipients. The file system and
  the hook's program are parameters; tracing and counters are left out.
\<close>

section \<open>Recipients and the resolver\<close>

datatype RType = EMAIL | PIPE | FORWARD

record Recipient =
  r_Addr :: string
  r_Via :: "string list"
  r_Type :: RType

datatype alias_error =
    ErrRecursionLimitExceeded
  | HookError string
  | UserDBError string
  | ParseError string
  | LineError nat string
  | FileError string

definition recursionLimit :: nat where
  "recursionLimit = 10"

text \<open>What running the hook's program does: it is absent, fails, or prints something.\<close>

datatype hook_outcome = HookNotExist | HookFailed string | HookOutput string

text \<open>
  The Go maps from addresses and domains are association lists. The order of the list
  \<open>files\<close> is the order in which a loop over the map visits the domains.
\<close>

type_synonym alias_map = "(string \<times> Recipient list) list"

record Resolver =
  SuffixSep :: string
  DropChars :: string
  ResolveHook :: string
  userExistsInDB :: "string \<Rightarrow> string \<Rightarrow> (string, bool) result"
  files :: "(string \<times> string list) list"
  al_domains :: "string list"
  al_aliases :: alias_map

definition NewResolver :: "(string \<Rightarrow> string \<Rightarrow> (string, bool) result) \<Rightarrow> Resolver" where
  "NewResolver userExists =
     \<lparr>SuffixSep = [], DropChars = [], ResolveHook = [], userExistsInDB = userExists,
      files = [], al_domains = [], al_aliases = []\<rparr>"

section \<open>Parsing the right-hand side of an alias\<close>

fun via_servers :: "string list \<Rightarrow> (alias_error, string list) result" where
  "via_servers [] = Ok []"
| "via_servers (v # vs) =
     (let server = TrimSpace v in
      if server = [] then Err (ParseError ''empty server in via list'')
      else and_then (via_servers vs) (\<lambda>via. Ok (server # via)))"

definition parseForward :: "string \<Rightarrow> (alias_error, string \<times> string list) result" where
  "parseForward rawalias =
     (let (addr, viaS, found) = Cut rawalias '' via '' in
      if \<not> found then Err (ParseError ''via separator not found'')
      else
        (let addr' = TrimSpace addr in
         if addr' = [] then Err (ParseError ''forwarding alias is missing the address'')
         else and_then (via_servers (Split viaS ''/'')) (\<lambda>via. Ok (addr', via))))"

text \<open>One element of the comma separated list; \<open>a\<close> is already trimmed and not empty.\<close>

definition parse_rcpt :: "textlib \<Rightarrow> string \<Rightarrow> string \<Rightarrow> (alias_error, Recipient) result" where
  "parse_rcpt tx domain a =
     and_then
       (if Contains a '' via '' then
          and_then (parseForward a)
            (\<lambda>(addr, via). Ok \<lparr>r_Addr = addr, r_Via = via, r_Type = FORWARD\<rparr>)
        else Ok \<lparr>r_Addr = a, r_Via = [], r_Type = EMAIL\<rparr>)
       (\<lambda>r. let addr = (if Contains (r_Addr r) ''@'' then r_Addr r else r_Addr r @ ''@'' @ domain)
            in case Addr tx addr of
                 (_, Some e) \<Rightarrow> Err (ParseError (''normalizing address: '' @ e))
               | (addr', None) \<Rightarrow> Ok (r\<lparr>r_Addr := addr'\<rparr>))"

fun parse_rcpts :: "textlib \<Rightarrow> string \<Rightarrow> string list \<Rightarrow> (alias_error, Recipient list) result" where
  "parse_rcpts tx domain [] = Ok []"
| "parse_rcpts tx domain (raw # raws) =
     (let a = TrimSpace raw in
      if a = [] then parse_rcpts tx domain raws
      else and_then (parse_rcpt tx domain a)
             (\<lambda>r. and_then (parse_rcpts tx domain raws) (\<lambda>rs. Ok (r # rs))))"

definition parseRHS :: "textlib \<Rightarrow> string \<Rightarrow> string \<Rightarrow> (alias_error, Recipient list) result" where
  "parseRHS tx rawalias domain =
     (case rawalias of
        [] \<Rightarrow> Ok []
      | c # rest \<Rightarrow>
          if c = CHR ''|'' then
            (let cmd = TrimSpace rest in
             if cmd = [] then Err (ParseError ''the pipe alias is missing a command'')
             else Ok [\<lparr>r_Addr = cmd, r_Via = [], r_Type = PIPE\<rparr>])
          else parse_rcpts tx domain (Split rawalias '',''))"

section \<open>Cleaning addresses\<close>

fun removeAllAfter_seps :: "string \<Rightarrow> string list \<Rightarrow> string" where
  "removeAllAfter_seps s [] = s"
| "removeAllAfter_seps s (c # cs) =
     (if c = [] then removeAllAfter_seps s cs
      else case Index s c of
          None \<Rightarrow> removeAllAfter_seps s cs
        | Some i \<Rightarrow> removeAllAfter_seps (take i s) cs)"

definition removeAllAfter :: "string \<Rightarrow> string \<Rightarrow> string" where
  "removeAllAfter s seps = removeAllAfter_seps s (explode_runes seps)"

definition removeChars :: "string \<Rightarrow> string \<Rightarrow> string" where
  "removeChars s chars = fold (\<lambda>c s. ReplaceAll s c []) (explode_runes chars) s"

text \<open>The user up to the first separator rune, and the rest of it.\<close>

definition split_at_sep :: "string \<Rightarrow> string \<Rightarrow> (nat \<times> string) list \<times> string" where
  "split_at_sep user seps =
     (let cs = chunks user; head = takeWhile (\<lambda>c. fst c \<notin> set (runes seps)) cs
      in (head, concat (map snd (drop (length head) cs))))"

definition RemoveDropCharacters :: "textlib \<Rightarrow> Resolver \<Rightarrow> string \<Rightarrow> string" where
  "RemoveDropCharacters tx v addr =
     (let (user, domain) = Split_addr addr;
          (head, suffix) = split_at_sep user (SuffixSep v);
          nu = concat (map (encode_rune \<circ> fst)
                 (filter (\<lambda>c. fst c \<notin> set (runes (DropChars v))) head)) @ suffix
      in fst (User tx nu) @ ''@'' @ domain)"

definition RemoveDropsAndSuffix :: "textlib \<Rightarrow> Resolver \<Rightarrow> string \<Rightarrow> string" where
  "RemoveDropsAndSuffix tx v addr =
     (let (user, domain) = Split_addr addr;
          user' = removeChars (removeAllAfter user (SuffixSep v)) (DropChars v)
      in fst (User tx user') @ ''@'' @ domain)"

section \<open>Lookups\<close>

definition runResolveHook ::
  "textlib \<Rightarrow> (string \<Rightarrow> hook_outcome) \<Rightarrow> Resolver \<Rightarrow> string \<Rightarrow> (alias_error, Recipient list) result" where
  "runResolveHook tx hook v addr =
     (if ResolveHook v = [] then Ok []
      else case hook addr of
          HookNotExist \<Rightarrow> Ok []
        | HookFailed e \<Rightarrow> Err (HookError e)
        | HookOutput out \<Rightarrow> parseRHS tx (TrimSpace out) (DomainOf addr))"

definition lookup ::
  "textlib \<Rightarrow> (string \<Rightarrow> hook_outcome) \<Rightarrow> Resolver \<Rightarrow> string \<Rightarrow> (alias_error, Recipient list) result" where
  "lookup tx hook v addr =
     (let rcpts = (case map_of (al_aliases v) (RemoveDropCharacters tx v addr) of
                     None \<Rightarrow> [] | Some rs \<Rightarrow> rs)
      in and_then (runResolveHook tx hook v addr) (\<lambda>hr. Ok (rcpts @ hr)))"

definition found :: "(alias_error, Recipient list) result \<Rightarrow> bool" where
  "found r = (case r of Inl _ \<Rightarrow> False | Inr rs \<Rightarrow> rs \<noteq> [])"

definition Exists :: "textlib \<Rightarrow> (string \<Rightarrow> hook_outcome) \<Rightarrow> Resolver \<Rightarrow> string \<Rightarrow> bool" where
  "Exists tx hook v addr =
     (if found (lookup tx hook v addr) then True
      else
        (let addr' = RemoveDropsAndSuffix tx v addr in
         if found (lookup tx hook v addr') then True
         else found (lookup tx hook v (''*@'' @ DomainOf addr'))))"

section \<open>Resolution\<close>

text \<open>The loop over the recipients an address stands for; \<open>rec\<close> is the recursive call.\<close>

definition subst_star :: "string \<Rightarrow> Recipient \<Rightarrow> Recipient" where
  "subst_star user r =
     (if UserOf (r_Addr r) = ''*'' then r\<lparr>r_Addr := user @ ''@'' @ DomainOf (r_Addr r)\<rparr> else r)"

fun resolve_rcpts ::
  "(string \<Rightarrow> (alias_error, Recipient list) result) \<Rightarrow> string \<Rightarrow> Recipient list
     \<Rightarrow> (alias_error, Recipient list) result" where
  "resolve_rcpts rec user [] = Ok []"
| "resolve_rcpts rec user (r # rs) =
     (if r_Type r = PIPE then and_then (resolve_rcpts rec user rs) (\<lambda>ret. Ok (r # ret))
      else
        (let r' = subst_star user r in
         if r_Type r' = FORWARD then and_then (resolve_rcpts rec user rs) (\<lambda>ret. Ok (r' # ret))
         else and_then (rec (r_Addr r'))
                (\<lambda>ar. and_then (resolve_rcpts rec user rs) (\<lambda>ret. Ok (ar @ ret)))))"

abbreviation email_rcpt :: "string \<Rightarrow> Recipient" where
  "email_rcpt a \<equiv> \<lparr>r_Addr = a, r_Via = [], r_Type = EMAIL\<rparr>"

text \<open>
  What an address stands for before the recursion: itself (it is not local, the user exists,
  or there is nothing for it), or the recipients to go on with.
\<close>

datatype alias_step = Final string | Expand "Recipient list"

definition resolve_step ::
  "textlib \<Rightarrow> (string \<Rightarrow> hook_outcome) \<Rightarrow> Resolver \<Rightarrow> string \<Rightarrow> (alias_error, alias_step) result" where
  "resolve_step tx hook v addr =
     (let (user, domain) = Split_addr addr in
      if domain \<notin> set (al_domains v) then Ok (Final addr)
      else
        and_then (lookup tx hook v addr) (\<lambda>rcpts.
          if rcpts \<noteq> [] then Ok (Expand rcpts)
          else
            (let addr' = RemoveDropsAndSuffix tx v addr in
             and_then (lookup tx hook v addr') (\<lambda>rcpts.
               if rcpts \<noteq> [] then Ok (Expand rcpts)
               else
                 (case userExistsInDB v user domain of
                    Inl e \<Rightarrow> Err (UserDBError e)
                  | Inr ok \<Rightarrow>
                      if ok then Ok (Final addr')
                      else
                        and_then (lookup tx hook v (''*@'' @ domain)) (\<lambda>catchAll.
                          if catchAll \<noteq> [] then Ok (Expand catchAll)
                          else Ok (Final addr')))))))"

function resolve ::
  "textlib \<Rightarrow> (string \<Rightarrow> hook_outcome) \<Rightarrow> Resolver \<Rightarrow> nat \<Rightarrow> string
     \<Rightarrow> (alias_error, Recipient list) result" where
  "resolve tx hook v rcount addr =
     (if recursionLimit \<le> rcount then Err ErrRecursionLimitExceeded
      else
        (case resolve_step tx hook v addr of
           Inl e \<Rightarrow> Err e
         | Inr (Final a) \<Rightarrow> Ok [email_rcpt a]
         | Inr (Expand rcpts) \<Rightarrow>
             resolve_rcpts (resolve tx hook v (Suc rcount)) (UserOf addr) rcpts))"
  by pat_completeness auto
termination
  by (relation "measure (\<lambda>(tx, hook, v, rcount, addr). recursionLimit - rcount)") auto

declare resolve.simps [simp del]

definition Resolve ::
  "textlib \<Rightarrow> (string \<Rightarrow> hook_outcome) \<Rightarrow> Resolver \<Rightarrow> string \<Rightarrow> (alias_error, Recipient list) result" where
  "Resolve tx hook v addr = resolve tx hook v 0 addr"

section \<open>Aliases files\<close>

fun parse_lines ::
  "textlib \<Rightarrow> Resolver \<Rightarrow> string \<Rightarrow> nat \<Rightarrow> string list \<Rightarrow> alias_map \<Rightarrow> (alias_error, alias_map) result" where
  "parse_lines tx v domain i [] aliases = Ok aliases"
| "parse_lines tx v domain i (text # ls) aliases =
     (let line = TrimSpace text in
      if line = [] \<or> HasPrefix line ''#'' then parse_lines tx v domain (Suc i) ls aliases
      else
        (case SplitN2 line '':'' of
           [lhs, rhs] \<Rightarrow>
             (let addr = TrimSpace lhs; rawalias = TrimSpace rhs in
              if addr = [] \<or> rawalias = [] then Err (LineError i ''missing address or alias'')
              else if Contains addr ''@'' then Err (LineError i ''left-side: cannot contain @'')
              else
                (let addr' = fst (Addr tx (RemoveDropCharacters tx v (addr @ ''@'' @ domain))) in
                 case parseRHS tx rawalias domain of
                   Inl _ \<Rightarrow> Err (LineError i ''right-side'')
                 | Inr rs \<Rightarrow> parse_lines tx v domain (Suc i) ls (AList.update addr' rs aliases)))
         | _ \<Rightarrow> Err (LineError i ''missing : in line'')))"

definition parseReader ::
  "textlib \<Rightarrow> Resolver \<Rightarrow> string \<Rightarrow> reader \<Rightarrow> (alias_error, alias_map) result" where
  "parseReader tx v domain r =
     (let (ls, long) = scan_lines (r_bytes r) in
      and_then (parse_lines tx v domain 1 ls []) (\<lambda>aliases.
        if long then Err (FileError ''bufio.Scanner: token too long'')
        else if r_end r \<noteq> EOF then Err (FileError ''read error'')
        else Ok aliases))"

text \<open>The file system: what opening a path gives.\<close>

datatype open_result = NotExist | OpenFailed string | Opened reader

datatype parse_file_result = FileMissing | FileFailed alias_error | FileParsed alias_map

definition parseFile ::
  "textlib \<Rightarrow> (string \<Rightarrow> open_result) \<Rightarrow> Resolver \<Rightarrow> string \<Rightarrow> string \<Rightarrow> parse_file_result" where
  "parseFile tx fs v domain path =
     (case fs path of
        NotExist \<Rightarrow> FileMissing
      | OpenFailed e \<Rightarrow> FileFailed (FileError e)
      | Opened r \<Rightarrow>
          (case parseReader tx v domain r of
             Inl e \<Rightarrow> FileFailed e
           | Inr aliases \<Rightarrow> FileParsed aliases))"

definition AddDomain :: "Resolver \<Rightarrow> string \<Rightarrow> Resolver" where
  "AddDomain v domain = v\<lparr>al_domains := List.insert domain (al_domains v)\<rparr>"

text \<open>The loop that adds parsed aliases over the previous ones.\<close>

definition merge_aliases :: "alias_map \<Rightarrow> alias_map \<Rightarrow> alias_map" where
  "merge_aliases new old = fold (\<lambda>(addr, rs). AList.update addr rs) new old"

definition AddAliasesFile ::
  "textlib \<Rightarrow> (string \<Rightarrow> open_result) \<Rightarrow> Resolver \<Rightarrow> string \<Rightarrow> string
     \<Rightarrow> Resolver \<times> (alias_error, nat) result" where
  "AddAliasesFile tx fs v domain path =
     (let paths = (case map_of (files v) domain of None \<Rightarrow> [] | Some ps \<Rightarrow> ps);
          v1 = v\<lparr>files := AList.update domain (paths @ [path]) (files v),
                 al_domains := List.insert domain (al_domains v)\<rparr>
      in case parseFile tx fs v1 domain path of
           FileMissing \<Rightarrow> (v1, Ok 0)
         | FileFailed e \<Rightarrow> (v1, Err e)
         | FileParsed aliases \<Rightarrow>
             (v1\<lparr>al_aliases := merge_aliases aliases (al_aliases v1)\<rparr>, Ok (length aliases)))"

fun reload_paths ::
  "textlib \<Rightarrow> (string \<Rightarrow> open_result) \<Rightarrow> Resolver \<Rightarrow> string \<Rightarrow> string list \<Rightarrow> alias_map
     \<Rightarrow> (alias_error, alias_map) result" where
  "reload_paths tx fs v domain [] acc = Ok acc"
| "reload_paths tx fs v domain (path # paths) acc =
     (case parseFile tx fs v domain path of
        FileMissing \<Rightarrow> reload_paths tx fs v domain paths acc
      | FileFailed e \<Rightarrow> Err e
      | FileParsed aliases \<Rightarrow> reload_paths tx fs v domain paths (merge_aliases aliases acc))"

fun reload_files ::
  "textlib \<Rightarrow> (string \<Rightarrow> open_result) \<Rightarrow> Resolver \<Rightarrow> (string \<times> string list) list \<Rightarrow> alias_map
     \<Rightarrow> (alias_error, alias_map) result" where
  "reload_files tx fs v [] acc = Ok acc"
| "reload_files tx fs v ((domain, paths) # ds) acc =
     and_then (reload_paths tx fs v domain paths acc) (reload_files tx fs v ds)"

definition Reload ::
  "textlib \<Rightarrow> (string \<Rightarrow> open_result) \<Rightarrow> Resolver \<Rightarrow> Resolver \<times> (alias_error, unit) result" where
  "Reload tx fs v =
     (case reload_files tx fs v (files v) [] of
        Inl e \<Rightarrow> (v, Err e)
      | Inr newAliases \<Rightarrow> (v\<lparr>al_aliases := newAliases\<rparr>, Ok ()))"

section \<open>What resolution computes\<close>

text \<open>
  The specification: the recipients an address stands for are those reached in the graph of
  aliases. It knows nothing of the order of the traversal nor of its depth limit.
\<close>

inductive resolves_to ::
  "textlib \<Rightarrow> (string \<Rightarrow> hook_outcome) \<Rightarrow> Resolver \<Rightarrow> string \<Rightarrow> Recipient \<Rightarrow> bool"
  for tx hook v where
  final: "resolve_step tx hook v addr = Ok (Final a) \<Longrightarrow> resolves_to tx hook v addr (email_rcpt a)"
| pipe: "\<lbrakk>resolve_step tx hook v addr = Ok (Expand rs); r \<in> set rs; r_Type r = PIPE\<rbrakk>
    \<Longrightarrow> resolves_to tx hook v addr r"
| forward: "\<lbrakk>resolve_step tx hook v addr = Ok (Expand rs); r \<in> set rs; r_Type r = FORWARD\<rbrakk>
    \<Longrightarrow> resolves_to tx hook v addr (subst_star (UserOf addr) r)"
| email: "\<lbrakk>resolve_step tx hook v addr = Ok (Expand rs); r \<in> set rs; r_Type r = EMAIL;
      resolves_to tx hook v (r_Addr (subst_star (UserOf addr) r)) r'\<rbrakk>
    \<Longrightarrow> resolves_to tx hook v addr r'"

lemma resolves_to_final:
  "resolve_step tx hook v addr = Ok (Final a) \<Longrightarrow> resolves_to tx hook v addr r \<longleftrightarrow> r = email_rcpt a"
  by (subst resolves_to.simps) auto

lemma resolves_to_expand:
  "resolve_step tx hook v addr = Ok (Expand rcpts) \<Longrightarrow>
     resolves_to tx hook v addr r \<longleftrightarrow>
       (\<exists>x \<in> set rcpts. (r_Type x = PIPE \<and> r = x) \<or> (r_Type x = FORWARD \<and> r = subst_star (UserOf addr) x) \<or>
        (r_Type x = EMAIL \<and> resolves_to tx hook v (r_Addr (subst_star (UserOf addr) x)) r))"
  by (subst resolves_to.simps) auto

text \<open>One step of the graph, from an address to another.\<close>

definition alias_edge ::
  "textlib \<Rightarrow> (string \<Rightarrow> hook_outcome) \<Rightarrow> Resolver \<Rightarrow> string \<Rightarrow> string \<Rightarrow> bool" where
  "alias_edge tx hook v a b \<longleftrightarrow>
     (\<exists>rs r. resolve_step tx hook v a = Ok (Expand rs) \<and> r \<in> set rs \<and> r_Type r = EMAIL \<and>
             b = r_Addr (subst_star (UserOf a) r))"

lemma subst_star_Type [simp]: "r_Type (subst_star user r) = r_Type r"
  by (simp add: subst_star_def)

text \<open>The loop succeeds when every recursive call does, and collects what they return.\<close>

definition rcpt_yield ::
  "(string \<Rightarrow> (alias_error, Recipient list) result) \<Rightarrow> string \<Rightarrow> Recipient \<Rightarrow> (alias_error, Recipient list) result" where
  "rcpt_yield rec user r =
     (case r_Type r of
        PIPE \<Rightarrow> Ok [r]
      | FORWARD \<Rightarrow> Ok [subst_star user r]
      | EMAIL \<Rightarrow> rec (r_Addr (subst_star user r)))"

lemma resolve_rcpts_Cons:
  "resolve_rcpts rec user (r # rs) =
     and_then (rcpt_yield rec user r)
       (\<lambda>ar. and_then (resolve_rcpts rec user rs) (\<lambda>ret. Ok (ar @ ret)))"
  by (cases "r_Type r") (simp_all add: rcpt_yield_def Let_def)

lemma resolve_rcpts_Ok:
  assumes "resolve_rcpts rec user rs = Ok ret"
  shows "\<forall>r \<in> set rs. \<exists>ar. rcpt_yield rec user r = Ok ar"
    and "set ret = (\<Union>r \<in> set rs. case rcpt_yield rec user r of Inl _ \<Rightarrow> {} | Inr ar \<Rightarrow> set ar)"
proof -
  have "(\<forall>r \<in> set rs. \<exists>ar. rcpt_yield rec user r = Ok ar) \<and>
    set ret = (\<Union>r \<in> set rs. case rcpt_yield rec user r of Inl _ \<Rightarrow> {} | Inr ar \<Rightarrow> set ar)"
    using assms
  proof (induction rs arbitrary: ret)
    case (Cons r rs)
    then obtain ar ret' where "rcpt_yield rec user r = Ok ar" "resolve_rcpts rec user rs = Ok ret'"
      "ret = ar @ ret'"
      by (auto simp: resolve_rcpts_Cons and_then_Ok_iff simp del: resolve_rcpts.simps)
    with Cons.IH [of ret'] show ?case by auto
  qed simp
  then show "\<forall>r \<in> set rs. \<exists>ar. rcpt_yield rec user r = Ok ar"
    and "set ret = (\<Union>r \<in> set rs. case rcpt_yield rec user r of Inl _ \<Rightarrow> {} | Inr ar \<Rightarrow> set ar)"
    by blast+
qed

lemma resolve_rcpts_total:
  "\<forall>r \<in> set rs. \<exists>ar. rcpt_yield rec user r = Ok ar \<Longrightarrow> \<exists>ret. resolve_rcpts rec user rs = Ok ret"
proof (induction rs)
  case (Cons r rs)
  then show ?case by (auto simp: resolve_rcpts_Cons simp del: resolve_rcpts.simps)
qed simp

lemma resolve_Ok_cases:
  assumes "resolve tx hook v n addr = Ok rs"
  obtains (final) a where "n < recursionLimit" "resolve_step tx hook v addr = Ok (Final a)"
    "rs = [email_rcpt a]"
  | (expand) rcpts where "n < recursionLimit" "resolve_step tx hook v addr = Ok (Expand rcpts)"
    "resolve_rcpts (resolve tx hook v (Suc n)) (UserOf addr) rcpts = Ok rs"
  using assms
  by (auto simp: resolve.simps [of tx hook v n addr] split: if_splits sum.splits alias_step.splits)

lemma resolve_refines:
  "resolve tx hook v n addr = Ok rs \<Longrightarrow> r \<in> set rs \<longleftrightarrow> resolves_to tx hook v addr r"
proof (induction tx hook v n addr arbitrary: rs r rule: resolve.induct)
  case (1 tx hook v n addr)
  from "1.prems" show ?case
  proof (cases rule: resolve_Ok_cases)
    case (final a)
    then show ?thesis by (simp add: resolves_to_final)
  next
    case (expand rcpts)
    let ?y = "rcpt_yield (resolve tx hook v (Suc n)) (UserOf addr)"
    note Ok = resolve_rcpts_Ok [OF expand(3)]
    have IH: "resolve tx hook v (Suc n) a = Ok as \<Longrightarrow> r \<in> set as \<longleftrightarrow> resolves_to tx hook v a r" for a as r
      using "1.IH" [of "Expand rcpts" rcpts a as r] expand(1,2) by simp
    have yield: "r \<in> (case ?y x of Inl _ \<Rightarrow> {} | Inr ar \<Rightarrow> set ar) \<longleftrightarrow>
        (r_Type x = PIPE \<and> r = x) \<or> (r_Type x = FORWARD \<and> r = subst_star (UserOf addr) x) \<or>
        (r_Type x = EMAIL \<and> resolves_to tx hook v (r_Addr (subst_star (UserOf addr) x)) r)"
      if "x \<in> set rcpts" for x
      using Ok(1) that IH by (cases "r_Type x") (auto simp: rcpt_yield_def)
    have "r \<in> set rs \<longleftrightarrow> (\<exists>x \<in> set rcpts. r \<in> (case ?y x of Inl _ \<Rightarrow> {} | Inr ar \<Rightarrow> set ar))"
      unfolding Ok(2) by simp
    also have "\<dots> \<longleftrightarrow> resolves_to tx hook v addr r"
      unfolding resolves_to_expand [OF expand(2)] using yield by (intro bex_cong) simp_all
    finally show ?thesis .
  qed
qed

lemma resolve_Ok_edge:
  assumes "resolve tx hook v n a = Ok rs" "alias_edge tx hook v a b"
  shows "n < recursionLimit \<and> (\<exists>rs. resolve tx hook v (Suc n) b = Ok rs)"
  using assms(1)
proof (cases rule: resolve_Ok_cases)
  case (expand rcpts)
  with assms(2) obtain r where "r \<in> set rcpts" "r_Type r = EMAIL" "b = r_Addr (subst_star (UserOf a) r)"
    by (auto simp: alias_edge_def)
  with expand resolve_rcpts_Ok(1) [OF expand(3)] show ?thesis by (auto simp: rcpt_yield_def)
qed (use assms(2) in \<open>simp add: alias_edge_def\<close>)

lemma resolve_Ok_path:
  "\<lbrakk>(alias_edge tx hook v ^^ k) a b; resolve tx hook v n a = Ok rs\<rbrakk>
     \<Longrightarrow> n + k \<le> recursionLimit \<and> (\<exists>rs. resolve tx hook v (n + k) b = Ok rs)"
proof (induction k arbitrary: b)
  case 0
  then show ?case by (auto elim: resolve_Ok_cases)
next
  case (Suc k)
  then obtain c where c: "(alias_edge tx hook v ^^ k) a c" "alias_edge tx hook v c b" by auto
  with Suc obtain rs where "resolve tx hook v (n + k) c = Ok rs" by blast
  with resolve_Ok_edge [OF this c(2)] show ?case by simp
qed

lemma cycle_paths:
  assumes "R\<^sup>+\<^sup>+ a a"
  shows "\<exists>b. (R ^^ k) a b \<and> R\<^sup>*\<^sup>* b a"
proof (induction k)
  case (Suc k)
  then obtain b where b: "(R ^^ k) a b" "R\<^sup>*\<^sup>* b a" by blast
  then have "R\<^sup>+\<^sup>+ b a" using assms by (rule_tac rtranclp_tranclp_tranclp)
  then obtain c where "R b c" "R\<^sup>*\<^sup>* c a" by (metis tranclpD)
  with b(1) show ?case by (intro exI [of _ c]) auto
qed (use assms in auto)

text \<open>The depth within which the graph from an address ends.\<close>

fun alias_depth :: "textlib \<Rightarrow> (string \<Rightarrow> hook_outcome) \<Rightarrow> Resolver \<Rightarrow> nat \<Rightarrow> string \<Rightarrow> bool" where
  "alias_depth tx hook v 0 addr \<longleftrightarrow> False"
| "alias_depth tx hook v (Suc n) addr \<longleftrightarrow>
     (case resolve_step tx hook v addr of
        Inl _ \<Rightarrow> False
      | Inr (Final a) \<Rightarrow> True
      | Inr (Expand rcpts) \<Rightarrow>
          (\<forall>r \<in> set rcpts. r_Type r = EMAIL \<longrightarrow>
             alias_depth tx hook v n (r_Addr (subst_star (UserOf addr) r))))"

lemma resolve_Ok_iff_depth:
  "k + n = recursionLimit \<Longrightarrow>
     (\<exists>rs. resolve tx hook v n addr = Ok rs) \<longleftrightarrow> alias_depth tx hook v k addr"
proof (induction k arbitrary: n addr)
  case 0
  then show ?case by (simp add: resolve.simps)
next
  case (Suc k)
  then have IH: "(\<exists>rs. resolve tx hook v (Suc n) a = Ok rs) \<longleftrightarrow> alias_depth tx hook v k a" for a
    by simp
  have n: "\<not> recursionLimit \<le> n" using Suc.prems by simp
  show ?case
  proof (cases "resolve_step tx hook v addr")
    case (Inr s)
    show ?thesis
    proof (cases s)
      case (Expand rcpts)
      let ?y = "rcpt_yield (resolve tx hook v (Suc n)) (UserOf addr)"
      have y: "(\<exists>ar. ?y r = Ok ar) \<longleftrightarrow>
          (r_Type r = EMAIL \<longrightarrow> alias_depth tx hook v k (r_Addr (subst_star (UserOf addr) r)))" for r
        using IH by (cases "r_Type r") (simp_all add: rcpt_yield_def)
      have "(\<exists>rs. resolve_rcpts (resolve tx hook v (Suc n)) (UserOf addr) rcpts = Ok rs)
          \<longleftrightarrow> (\<forall>r \<in> set rcpts. \<exists>ar. ?y r = Ok ar)"
        using resolve_rcpts_Ok(1) resolve_rcpts_total by blast
      with Expand Inr n y show ?thesis by (simp add: resolve.simps)
    qed (use Inr n in \<open>simp add: resolve.simps\<close>)
  qed (use n in \<open>simp add: resolve.simps\<close>)
qed


text \<open>
  C19. Resolution succeeds exactly when the alias graph from the address ends within ten levels and
  no lookup on the way fails; in every other case, and in particular when the aliases form a
  loop, it ends with an error instead of recursing forever.
\<close>

theorem Resolve_succeeds_iff:
  "((\<exists>rs. Resolve tx hook v addr = Ok rs) \<longleftrightarrow> alias_depth tx hook v 10 addr) \<and>
   ((alias_edge tx hook v)\<^sup>+\<^sup>+ addr addr \<longrightarrow> (\<exists>e. Resolve tx hook v addr = Err e))"
proof
  show "(\<exists>rs. Resolve tx hook v addr = Ok rs) \<longleftrightarrow> alias_depth tx hook v 10 addr"
    unfolding Resolve_def by (rule resolve_Ok_iff_depth) (simp add: recursionLimit_def)
  show "(alias_edge tx hook v)\<^sup>+\<^sup>+ addr addr \<longrightarrow> (\<exists>e. Resolve tx hook v addr = Err e)"
  proof
    assume "(alias_edge tx hook v)\<^sup>+\<^sup>+ addr addr"
    then obtain b where b: "(alias_edge tx hook v ^^ Suc recursionLimit) addr b"
      using cycle_paths [of _ addr "Suc recursionLimit"] by blast
    show "\<exists>e. Resolve tx hook v addr = Err e"
    proof (cases "Resolve tx hook v addr")
      case (Inr rs)
      then show ?thesis using resolve_Ok_path [OF b, of 0 rs] by (simp add: Resolve_def)
    qed simp
  qed
qed

section \<open>What resolution returns\<close>

text \<open>A recipient that needs no further resolution.\<close>

definition settled :: "textlib \<Rightarrow> (string \<Rightarrow> hook_outcome) \<Rightarrow> Resolver \<Rightarrow> Recipient \<Rightarrow> bool" where
  "settled tx hook v r \<longleftrightarrow>
     r_Type r \<noteq> EMAIL \<or> DomainOf (r_Addr r) \<notin> set (al_domains v) \<or> lookup tx hook v (r_Addr r) = Ok []"

lemma resolve_step_Final:
  assumes "resolve_step tx hook v addr = Ok (Final a)"
  shows "settled tx hook v (email_rcpt a)"
  using assms
  by (auto simp: resolve_step_def settled_def Let_def DomainOf_def and_then_Ok_iff
      split: prod.splits if_splits sum.splits)

lemma resolves_to_settled: "resolves_to tx hook v addr r \<Longrightarrow> settled tx hook v r"
  by (induction rule: resolves_to.induct) (auto simp: resolve_step_Final, simp_all add: settled_def)

text \<open>
  Every recipient that resolution returns is final: a command, a forward through given
  servers, an address of another server, or a local address that no alias and no hook
  redirects any more.
\<close>

theorem Resolve_settled:
  assumes "Resolve tx hook v addr = Ok rs" and "r \<in> set rs"
  shows "settled tx hook v r"
  using assms resolve_refines [of tx hook v 0 addr rs r] resolves_to_settled by (auto simp: Resolve_def)

section \<open>Right-hand sides\<close>

definition valid_rcpt :: "Recipient \<Rightarrow> bool" where
  "valid_rcpt r \<longleftrightarrow>
     (case r_Type r of
        PIPE \<Rightarrow> r_Addr r \<noteq> [] \<and> r_Via r = []
      | EMAIL \<Rightarrow> CHR ''@'' \<in> set (r_Addr r) \<and> r_Via r = []
      | FORWARD \<Rightarrow> CHR ''@'' \<in> set (r_Addr r) \<and> r_Via r \<noteq> [] \<and> [] \<notin> set (r_Via r))"

lemma via_servers_Ok:
  "via_servers vs = Ok via \<Longrightarrow> length via = length vs \<and> [] \<notin> set via"
  by (induction vs arbitrary: via) (auto simp: Let_def and_then_Ok_iff split: if_splits)

lemma Addr_Ok: "Addr tx a = (a', None) \<Longrightarrow> CHR ''@'' \<in> set a'"
  by (auto simp: Addr_def split: prod.splits option.splits)

lemma parse_rcpt_valid:
  assumes "parse_rcpt tx domain a = Ok r"
  shows "valid_rcpt r \<and> r_Type r \<noteq> PIPE"
proof -
  obtain r0 where
    r0: "(if Contains a '' via '' then
          and_then (parseForward a)
            (\<lambda>(addr, via). Ok \<lparr>r_Addr = addr, r_Via = via, r_Type = FORWARD\<rparr>)
        else Ok \<lparr>r_Addr = a, r_Via = [], r_Type = EMAIL\<rparr>) = Ok r0"
    and norm: "(let addr = (if Contains (r_Addr r0) ''@'' then r_Addr r0 else r_Addr r0 @ ''@'' @ domain)
            in case Addr tx addr of
                 (_, Some e) \<Rightarrow> Err (ParseError (''normalizing address: '' @ e))
               | (addr', None) \<Rightarrow> Ok (r0\<lparr>r_Addr := addr'\<rparr>)) = Ok r"
    using assms unfolding parse_rcpt_def and_then_Ok_iff by blast
  from norm have norm: "\<exists>x. CHR ''@'' \<in> set x \<and> r = r0\<lparr>r_Addr := x\<rparr>"
    by (auto simp: Let_def dest: Addr_Ok split: prod.splits option.splits)
  have "(r_Type r0 = EMAIL \<and> r_Via r0 = []) \<or>
        (r_Type r0 = FORWARD \<and> r_Via r0 \<noteq> [] \<and> [] \<notin> set (r_Via r0))"
  proof (cases "Contains a '' via ''")
    case True
    with r0 obtain addr via where f: "parseForward a = Ok (addr, via)"
      and r: "r0 = \<lparr>r_Addr = addr, r_Via = via, r_Type = FORWARD\<rparr>"
      by (auto simp: and_then_Ok_iff)
    obtain viaS where "via_servers (Split viaS ''/'') = Ok via"
      using f by (auto simp: parseForward_def Let_def and_then_Ok_iff split: prod.splits if_splits)
    then have "length via = length (Split viaS ''/'')" "[] \<notin> set via"
      using via_servers_Ok by blast+
    then show ?thesis using r by (metis Recipient.select_convs(2,3) Split_not_Nil length_0_conv)
  qed (use r0 in auto)
  then show ?thesis using norm by (auto simp: valid_rcpt_def)
qed

lemma parse_rcpts_valid:
  "\<lbrakk>parse_rcpts tx domain raws = Ok rs; r \<in> set rs\<rbrakk> \<Longrightarrow> valid_rcpt r \<and> r_Type r \<noteq> PIPE"
proof (induction raws arbitrary: rs)
  case (Cons raw raws)
  then show ?case
    using parse_rcpt_valid [of tx domain "TrimSpace raw"]
    by (auto simp: Let_def and_then_Ok_iff split: if_splits)
qed simp

text \<open>
  C39. The recipients parsed from the right-hand side of an alias, or from a hook's output, are
  well-formed: a pipe has a command and stands alone, an address has a domain, and a forward
  has an address and at least one server, none of them empty.
\<close>

theorem parseRHS_valid:
  assumes "parseRHS tx rawalias domain = Ok rs"
  shows "(\<forall>r \<in> set rs. valid_rcpt r) \<and> ((\<exists>r \<in> set rs. r_Type r = PIPE) \<longrightarrow> length rs = 1)"
proof (cases rawalias)
  case (Cons c rest)
  show ?thesis
  proof (cases "c = CHR ''|''")
    case True
    with Cons assms show ?thesis
      by (auto simp: parseRHS_def Let_def valid_rcpt_def split: if_splits)
  next
    case False
    with Cons assms have "parse_rcpts tx domain (Split rawalias '','') = Ok rs"
      by (simp add: parseRHS_def)
    then show ?thesis using parse_rcpts_valid by blast
  qed
qed (use assms in \<open>simp add: parseRHS_def\<close>)

section \<open>Cleaning of ASCII addresses\<close>

lemma encode_rune_ascii: "byte c < 128 \<Longrightarrow> encode_rune (byte c) = [c]"
  by (simp add: encode_rune_def)

lemma runes_ascii: "is_ascii s \<Longrightarrow> runes s = map byte s"
  by (simp add: runes_def chunks_ascii)

lemma explode_runes_ascii: "is_ascii s \<Longrightarrow> explode_runes s = map (\<lambda>c. [c]) s"
  by (simp add: explode_runes_def chunks_ascii)

lemma take_first_char: "Index s [c] = Some i \<Longrightarrow> take i s = takeWhile (\<lambda>x. x \<noteq> c) s"
proof -
  assume i: "Index s [c] = Some i"
  have "takeWhile (\<lambda>x. x \<noteq> c) (take i s @ c # drop (Suc i) s) = take i s"
    using Index_char_Some [OF i] by (intro takeWhile_append_hit) auto
  then show ?thesis using Index_char_Some [OF i] by simp
qed

lemma removeAllAfter_chars:
  "removeAllAfter_seps s (map (\<lambda>c. [c]) cs) = takeWhile (\<lambda>x. x \<notin> set cs) s"
proof (induction cs arbitrary: s)
  case Nil
  then show ?case by (simp add: takeWhile_all)
next
  case (Cons c cs)
  have step: "removeAllAfter_seps s (map (\<lambda>c. [c]) (c # cs)) = removeAllAfter_seps (takeWhile (\<lambda>x. x \<noteq> c) s) (map (\<lambda>c. [c]) cs)"
  proof (cases "Index s [c]")
    case None
    then have "c \<notin> set s" by (simp add: Index_char_None)
    then have "takeWhile (\<lambda>x. x \<noteq> c) s = s" by auto
    then show ?thesis using None by (simp del: takeWhile_eq_all_conv)
  qed (simp add: take_first_char)
  show ?case unfolding step Cons.IH takeWhile_takeWhile
    by (rule takeWhile_cong) auto
qed

lemma ReplaceAll_char_Nil: "ReplaceAll s [c] [] = filter (\<lambda>x. x \<noteq> c) s"
proof (induction s rule: length_induct)
  case (1 s)
  show ?case
  proof (cases "c \<in> set s")
    case True
    then obtain a b where s: "s = a @ c # b" and a: "c \<notin> set a" by (metis split_list_first)
    then have IH: "ReplaceAll b [c] [] = filter (\<lambda>x. x \<noteq> c) b" using 1 by simp
    have "Join (a # Split b [c]) [] = a @ Join (Split b [c]) []" by (subst Join_Cons) simp_all
    moreover have "filter (\<lambda>x. x \<noteq> c) a = a" using a by (auto simp: filter_id_conv)
    ultimately show ?thesis
      using IH s a by (simp add: ReplaceAll_def Split_char_append)
  next
    case False
    then have "filter (\<lambda>x. x \<noteq> c) s = s" by (auto simp: filter_id_conv)
    then show ?thesis using False by (simp add: ReplaceAll_def Split_char_none)
  qed
qed

lemma removeChars_ascii:
  assumes "is_ascii chars"
  shows "removeChars s chars = filter (\<lambda>x. x \<notin> set chars) s"
proof -
  have "fold (\<lambda>c s. ReplaceAll s c []) (map (\<lambda>c. [c]) cs) s = filter (\<lambda>x. x \<notin> set cs) s" for cs
    by (induction cs arbitrary: s) (simp_all add: ReplaceAll_char_Nil conj_commute)
  then show ?thesis by (simp add: removeChars_def explode_runes_ascii [OF assms])
qed

lemma concat_encode_ascii:
  "is_ascii s \<Longrightarrow> concat (map (encode_rune \<circ> fst) (map (\<lambda>c. (byte c, [c])) s)) = s"
  by (induction s) (simp_all add: is_ascii_def is_ascii_byte_def encode_rune_ascii)

lemma byte_mem_iff: "byte c \<in> byte ` A \<longleftrightarrow> c \<in> A"
  by (auto simp: inj_image_mem_iff)

lemma RemoveDropCharacters_ascii:
  assumes "is_ascii (UserOf addr)" "is_ascii (SuffixSep v)" "is_ascii (DropChars v)"
  shows "RemoveDropCharacters tx v addr
    = fst (User tx (filter (\<lambda>c. c \<notin> set (DropChars v)) (takeWhile (\<lambda>c. c \<notin> set (SuffixSep v)) (UserOf addr))
                    @ dropWhile (\<lambda>c. c \<notin> set (SuffixSep v)) (UserOf addr))) @ ''@'' @ DomainOf addr"
proof -
  let ?sep = "\<lambda>c. c \<notin> set (SuffixSep v)"
  define user where "user = UserOf addr"
  define keep where "keep = filter (\<lambda>c. c \<notin> set (DropChars v)) (takeWhile ?sep user)"
  have sp: "Split_addr addr = (user, DomainOf addr)" by (simp add: user_def UserOf_def DomainOf_def)
  have "is_ascii user" using assms(1) by (simp add: user_def)
  then have "is_ascii keep"
    by (auto simp: keep_def is_ascii_def list_all_iff dest: set_takeWhileD)
  have "split_at_sep user (SuffixSep v) = (map (\<lambda>c. (byte c, [c])) (takeWhile ?sep user), dropWhile ?sep user)"
    using \<open>is_ascii user\<close> assms(2)
    by (simp add: split_at_sep_def chunks_ascii runes_ascii takeWhile_map comp_def byte_mem_iff
        drop_map dropWhile_eq_drop [symmetric] Let_def dropWhile_map)
  moreover have "filter (\<lambda>c. fst c \<notin> set (runes (DropChars v))) (map (\<lambda>c. (byte c, [c])) (takeWhile ?sep user))
      = map (\<lambda>c. (byte c, [c])) keep"
    by (simp add: keep_def filter_map comp_def runes_ascii [OF assms(3)] byte_mem_iff)
  ultimately show ?thesis
    using concat_encode_ascii [OF \<open>is_ascii keep\<close>]
    unfolding RemoveDropCharacters_def sp by (simp add: keep_def user_def)
qed

lemma RemoveDropsAndSuffix_ascii:
  assumes "is_ascii (SuffixSep v)" "is_ascii (DropChars v)"
  shows "RemoveDropsAndSuffix tx v addr
    = fst (User tx (filter (\<lambda>c. c \<notin> set (DropChars v)) (takeWhile (\<lambda>c. c \<notin> set (SuffixSep v)) (UserOf addr))))
        @ ''@'' @ DomainOf addr"
  by (simp add: RemoveDropsAndSuffix_def UserOf_def DomainOf_def removeAllAfter_def
      explode_runes_ascii [OF assms(1)] removeAllAfter_chars removeChars_ascii [OF assms(2)]
      del: append.simps split: prod.split)

text \<open>
  On ASCII addresses both ways of cleaning are what the documentation says: drop characters
  are removed from the user up to its first suffix separator, and the suffix is kept as it is
  or removed; the user is then normalized and the domain kept.
\<close>

theorem clean_ascii:
  assumes "is_ascii user" "is_ascii (SuffixSep v)" "is_ascii (DropChars v)" "CHR ''@'' \<notin> set user"
  defines "keep \<equiv> filter (\<lambda>c. c \<notin> set (DropChars v)) (takeWhile (\<lambda>c. c \<notin> set (SuffixSep v)) user)"
  shows "RemoveDropCharacters tx v (user @ ''@'' @ domain)
           = fst (User tx (keep @ dropWhile (\<lambda>c. c \<notin> set (SuffixSep v)) user)) @ ''@'' @ domain \<and>
         RemoveDropsAndSuffix tx v (user @ ''@'' @ domain) = fst (User tx keep) @ ''@'' @ domain"
proof -
  have "UserOf (user @ ''@'' @ domain) = user" "DomainOf (user @ ''@'' @ domain) = domain"
    using assms(4) by (simp_all add: UserOf_at DomainOf_at)
  then show ?thesis
    using assms RemoveDropCharacters_ascii [of "user @ ''@'' @ domain" v tx]
      RemoveDropsAndSuffix_ascii [of v tx "user @ ''@'' @ domain"] by simp
qed

section \<open>Loading and reloading files\<close>

text \<open>The table is what a reload of the current files would give.\<close>

definition in_sync :: "textlib \<Rightarrow> (string \<Rightarrow> open_result) \<Rightarrow> Resolver \<Rightarrow> bool" where
  "in_sync tx fs v \<longleftrightarrow> reload_files tx fs v (files v) [] = Ok (al_aliases v)"

text \<open>Parsing depends only on the cleaning options of the resolver.\<close>

lemma RemoveDropCharacters_cong:
  "\<lbrakk>SuffixSep v = SuffixSep w; DropChars v = DropChars w\<rbrakk>
     \<Longrightarrow> RemoveDropCharacters tx v = RemoveDropCharacters tx w"
  by (rule ext) (simp add: RemoveDropCharacters_def)

lemma parse_lines_cong:
  assumes "SuffixSep v = SuffixSep w" "DropChars v = DropChars w"
  shows "parse_lines tx v domain i ls al = parse_lines tx w domain i ls al"
  by (induction ls arbitrary: i al)
    (simp_all add: RemoveDropCharacters_cong [OF assms] Let_def split: list.split sum.split)

lemma parseFile_cong:
  assumes "SuffixSep v = SuffixSep w" "DropChars v = DropChars w"
  shows "parseFile tx fs v domain path = parseFile tx fs w domain path"
  by (simp add: parseFile_def parseReader_def parse_lines_cong [OF assms] split: open_result.split)

lemma reload_files_cong:
  assumes "SuffixSep v = SuffixSep w" "DropChars v = DropChars w"
  shows "reload_files tx fs v ds al = reload_files tx fs w ds al"
proof -
  have "reload_paths tx fs v d ps al = reload_paths tx fs w d ps al" for d ps al
    by (induction ps arbitrary: al)
      (simp_all add: parseFile_cong [OF assms] split: parse_file_result.split)
  then show ?thesis by (induction ds arbitrary: al) (auto simp: and_then_def split: sum.split)
qed

lemma reload_paths_append:
  "reload_paths tx fs v d (ps @ qs) al = and_then (reload_paths tx fs v d ps al) (reload_paths tx fs v d qs)"
  by (induction ps arbitrary: al) (simp_all split: parse_file_result.split)

lemma reload_files_append:
  "reload_files tx fs v (ds @ es) al = and_then (reload_files tx fs v ds al) (reload_files tx fs v es)"
  by (induction ds arbitrary: al) (auto simp: and_then_def split: sum.split)

lemma and_then_assoc: "and_then (and_then r f) g = and_then r (\<lambda>x. and_then (f x) g)"
  by (cases r) simp_all

text \<open>Adding a path to the last domain, or a new domain, is one more step of the reload.\<close>

lemma reload_files_add_path:
  assumes "d \<notin> fst ` set ds" "fs' = ds @ (if ps = [] then [] else [(d, ps)])"
  shows "reload_files tx fs v (AList.update d (ps @ [p]) fs') al
    = and_then (reload_files tx fs v fs' al) (reload_paths tx fs v d [p])"
proof -
  have "AList.update d x (ds @ es) = ds @ AList.update d x es" for x and es :: "(string \<times> string list) list"
    using assms(1) by (induction ds) auto
  then have upd: "AList.update d (ps @ [p]) fs' = ds @ [(d, ps @ [p])]" using assms(2) by simp
  have last: "reload_files tx fs v [(d, qs)] = reload_paths tx fs v d qs" for qs
    by (rule ext) (simp add: and_then_def split: sum.split)
  show ?thesis
  proof (cases "ps = []")
    case True
    then show ?thesis unfolding upd using assms(2) by (simp add: reload_files_append last del: reload_paths.simps reload_files.simps)
  next
    case False
    have "reload_paths tx fs v d (ps @ [p])
        = (\<lambda>x. and_then (reload_paths tx fs v d ps x) (reload_paths tx fs v d [p]))"
      by (rule ext) (rule reload_paths_append)
    then show ?thesis
      unfolding upd using False assms(2)
      by (simp add: reload_files_append last and_then_assoc del: reload_paths.simps reload_files.simps)
  qed
qed


section \<open>Examples\<close>

definition ex_hook :: "string \<Rightarrow> hook_outcome" where
  "ex_hook addr = HookNotExist"

text \<open>A domain with two aliases, a catch-all, and one user.\<close>

definition ex_resolver :: Resolver where
  "ex_resolver =
     \<lparr>SuffixSep = ''+'', DropChars = ''.'', ResolveHook = [],
      userExistsInDB = (\<lambda>u d. Ok (u = ''user'')),
      files = [], al_domains = [''d''],
      al_aliases = [(''ab@d'', [email_rcpt ''c@d'', \<lparr>r_Addr = ''cmd'', r_Via = [], r_Type = PIPE\<rparr>]),
                    (''loop@d'', [email_rcpt ''l.oop@d'']),
                    (''c@d'', [email_rcpt ''x@e'']),
                    (''*@d'', [email_rcpt ''z@e''])]\<rparr>"

lemmas ex_eval =
  resolve_step_def lookup_def runResolveHook_def
  RemoveDropCharacters_ascii RemoveDropsAndSuffix_ascii UserOf_def DomainOf_def Split_addr_def
  SplitN2_def ex_resolver_def recursionLimit_def is_ascii_def is_ascii_byte_def User_def
  ascii_text_def lower_byte_def in_range_def subst_star_def

lemma ex_steps:
  "resolve_step ascii_text ex_hook ex_resolver ''a.b+x@d''
     = Ok (Expand [email_rcpt ''c@d'', \<lparr>r_Addr = ''cmd'', r_Via = [], r_Type = PIPE\<rparr>])"
  "resolve_step ascii_text ex_hook ex_resolver ''c@d'' = Ok (Expand [email_rcpt ''x@e''])"
  "resolve_step ascii_text ex_hook ex_resolver ''x@e'' = Ok (Final ''x@e'')"
  "resolve_step ascii_text ex_hook ex_resolver ''z@e'' = Ok (Final ''z@e'')"
  "resolve_step ascii_text ex_hook ex_resolver ''l.oop@d'' = Ok (Expand [email_rcpt ''l.oop@d''])"
  "resolve_step ascii_text ex_hook ex_resolver ''user@d'' = Ok (Final ''user@d'')"
  "resolve_step ascii_text ex_hook ex_resolver ''user+x@d'' = Ok (Expand [email_rcpt ''z@e''])"
  "resolve_step ascii_text ex_hook (ex_resolver\<lparr>al_aliases := []\<rparr>) ''user+x@d'' = Ok (Final ''user@d'')"
  by (simp_all add: ex_eval)

lemma ex_resolve:
  "Resolve ascii_text ex_hook ex_resolver ''a.b+x@d''
     = Ok [email_rcpt ''x@e'', \<lparr>r_Addr = ''cmd'', r_Via = [], r_Type = PIPE\<rparr>]"
  by (simp add: Resolve_def resolve.simps [of _ _ _ _ "''a.b+x@d''"] resolve.simps [of _ _ _ _ "''c@d''"] resolve.simps [of _ _ _ _ "''x@e''"]
      ex_steps recursionLimit_def subst_star_def UserOf_def Split_addr_def SplitN2_def)


lemma Resolve_settled_witness:
  "settled ascii_text ex_hook ex_resolver (email_rcpt ''x@e'')"
  by (rule Resolve_settled [OF ex_resolve]) simp

lemma ex_loop_edge: "(alias_edge ascii_text ex_hook ex_resolver)\<^sup>+\<^sup>+ ''l.oop@d'' ''l.oop@d''"
  by (rule tranclp.r_into_trancl) (simp add: alias_edge_def ex_steps subst_star_def UserOf_def Split_addr_def SplitN2_def)

lemma Resolve_succeeds_iff_witness:
  "\<exists>e. Resolve ascii_text ex_hook ex_resolver ''l.oop@d'' = Err e"
  using Resolve_succeeds_iff [of ascii_text ex_hook ex_resolver "''l.oop@d''"]
    ex_loop_edge by simp

lemma parseRHS_valid_witness:
  "valid_rcpt (email_rcpt ''a@d'') \<and>
   valid_rcpt \<lparr>r_Addr = ''b@e'', r_Via = [''s1'', ''s2''], r_Type = FORWARD\<rparr>"
proof -
  have "parseRHS ascii_text ''a, b@e via s1/s2,'' ''d''
      = Ok [email_rcpt ''a@d'', \<lparr>r_Addr = ''b@e'', r_Via = [''s1'', ''s2''], r_Type = FORWARD\<rparr>]"
    by (simp add: parseRHS_def parse_rcpt_def parseForward_def go_eval)
  from parseRHS_valid [OF this] show ?thesis by simp
qed

lemma clean_ascii_witness:
  "RemoveDropCharacters ascii_text ex_resolver ''a.b+x.y@d'' = ''ab+x.y@d'' \<and>
   RemoveDropsAndSuffix ascii_text ex_resolver ''a.b+x.y@d'' = ''ab@d''"
  using clean_ascii [of "''a.b+x.y''" ex_resolver ascii_text "''d''"]
  by (simp add: ex_resolver_def is_ascii_def is_ascii_byte_def User_def ascii_text_def lower_byte_def
      in_range_def)

definition ex_fs :: "string \<Rightarrow> open_result" where
  "ex_fs path = (if path = ''p'' then Opened \<lparr>r_bytes = ''a: b'' @ [LF], r_end = EOF\<rparr> else NotExist)"


text \<open>
  A user with a suffix is not protected by the existence of the user once the domain has a
  catch-all: mail to user@d goes to that user, but mail to user+x@d, which without a
  catch-all is for the same user, goes to the catch-all. The existence check is made on the
  name before the suffix is removed.
\<close>

theorem Resolve_suffix_catch_all:
  "Resolve ascii_text ex_hook ex_resolver ''user@d'' = Ok [email_rcpt ''user@d''] \<and>
   Resolve ascii_text ex_hook ex_resolver ''user+x@d'' = Ok [email_rcpt ''z@e''] \<and>
   Resolve ascii_text ex_hook (ex_resolver\<lparr>al_aliases := []\<rparr>) ''user+x@d'' = Ok [email_rcpt ''user@d'']"
  by (simp add: Resolve_def resolve.simps [of _ _ _ _ "''user@d''"] resolve.simps [of _ _ _ _ "''user+x@d''"] resolve.simps [of _ _ _ _ "''z@e''"]
      ex_steps recursionLimit_def subst_star_def UserOf_def Split_addr_def SplitN2_def)

end
