(* ===== verification/GoBase64.thy ===== *)
theory GoBase64
  imports GoStrings
begin

text \<open>
  The standard base64 encoding of the Go library, \<open>base64.StdEncoding\<close>, as chasquid uses it to
  decode authentication responses and DKIM signatures and to encode signatures and requests to
  Dovecot. Line ends in the input are ignored; unused bits of the last character are not checked.
\<close>

definition b64_char :: "nat \<Rightarrow> char" where
  "b64_char n =
     (if n < 26 then char_of (65 + n)
      else if n < 52 then char_of (71 + n)
      else if n < 62 then char_of (n - 4)
      else if n = 62 then CHR ''+'' else CHR ''/'')"

definition b64_val :: "char \<Rightarrow> nat option" where
  "b64_val c =
     (if in_range (CHR ''A'') (CHR ''Z'') c then Some (byte c - 65)
      else if in_range (CHR ''a'') (CHR ''z'') c then Some (byte c - 71)
      else if in_range (CHR ''0'') (CHR ''9'') c then Some (byte c + 4)
      else if c = CHR ''+'' then Some 62
      else if c = CHR ''/'' then Some 63
      else None)"

fun b64_encode :: "string \<Rightarrow> string" where
  "b64_encode (a # b # c # s) =
     [b64_char (byte a div 4),
      b64_char (byte a mod 4 * 16 + byte b div 16),
      b64_char (byte b mod 16 * 4 + byte c div 64),
      b64_char (byte c mod 64)] @ b64_encode s"
| "b64_encode [a, b] =
     [b64_char (byte a div 4), b64_char (byte a mod 4 * 16 + byte b div 16),
      b64_char (byte b mod 16 * 4), CHR ''='']"
| "b64_encode [a] =
     [b64_char (byte a div 4), b64_char (byte a mod 4 * 16), CHR ''='', CHR ''='']"
| "b64_encode [] = []"

text \<open>Groups of four characters, once the line ends are gone. Padding only ends the input.\<close>

fun b64_quads :: "string \<Rightarrow> string option" where
  "b64_quads [] = Some []"
| "b64_quads (a # b # c # d # s) =
     (case (b64_val a, b64_val b) of
        (Some x, Some y) \<Rightarrow>
          if c = CHR ''='' then
            (if d = CHR ''='' \<and> s = [] then Some [char_of (x * 4 + y div 16)] else None)
          else
            (case b64_val c of
               None \<Rightarrow> None
             | Some z \<Rightarrow>
                 if d = CHR ''='' then
                   (if s = [] then Some [char_of (x * 4 + y div 16), char_of (y mod 16 * 16 + z div 4)]
                    else None)
                 else
                   (case b64_val d of
                      None \<Rightarrow> None
                    | Some w \<Rightarrow>
                        map_option (\<lambda>r. [char_of (x * 4 + y div 16), char_of (y mod 16 * 16 + z div 4),
                                         char_of (z mod 4 * 64 + w)] @ r) (b64_quads s)))
      | _ \<Rightarrow> None)"
| "b64_quads s = None"

definition b64_decode :: "string \<Rightarrow> string option" where
  "b64_decode s = b64_quads (filter (\<lambda>c. c \<noteq> CR \<and> c \<noteq> LF) s)"

lemma b64_val_char: "n < 64 \<Longrightarrow> b64_val (b64_char n) = Some n"
proof -
  assume "n < 64"
  then consider "n < 26" | "26 \<le> n" "n < 52" | "52 \<le> n" "n < 62" | "n = 62" | "n = 63" by linarith
  then show ?thesis by cases (auto simp: b64_char_def b64_val_def in_range_def)
qed

lemma b64_char_plain:
  assumes "n < 64"
  shows "b64_char n \<noteq> CHR ''=''" and "b64_char n \<noteq> CR" and "b64_char n \<noteq> LF"
proof -
  have "b64_val (CHR ''='') = None" "b64_val CR = None" "b64_val LF = None"
    by (simp_all add: b64_val_def in_range_def)
  then show "b64_char n \<noteq> CHR ''=''" and "b64_char n \<noteq> CR" and "b64_char n \<noteq> LF"
    using b64_val_char [OF assms] by (metis option.distinct(1))+
qed

lemma byte_bounds:
  "byte c div 4 < 64" "byte c div 16 < 16" "byte c div 64 < 4"
  using nat_of_char_less_256 [of c] by (simp_all add: less_mult_imp_div_less)

lemma sextets:
  "byte a mod 4 * 16 + byte b div 16 < 64" "byte b mod 16 * 4 + byte c div 64 < 64"
  "byte b mod 16 * 4 < 64" "byte a mod 4 * 16 < 64" "byte c mod 64 < 64"
proof -
  have "byte a mod 4 \<le> 3" "byte b mod 16 \<le> 15" by (simp_all add: less_Suc_eq_le flip: less_Suc_eq_le)
  then show "byte a mod 4 * 16 + byte b div 16 < 64" "byte b mod 16 * 4 + byte c div 64 < 64"
    "byte b mod 16 * 4 < 64" "byte a mod 4 * 16 < 64" "byte c mod 64 < 64"
    using byte_bounds(2) [of b] byte_bounds(3) [of c] by simp_all
qed

lemma join_bytes:
  "byte a div 4 * 4 + (byte a mod 4 * 16 + byte b div 16) div 16 = byte a"
  "byte a div 4 * 4 + (byte a mod 4 * 16) div 16 = byte a"
  "(byte a mod 4 * 16 + byte b div 16) mod 16 * 16 + (byte b mod 16 * 4 + byte c div 64) div 4 = byte b"
  "(byte a mod 4 * 16 + byte b div 16) mod 16 * 16 + (byte b mod 16 * 4) div 4 = byte b"
  "(byte b mod 16 * 4 + byte c div 64) mod 4 * 64 + byte c mod 64 = byte c"
  using byte_bounds(2) [of b] byte_bounds(3) [of c] by (simp_all add: div_add1_eq mod_add_eq)

lemma b64_quads_encode: "b64_quads (b64_encode s) = Some s"
  by (induction s rule: b64_encode.induct)
    (simp_all add: b64_val_char b64_char_plain byte_bounds sextets join_bytes)

lemma b64_encode_clean: "filter (\<lambda>c. c \<noteq> CR \<and> c \<noteq> LF) (b64_encode s) = b64_encode s"
  by (induction s rule: b64_encode.induct) (simp_all add: b64_char_plain byte_bounds sextets)

lemma b64_decode_encode: "b64_decode (b64_encode s) = Some s"
  by (simp add: b64_decode_def b64_encode_clean b64_quads_encode)

section \<open>Names for files\<close>

text \<open>\<open>base64.RawURLEncoding\<close>: two characters of the alphabet are others, and there is no padding.\<close>

definition url_char :: "char \<Rightarrow> char" where
  "url_char c = (if c = CHR ''+'' then CHR ''-'' else if c = CHR ''/'' then CHR ''_'' else c)"

definition RawURLEncode :: "string \<Rightarrow> string" where
  "RawURLEncode s = map url_char (filter (\<lambda>c. c \<noteq> CHR ''='') (b64_encode s))"

lemma b64_encode_chars: "c \<in> set (b64_encode s) \<Longrightarrow> c = CHR ''='' \<or> b64_val c \<noteq> None"
  by (induction s rule: b64_encode.induct) (auto simp: b64_val_char byte_bounds sextets)

lemma b64_encode_padding:
  "b64_encode s = filter (\<lambda>c. c \<noteq> CHR ''='') (b64_encode s) @ replicate ((3 - length s mod 3) mod 3) (CHR ''='')"
  by (induction s rule: b64_encode.induct) (simp_all add: b64_char_plain byte_bounds sextets numeral_2_eq_2)

lemma RawURLEncode_no_slash: "CHR ''/'' \<notin> set (RawURLEncode s)"
  by (auto simp: RawURLEncode_def url_char_def)

lemma url_char_inj: "inj_on url_char {c. b64_val c \<noteq> None}"
proof -
  have "b64_val (CHR ''-'') = None" "b64_val (CHR ''_'') = None" by (simp_all add: b64_val_def in_range_def)
  then show ?thesis by (auto simp: inj_on_def url_char_def)
qed

lemma RawURLEncode_inj:
  assumes "RawURLEncode s = RawURLEncode t" "length s = length t"
  shows "s = t"
proof -
  let ?f = "filter (\<lambda>c. c \<noteq> CHR ''='')"
  have "set (?f (b64_encode s)) \<union> set (?f (b64_encode t)) \<subseteq> {c. b64_val c \<noteq> None}" using b64_encode_chars by fastforce
  then have "inj_on url_char (set (?f (b64_encode s)) \<union> set (?f (b64_encode t)))" using inj_on_subset [OF url_char_inj] by blast
  then have "?f (b64_encode s) = ?f (b64_encode t)" using assms(1) by (auto simp: RawURLEncode_def inj_on_map_eq_map)
  then have "b64_encode s = b64_encode t" using b64_encode_padding [of s] b64_encode_padding [of t] assms(2) by simp
  then show ?thesis using b64_quads_encode by (metis option.inject)
qed

end
