(* ===== verification/QueueItem.thy ===== *)
theory QueueItem
  imports Aliases Protoio GoBase64 "HOL-Library.List_Lexorder" "HOL-Library.Char_ord"
begin

text \<open>
  The items of the queue, how they are kept on disk, and the delivery status notifications:
  the types of \<open>src/internal/queue/queue.proto\<close>, \<open>ItemFromFile\<close> and \<open>WriteTo\<close> of
  \<open>src/internal/queue/queue.go\<close>, and \<open>src/internal/queue/dsn.go\<close>. Times are in nanoseconds.
\<close>

section \<open>Items\<close>

datatype Recipient_Type = Recipient_EMAIL | Recipient_PIPE | Recipient_FORWARD

datatype Recipient_Status = Recipient_PENDING | Recipient_SENT | Recipient_FAILED

record QRecipient =
  Address :: string
  q_Type :: Recipient_Type
  Status :: Recipient_Status
  LastFailureMessage :: string
  OriginalAddress :: string
  Via :: "string list"

record Message =
  m_ID :: string
  m_From :: string
  m_To :: "string list"
  m_Rcpt :: "QRecipient list"
  m_Data :: string
  m_CreatedAtTs :: "int \<times> int"

record Item = Message +
  it_CreatedAt :: int

abbreviation second :: int where
  "second \<equiv> 1000000000"

abbreviation minute :: int where
  "minute \<equiv> 60 * second"

definition timeFromProto :: "int \<times> int \<Rightarrow> int" where
  "timeFromProto ts = fst ts * second + snd ts"

definition timeToProto :: "int \<Rightarrow> int \<times> int" where
  "timeToProto t = (t div second, t mod second)"

lemma timeFromProto_timeToProto: "timeFromProto (timeToProto t) = t"
  by (simp add: timeFromProto_def timeToProto_def)

text \<open>\<open>Message\<close> is all that is serialized of an item.\<close>

definition message_of :: "Item \<Rightarrow> Message" where
  "message_of item = Message.truncate item"

definition item_of :: "Message \<Rightarrow> int \<Rightarrow> Item" where
  "item_of m t = Message.extend m (Item.fields t)"

definition itemFilePrefix :: string where
  "itemFilePrefix = ''m:''"

definition item_path :: "string \<Rightarrow> string \<Rightarrow> string" where
  "item_path dir key = dir @ ''/'' @ itemFilePrefix @ key"

text \<open>The IDs that \<open>generateNewIDs\<close> makes, each from a buffer of eight random bytes.\<close>

definition generateNewID :: "string \<Rightarrow> string" where
  "generateNewID buf = RawURLEncode buf"

definition ItemFromFile :: "Message codec \<Rightarrow> file_system \<Rightarrow> string \<Rightarrow> (read_error, Item) result" where
  "ItemFromFile cd fs fname =
     and_then (ReadTextMessage cd fs fname) (\<lambda>m. Ok (item_of m (timeFromProto (m_CreatedAtTs m))))"

text \<open>
  The outcomes of one \<open>WriteTo\<close>: those of the write, and of the open, sync and close of
  \<open>FsyncFileOp\<close>.
\<close>

record save_env =
  se_write :: write_env
  se_open :: "string option"
  se_sync :: "string option"
  se_close :: "string option"

definition WriteTo ::
  "Message codec \<Rightarrow> save_env \<Rightarrow> string \<Rightarrow> Item \<Rightarrow> file_system \<Rightarrow> string option \<times> Item \<times> file_system" where
  "WriteTo cd env dir item fs =
     (let item' = item\<lparr>m_CreatedAtTs := timeToProto (it_CreatedAt item)\<rparr>;
          (err, tr) = WriteTextMessage cd (se_write env) fs (item_path dir (m_ID item')) (message_of item') 384
                        [FsyncFileOp (se_open env) (se_sync env) (se_close env)]
      in (err, item', last tr))"

section \<open>Delivery status notifications\<close>

definition maxOrigMsgLen :: nat where
  "maxOrigMsgLen = 256 * 1024"

definition indent :: "nat \<Rightarrow> string \<Rightarrow> string" where
  "indent sp s = ReplaceAll s [LF] (LF # replicate sp SP)"

fun type_name :: "Recipient_Type \<Rightarrow> string" where
  "type_name Recipient_EMAIL = ''EMAIL''"
| "type_name Recipient_PIPE = ''PIPE''"
| "type_name Recipient_FORWARD = ''FORWARD''"

record dsnInfo =
  OurDomain :: string
  Destination :: string
  MessageID :: string
  Date :: string
  FailedTo :: "string list"
  FailedRecipients :: "QRecipient list"
  PendingRecipients :: "QRecipient list"
  OriginalMessage :: string
  OriginalMessageID :: string
  Boundary :: string

text \<open>
  The template. A range over a map visits its keys in order, so \<open>FailedTo\<close> is the sorted list of
  the keys; \<open>failure\<close> is the pipe through \<open>trim\<close> and \<open>indent 4\<close>.
\<close>

definition failure :: "QRecipient \<Rightarrow> string" where
  "failure r = indent 4 (TrimSpace (LastFailureMessage r))"

definition quoted :: "string \<Rightarrow> string" where
  "quoted s = CHR 0x22 # s @ [CHR 0x22]"

definition detail_line :: "string \<Rightarrow> QRecipient \<Rightarrow> string" where
  "detail_line what r =
     LF # ''- '' @ quoted (Address r) @ '' ('' @ type_name (q_Type r) @ '') '' @ what @ LF # ''    '' @ failure r"

definition report_block :: "string \<Rightarrow> QRecipient \<Rightarrow> string" where
  "report_block status r =
     ''Original-Recipient: utf-8; '' @ OriginalAddress r @ LF
     # ''Final-Recipient: utf-8; '' @ Address r @ LF
     # ''Action: failed'' @ LF
     # ''Status: '' @ status @ LF
     # ''Diagnostic-Code: smtp; '' @ failure r @ [LF, LF]"

definition dsn_headers :: "dsnInfo \<Rightarrow> string" where
  "dsn_headers i =
     ''From: Mail Delivery System <postmaster-dsn@'' @ OurDomain i @ ''>'' @ LF
     # ''To: <'' @ Destination i @ ''>'' @ LF
     # ''Subject: Mail delivery failed: returning message to sender'' @ LF
     # ''Message-ID: <'' @ MessageID i @ ''>'' @ LF
     # ''Date: '' @ Date i @ LF
     # ''In-Reply-To: '' @ OriginalMessageID i @ LF
     # ''References: '' @ OriginalMessageID i @ LF
     # ''X-Failed-Recipients: '' @ concat (map (\<lambda>a. a @ '', '') (FailedTo i)) @ LF
     # ''Auto-Submitted: auto-replied'' @ LF
     # ''MIME-Version: 1.0'' @ LF
     # ''Content-Type: multipart/report; report-type=delivery-status;'' @ LF
     # ''    boundary='' @ quoted (Boundary i) @ [LF, LF, LF]"

definition dsn_text_part :: "dsnInfo \<Rightarrow> string" where
  "dsn_text_part i =
     ''--'' @ Boundary i @ LF
     # ''Content-Type: text/plain; charset='' @ quoted ''utf-8'' @ LF
     # ''Content-Disposition: inline'' @ LF
     # ''Content-Description: Notification'' @ LF
     # ''Content-Transfer-Encoding: 8bit'' @ LF
     # LF
     # ''Delivery of your message to the following recipient(s) failed permanently:'' @ LF
     # LF
     # concat (map (\<lambda>a. ''  - '' @ a @ [LF]) (FailedTo i)) @ LF
     # LF
     # ''Technical details:''
     @ concat (map (detail_line ''failed permanently with error:'') (FailedRecipients i))
     @ concat (map (detail_line ''failed repeatedly and timed out, last error:'') (PendingRecipients i))
     @ [LF, LF, LF]"

definition dsn_report_part :: "dsnInfo \<Rightarrow> string" where
  "dsn_report_part i =
     ''--'' @ Boundary i @ LF
     # ''Content-Type: message/global-delivery-status'' @ LF
     # ''Content-Description: Delivery Report'' @ LF
     # ''Content-Transfer-Encoding: 8bit'' @ LF
     # LF
     # ''Reporting-MTA: dns; '' @ OurDomain i @ LF
     # LF
     # concat (map (report_block ''5.0.0'') (FailedRecipients i))
     @ concat (map (report_block ''4.0.0'') (PendingRecipients i))
     @ [LF, LF]"

definition dsn_original_part :: "dsnInfo \<Rightarrow> string" where
  "dsn_original_part i =
     ''--'' @ Boundary i @ LF
     # ''Content-Type: message/rfc822'' @ LF
     # ''Content-Description: Undelivered Message'' @ LF
     # ''Content-Transfer-Encoding: 8bit'' @ LF
     # LF
     # OriginalMessage i @ LF
     # LF
     # ''--'' @ Boundary i @ ''--'' @ [LF]"

definition dsnTemplate :: "dsnInfo \<Rightarrow> string" where
  "dsnTemplate i = dsn_headers i @ dsn_text_part i @ dsn_report_part i @ dsn_original_part i"

text \<open>
  \<open>getMessageID\<close> is what \<open>net/mail\<close> finds in the message, a parameter. The environment also gives
  the two new identifiers and the date.
\<close>

record dsn_env =
  de_msgid :: string
  de_boundary :: string
  de_date :: string
  de_getMessageID :: "string \<Rightarrow> string"

definition dsn_info :: "dsn_env \<Rightarrow> string \<Rightarrow> 'a Message_scheme \<Rightarrow> dsnInfo" where
  "dsn_info env domainFrom item =
     (let unsent = filter (\<lambda>r. Status r \<noteq> Recipient_SENT) (m_Rcpt item) in
      \<lparr>OurDomain = domainFrom, Destination = m_From item,
       MessageID = ''chasquid-dsn-'' @ de_msgid env @ ''@'' @ domainFrom, Date = de_date env,
       FailedTo = sort (remdups (map OriginalAddress unsent)),
       FailedRecipients = filter (\<lambda>r. Status r = Recipient_FAILED) (m_Rcpt item),
       PendingRecipients = filter (\<lambda>r. Status r = Recipient_PENDING) (m_Rcpt item),
       OriginalMessage = (if maxOrigMsgLen < length (m_Data item) then take maxOrigMsgLen (m_Data item)
                          else m_Data item),
       OriginalMessageID = de_getMessageID env (m_Data item), Boundary = de_boundary env\<rparr>)"

definition deliveryStatusNotification :: "dsn_env \<Rightarrow> string \<Rightarrow> 'a Message_scheme \<Rightarrow> string" where
  "deliveryStatusNotification env domainFrom item = dsnTemplate (dsn_info env domainFrom item)"

section \<open>Items survive a restart\<close>

lemma fsync_local: "local_op (FsyncFileOp a b c)"
  by (simp add: local_op_def FsyncFileOp_def)

lemma item_of_message_of: "item_of (message_of item) (it_CreatedAt item) = item"
  by (cases item) (simp add: item_of_def message_of_def Message.defs Item.defs)

lemma message_of_simps [simp]:
  "m_ID (message_of i) = m_ID i" "m_From (message_of i) = m_From i" "m_To (message_of i) = m_To i"
  "m_Rcpt (message_of i) = m_Rcpt i" "m_Data (message_of i) = m_Data i"
  "m_CreatedAtTs (message_of i) = m_CreatedAtTs i"
  by (cases i; simp add: message_of_def Message.defs)+

lemma item_path_inj: "item_path dir a = item_path dir b \<longleftrightarrow> a = b"
  by (simp add: item_path_def)

text \<open>An ID can be the name of a file, and different random numbers give different IDs.\<close>

lemma generateNewID_safe:
  "CHR ''/'' \<notin> set (generateNewID buf)"
  "length buf = length buf' \<Longrightarrow> item_path dir (generateNewID buf) = item_path dir (generateNewID buf') \<longleftrightarrow> buf = buf'"
  using RawURLEncode_no_slash RawURLEncode_inj by (auto simp: generateNewID_def item_path_inj)

lemma item_path_not_tmp: "CHR ''/'' \<notin> set a \<Longrightarrow> CHR ''/'' \<notin> set b \<Longrightarrow> item_path dir a \<noteq> tmp_name (item_path dir b) rnd"
proof -
  assume a: "CHR ''/'' \<notin> set a" "CHR ''/'' \<notin> set b"
  have "path_dir (item_path dir b) = dir @ ''/''"
    using a(2) path_dir_slash [of "itemFilePrefix @ b" dir] by (simp add: item_path_def itemFilePrefix_def)
  then have "tmp_name (item_path dir b) rnd = (dir @ ''/'') @ ''.'' @ path_base (item_path dir b) @ rnd"
    by (simp add: tmp_name_def)
  then show ?thesis by (simp add: item_path_def itemFilePrefix_def)
qed

text \<open>The laws of saving an item.\<close>

lemma WriteTo_laws:
  assumes "codec_ok cd" "WriteTo cd env dir item fs = (err, item', fs')"
  shows "item' = item\<lparr>m_CreatedAtTs := timeToProto (it_CreatedAt item)\<rparr>"
    "err = None \<Longrightarrow> ItemFromFile cd fs' (item_path dir (m_ID item)) = Ok item'"
    "err \<noteq> None \<Longrightarrow> map_of fs' (item_path dir (m_ID item)) = map_of fs (item_path dir (m_ID item))"
    "\<lbrakk>p \<noteq> item_path dir (m_ID item); \<And>rnd. p \<noteq> tmp_name (item_path dir (m_ID item)) rnd\<rbrakk> \<Longrightarrow> map_of fs' p = map_of fs p"
proof -
  let ?i = "item\<lparr>m_CreatedAtTs := timeToProto (it_CreatedAt item)\<rparr>" and ?p = "item_path dir (m_ID item)"
  let ?ops = "[FsyncFileOp (se_open env) (se_sync env) (se_close env)]"
  have ops: "\<forall>op \<in> set ?ops. local_op op" by (simp add: fsync_local)
  obtain tr where w: "WriteTextMessage cd (se_write env) fs ?p (message_of ?i) 384 ?ops = (err, tr)"
    and e: "item' = ?i" "fs' = last tr" using assms(2) by (auto simp: WriteTo_def Let_def split: prod.splits)
  show "item' = ?i" by (rule e)
  show "err = None \<Longrightarrow> ItemFromFile cd fs' ?p = Ok item'"
  proof -
    assume "err = None"
    then obtain out where m: "marshal cd (message_of ?i) = Ok out"
      and wf: "WriteFile (se_write env) fs ?p out 384 ?ops = (None, tr)"
      using w by (cases "marshal cd (message_of ?i)") (auto simp: WriteTextMessage_def)
    from WriteFile_last(1) [OF ops wf] obtain f where "map_of fs' ?p = Some f" "f_data f = out"
      using e by auto
    with m assms(1) have "ReadTextMessage cd fs' ?p = Ok (message_of ?i)"
      by (simp add: ReadTextMessage_def codec_ok_def)
    moreover have "timeFromProto (m_CreatedAtTs ?i) = it_CreatedAt ?i"
      by (simp add: timeFromProto_timeToProto)
    ultimately show ?thesis using item_of_message_of [of ?i] e by (simp add: ItemFromFile_def)
  qed
  show "err \<noteq> None \<Longrightarrow> map_of fs' ?p = map_of fs ?p"
    using w e(2) WriteFile_last(2) [OF ops] by (auto simp: WriteTextMessage_def split: sum.splits)
  show "\<lbrakk>p \<noteq> ?p; \<And>rnd. p \<noteq> tmp_name ?p rnd\<rbrakk> \<Longrightarrow> map_of fs' p = map_of fs p"
    using w e(2) WriteFile_last(3) [OF ops] by (auto simp: WriteTextMessage_def split: sum.splits)
qed

end
