(* ===== verification/Queue.thy ===== *)
theory Queue
  imports QueueItem
begin

text \<open>
  \<open>src/internal/queue/queue.go\<close>: the queue of accepted mail. Items are kept in memory and on disk;
  each has a loop that tries to send it until all recipients are done or it gives up. What the
  code does in goroutines is a sequence of events here, in any order they may happen.
\<close>

section \<open>The queue\<close>

text \<open>The interface \<open>Courier\<close>: the error, if any, and whether it is permanent.\<close>

record Courier =
  co_Deliver :: "string \<Rightarrow> string \<Rightarrow> string \<Rightarrow> string option \<times> bool"
  co_Forward :: "string \<Rightarrow> string \<Rightarrow> string \<Rightarrow> string list \<Rightarrow> string option \<times> bool"

record Queue =
  q_localDomains :: "String option"
  q_path :: string
  q_aliases :: Resolver
  q_MaxItems :: int
  q_GiveUpAfter :: int
  q_items :: "(string \<times> Item) list"
  q_disk :: file_system

definition q_New :: "string \<Rightarrow> String option \<Rightarrow> Resolver \<Rightarrow> file_system \<Rightarrow> Queue" where
  "q_New path localDomains aliases fs =
     \<lparr>q_localDomains = localDomains, q_path = path, q_aliases = aliases, q_MaxItems = 100,
      q_GiveUpAfter = 20 * (60 * minute), q_items = [], q_disk = fs\<rparr>"

definition q_Len :: "Queue \<Rightarrow> nat" where
  "q_Len q = length (q_items q)"

text \<open>Loading: every file of the queue that can be read; a loop is started for each item.\<close>

definition item_files :: "Queue \<Rightarrow> string list" where
  "item_files q = map (\<lambda>n. q_path q @ ''/'' @ n) (filter (\<lambda>n. HasPrefix n itemFilePrefix) (ReadDir (q_disk q) (q_path q)))"

definition q_Load :: "Message codec \<Rightarrow> Queue \<Rightarrow> Queue \<times> Item list" where
  "q_Load cd q =
     fold (\<lambda>fname (q, started).
             case ItemFromFile cd (q_disk q) fname of
               Inl _ \<Rightarrow> (q, started)
             | Inr item \<Rightarrow> (q\<lparr>q_items := AList.update (m_ID item) item (q_items q)\<rparr>, started @ [item]))
       (item_files q) (q, [])"

section \<open>Putting and removing\<close>

datatype put_error = errQueueFull | ResolveError string alias_error | WriteError string

record put_env =
  pe_id :: string
  pe_now :: int
  pe_text :: textlib
  pe_hook :: "string \<Rightarrow> hook_outcome"
  pe_save :: save_env

definition queue_rcpt :: "string \<Rightarrow> Recipient \<Rightarrow> QRecipient" where
  "queue_rcpt t r =
     \<lparr>Address = r_Addr r,
      q_Type = (case r_Type r of EMAIL \<Rightarrow> Recipient_EMAIL | PIPE \<Rightarrow> Recipient_PIPE | FORWARD \<Rightarrow> Recipient_FORWARD),
      Status = Recipient_PENDING, LastFailureMessage = [], OriginalAddress = t,
      Via = (if r_Type r = FORWARD then r_Via r else [])\<rparr>"

fun put_rcpts ::
  "textlib \<Rightarrow> (string \<Rightarrow> hook_outcome) \<Rightarrow> Resolver \<Rightarrow> string list \<Rightarrow> (put_error, QRecipient list) result" where
  "put_rcpts tx hook v [] = Ok []"
| "put_rcpts tx hook v (t # to) =
     (case Resolve tx hook v t of
        Inl e \<Rightarrow> Err (ResolveError t e)
      | Inr rcpts \<Rightarrow> and_then (put_rcpts tx hook v to) (\<lambda>rs. Ok (map (queue_rcpt t) rcpts @ rs)))"

text \<open>The result, the queue, and the item whose loop was started.\<close>

definition q_Put ::
  "Message codec \<Rightarrow> put_env \<Rightarrow> Queue \<Rightarrow> string \<Rightarrow> string list \<Rightarrow> string
     \<Rightarrow> (put_error, string) result \<times> Queue \<times> Item option" where
  "q_Put cd env q from to data =
     (if q_MaxItems q \<le> int (q_Len q) then (Err errQueueFull, q, None)
      else case put_rcpts (pe_text env) (pe_hook env) (q_aliases q) to of
          Inl e \<Rightarrow> (Err e, q, None)
        | Inr rcpts \<Rightarrow>
            (let item = \<lparr>m_ID = pe_id env, m_From = from, m_To = to, m_Rcpt = rcpts, m_Data = data,
                         m_CreatedAtTs = (0, 0), it_CreatedAt = pe_now env\<rparr>
             in case WriteTo cd (pe_save env) (q_path q) item (q_disk q) of
                  (Some e, item', fs) \<Rightarrow> (Err (WriteError e), q\<lparr>q_disk := fs\<rparr>, None)
                | (None, item', fs) \<Rightarrow>
                    (Ok (m_ID item'),
                     q\<lparr>q_disk := fs, q_items := AList.update (m_ID item') item' (q_items q)\<rparr>, Some item')))"

definition q_Remove :: "bool \<Rightarrow> Queue \<Rightarrow> string \<Rightarrow> Queue" where
  "q_Remove removed q key =
     q\<lparr>q_disk := (if removed then AList.delete (item_path (q_path q) key) (q_disk q) else q_disk q),
       q_items := AList.delete key (q_items q)\<rparr>"

text \<open>
  \<open>DumpString\<close>, with the formatting of times as a parameter; the items are in the order the map
  happens to give them.
\<close>

fun status_name :: "Recipient_Status \<Rightarrow> string" where
  "status_name Recipient_PENDING = ''PENDING''"
| "status_name Recipient_SENT = ''SENT''"
| "status_name Recipient_FAILED = ''FAILED''"

definition dump_rcpt :: "unicode \<Rightarrow> QRecipient \<Rightarrow> string" where
  "dump_rcpt u r =
     status_name (Status r) @ '' '' @ Address r @ '' ('' @ type_name (q_Type r) @ '')'' @ LF
     # ''  original address: '' @ OriginalAddress r @ LF
     # ''  last failure: '' @ Quote u (LastFailureMessage r) @ [LF]"

definition DumpString :: "unicode \<Rightarrow> (int \<Rightarrow> string) \<Rightarrow> int \<Rightarrow> Queue \<Rightarrow> string" where
  "DumpString u time_string now q =
     ''# Queue status'' @ LF # LF
     # ''date: '' @ time_string now @ LF
     # ''length: '' @ FormatUint (length (q_items q)) @ LF # LF
     # concat (map (\<lambda>(key, item).
         ''## Item '' @ key @ LF
         # ''created at: '' @ time_string (it_CreatedAt item) @ LF
         # ''from: '' @ m_From item @ LF
         # ''to: ['' @ Join (m_To item) '' '' @ '']'' @ LF
         # concat (map (dump_rcpt u) (m_Rcpt item)) @ [LF]) (q_items q))"

section \<open>Delivering\<close>

definition mustIDNAToASCII :: "textlib \<Rightarrow> string \<Rightarrow> string" where
  "mustIDNAToASCII tx s = (case idna_ToASCII tx s of Inl _ \<Rightarrow> idna_ToASCII_partial tx s | Inr _ \<Rightarrow> s)"

definition rewriteSender :: "textlib \<Rightarrow> string \<Rightarrow> string \<Rightarrow> string" where
  "rewriteSender tx from originalAddr =
     UserOf originalAddr @ ''+fwd_from='' @ ReplaceAll from ''@'' ''='' @ ''@''
     @ mustIDNAToASCII tx (DomainOf originalAddr)"

text \<open>What happens in one round of attempts: the couriers, running a command, and the clock.\<close>

record round_env =
  re_text :: textlib
  re_localC :: Courier
  re_remoteC :: Courier
  re_cmd :: "string \<Rightarrow> string list \<Rightarrow> string \<Rightarrow> string option"
  re_now :: int
  re_later :: int
  re_rand :: int

definition srs_from :: "textlib \<Rightarrow> Queue \<Rightarrow> string \<Rightarrow> string \<Rightarrow> string" where
  "srs_from tx q from originalAddr =
     (if DomainIn from (q_localDomains q) then from else rewriteSender tx from originalAddr)"

definition q_deliver :: "round_env \<Rightarrow> Queue \<Rightarrow> 'a Message_scheme \<Rightarrow> QRecipient \<Rightarrow> string option \<times> bool" where
  "q_deliver env q item rcpt =
     (case q_Type rcpt of
        Recipient_PIPE \<Rightarrow>
          (case Fields (Address rcpt) of
             [] \<Rightarrow> (Some ''empty pipe'', True)
           | c # args \<Rightarrow> (re_cmd env c args (m_Data item), True))
      | Recipient_FORWARD \<Rightarrow>
          co_Forward (re_remoteC env) (srs_from (re_text env) q (m_From item) (OriginalAddress rcpt))
            (Address rcpt) (m_Data item) (Via rcpt)
      | Recipient_EMAIL \<Rightarrow>
          if DomainIn (Address rcpt) (q_localDomains q)
          then co_Deliver (re_localC env) (m_From item) (Address rcpt) (m_Data item)
          else co_Deliver (re_remoteC env) (srs_from (re_text env) q (m_From item) (OriginalAddress rcpt))
                 (Address rcpt) (m_Data item))"

definition countRcpt :: "Recipient_Status list \<Rightarrow> 'a Message_scheme \<Rightarrow> nat" where
  "countRcpt statuses item = length (filter (\<lambda>r. Status r \<in> set statuses) (m_Rcpt item))"

text \<open>The update of a recipient after an attempt, and then the write of the item.\<close>

definition rcpt_result :: "string option \<times> bool \<Rightarrow> QRecipient \<Rightarrow> QRecipient" where
  "rcpt_result res r =
     (case res of
        (Some e, permanent) \<Rightarrow>
          (let r' = r\<lparr>LastFailureMessage := e\<rparr> in if permanent then r'\<lparr>Status := Recipient_FAILED\<rparr> else r')
      | (None, _) \<Rightarrow> r\<lparr>Status := Recipient_SENT\<rparr>)"

datatype send_event = Attempted nat | Saved nat save_env

fun sendOneRcpt :: "Message codec \<Rightarrow> round_env \<Rightarrow> send_event \<Rightarrow> Item \<times> Queue \<Rightarrow> Item \<times> Queue" where
  "sendOneRcpt cd env (Attempted j) (item, q) =
     (item\<lparr>m_Rcpt := (m_Rcpt item)[j := rcpt_result (q_deliver env q item (m_Rcpt item ! j)) (m_Rcpt item ! j)]\<rparr>, q)"
| "sendOneRcpt cd env (Saved j senv) (item, q) =
     (let (_, item', fs) = WriteTo cd senv (q_path q) item (q_disk q) in (item', q\<lparr>q_disk := fs\<rparr>))"

text \<open>
  The recipients a round tries, and the orders in which its goroutines may run: each attempt once,
  each save once and after its attempt, and at the end nothing left to wait for. The first
  list has the recipients to attempt, the second those to save.
\<close>

definition pending :: "'a Message_scheme \<Rightarrow> nat list" where
  "pending item = filter (\<lambda>j. Status (m_Rcpt item ! j) = Recipient_PENDING) [0..<length (m_Rcpt item)]"

fun schedule_ok :: "nat list \<Rightarrow> nat list \<Rightarrow> send_event list \<Rightarrow> bool" where
  "schedule_ok todo running [] \<longleftrightarrow> todo = [] \<and> running = []"
| "schedule_ok todo running (Attempted j # evs) \<longleftrightarrow> j \<in> set todo \<and> schedule_ok (remove1 j todo) (j # running) evs"
| "schedule_ok todo running (Saved j senv # evs) \<longleftrightarrow> j \<in> set running \<and> schedule_ok todo (remove1 j running) evs"

definition send_round ::
  "Message codec \<Rightarrow> round_env \<Rightarrow> send_event list \<Rightarrow> Item \<times> Queue \<Rightarrow> Item \<times> Queue" where
  "send_round cd env evs s = fold (sendOneRcpt cd env) evs s"

definition nextDelay :: "int \<Rightarrow> int \<Rightarrow> int" where
  "nextDelay since perturb =
     (if since < minute then minute
      else if since < 5 * minute then 5 * minute
      else if since < 10 * minute then 10 * minute
      else 20 * minute) + perturb"

section \<open>The loop\<close>

text \<open>
  The number of the round, the item and the queue when the loop ends; \<open>None\<close> would be a loop that
  does not end. The environment and the order of events are given for every round.
\<close>

partial_function (option) send_loop ::
  "Message codec \<Rightarrow> (nat \<Rightarrow> round_env) \<Rightarrow> (nat \<Rightarrow> Item \<Rightarrow> send_event list) \<Rightarrow> nat \<Rightarrow> Item \<Rightarrow> Queue
     \<Rightarrow> (nat \<times> Item \<times> Queue) option" where
  "send_loop cd env sched i item q =
     (if re_now (env i) - it_CreatedAt item < q_GiveUpAfter q then
        (let (item', q') = send_round cd (env i) (sched i item) (item, q) in
         if countRcpt [Recipient_PENDING] item' = 0 then Some (Suc i, item', q')
         else send_loop cd env sched (Suc i) item' q')
      else Some (i, item, q))"

definition dsn_domain :: "Queue \<Rightarrow> 'a Message_scheme \<Rightarrow> string" where
  "dsn_domain q item =
     (if m_From item \<noteq> ''<>'' \<and> DomainIn (m_From item) (q_localDomains q) then DomainOf (m_From item)
      else case filter (\<lambda>r. DomainIn (OriginalAddress r) (q_localDomains q)) (m_Rcpt item) of
          r # _ \<Rightarrow> DomainOf (OriginalAddress r)
        | [] \<Rightarrow> ''unknown'')"

definition sendDSN ::
  "Message codec \<Rightarrow> dsn_env \<Rightarrow> put_env \<Rightarrow> Queue \<Rightarrow> Item \<Rightarrow> Queue \<times> Item option" where
  "sendDSN cd denv penv q item =
     (let msg = deliveryStatusNotification denv (dsn_domain q item) item
      in snd (q_Put cd penv q ''<>'' [m_From item] msg))"

record finish_env =
  fe_dsn :: dsn_env
  fe_put :: put_env
  fe_removed :: bool

definition finish_item :: "Message codec \<Rightarrow> finish_env \<Rightarrow> Item \<Rightarrow> Queue \<Rightarrow> Queue \<times> Item option" where
  "finish_item cd env item q =
     (let (q1, dsn) =
        (if 0 < countRcpt [Recipient_FAILED, Recipient_PENDING] item \<and> m_From item \<noteq> ''<>''
         then sendDSN cd (fe_dsn env) (fe_put env) q item else (q, None))
      in (q_Remove (fe_removed env) q1 (m_ID item), dsn))"

definition SendLoop ::
  "Message codec \<Rightarrow> (nat \<Rightarrow> round_env) \<Rightarrow> (nat \<Rightarrow> Item \<Rightarrow> send_event list) \<Rightarrow> finish_env \<Rightarrow> Item \<Rightarrow> Queue
     \<Rightarrow> (Item \<times> Queue \<times> Item option) option" where
  "SendLoop cd env sched fenv item q =
     (case send_loop cd env sched 0 item q of
        None \<Rightarrow> None
      | Some (n, item', q') \<Rightarrow> (let (q'', dsn) = finish_item cd fenv item' q' in Some (item', q'', dsn)))"

section \<open>A round, in any order\<close>

text \<open>What no event of a round changes.\<close>

definition same_mail :: "Item \<times> Queue \<Rightarrow> Item \<times> Queue \<Rightarrow> bool" where
  "same_mail s t \<longleftrightarrow>
     (case (s, t) of ((a, p), (b, q)) \<Rightarrow>
        m_ID a = m_ID b \<and> m_From a = m_From b \<and> m_To a = m_To b \<and> m_Data a = m_Data b \<and>
        it_CreatedAt a = it_CreatedAt b \<and> length (m_Rcpt a) = length (m_Rcpt b) \<and>
        q_localDomains p = q_localDomains q \<and> q_path p = q_path q \<and> q_aliases p = q_aliases q \<and>
        q_MaxItems p = q_MaxItems q \<and> q_GiveUpAfter p = q_GiveUpAfter q \<and> q_items p = q_items q)"

lemma same_mail_refl [simp]: "same_mail s s"
  by (cases s) (simp add: same_mail_def)

lemma same_mail_trans: "same_mail s t \<Longrightarrow> same_mail t r \<Longrightarrow> same_mail s r"
  by (auto simp: same_mail_def split: prod.splits)

lemma WriteTo_item: "WriteTo cd senv dir item fs = (e, item', fs') \<Longrightarrow>
    item' = item\<lparr>m_CreatedAtTs := timeToProto (it_CreatedAt item)\<rparr>"
  by (auto simp: WriteTo_def Let_def split: prod.splits)

lemma sendOneRcpt_same: "same_mail (sendOneRcpt cd env ev s) s"
proof (cases s)
  case (Pair item q)
  then show ?thesis
    by (cases ev) (auto simp: same_mail_def Let_def dest!: WriteTo_item split: prod.splits)
qed

lemma send_round_same: "same_mail (send_round cd env evs s) s"
  unfolding send_round_def
proof (induction evs arbitrary: s)
  case (Cons ev evs)
  show ?case using same_mail_trans [OF Cons.IH sendOneRcpt_same] by simp
qed simp

text \<open>An attempt depends only on what does not change, and on its own recipient.\<close>

lemma q_deliver_same:
  "same_mail (a, p) (b, q) \<Longrightarrow> q_deliver env p a r = q_deliver env q b r"
proof -
  assume "same_mail (a, p) (b, q)"
  then have "m_From a = m_From b" "m_Data a = m_Data b" "q_localDomains p = q_localDomains q"
    by (simp_all add: same_mail_def)
  then show ?thesis by (cases "q_Type r") (simp_all add: q_deliver_def srs_from_def split: list.split)
qed

lemma round_rcpts:
  assumes "schedule_ok todo running evs" "distinct todo" "set todo \<subseteq> {..<length (m_Rcpt item)}"
    "same_mail (item, q) (item0, q0)" "send_round cd env evs (item, q) = (item', q')"
  shows "m_Rcpt item' = map (\<lambda>j. let r = m_Rcpt item ! j in
      if j \<in> set todo then rcpt_result (q_deliver env q0 item0 r) r else r) [0..<length (m_Rcpt item)]"
  using assms
proof (induction todo running evs arbitrary: item q rule: schedule_ok.induct)
  case (1 todo running)
  then show ?case by (simp add: send_round_def map_nth Let_def)
next
  case (2 todo running j evs)
  let ?r = "rcpt_result (q_deliver env q0 item0 (m_Rcpt item ! j)) (m_Rcpt item ! j)"
  let ?item = "item\<lparr>m_Rcpt := (m_Rcpt item)[j := ?r]\<rparr>"
  have j: "j < length (m_Rcpt item)" "j \<in> set todo" using 2 by auto
  have step: "sendOneRcpt cd env (Attempted j) (item, q) = (?item, q)"
    using q_deliver_same [OF "2.prems"(4)] by simp
  have same: "same_mail (?item, q) (item0, q0)" using "2.prems"(4) by (simp add: same_mail_def)
  have set: "set (remove1 j todo) = set todo - {j}" using "2.prems"(2) by (simp add: set_remove1_eq)
  have "m_Rcpt item' = map (\<lambda>i. let r = m_Rcpt ?item ! i in
      if i \<in> set (remove1 j todo) then rcpt_result (q_deliver env q0 item0 r) r else r) [0..<length (m_Rcpt ?item)]"
    by (rule "2.IH") (use "2.prems" j set same step in \<open>auto simp: send_round_def\<close>)
  then show ?case using set j by (simp add: nth_list_update Let_def)
next
  case (3 todo running j senv evs)
  obtain e i2 fs where w: "WriteTo cd senv (q_path q) item (q_disk q) = (e, i2, fs)" using prod_cases3 by blast
  note i2 = WriteTo_item [OF w]
  have "m_Rcpt item' = map (\<lambda>i. let r = m_Rcpt i2 ! i in
      if i \<in> set todo then rcpt_result (q_deliver env q0 item0 r) r else r) [0..<length (m_Rcpt i2)]"
    by (rule "3.IH" [of i2 "q\<lparr>q_disk := fs\<rparr>"]) (use "3.prems" w i2 in \<open>auto simp: send_round_def same_mail_def\<close>)
  then show ?case using i2 by simp
qed

lemma schedule_last: "schedule_ok todo running evs \<Longrightarrow> evs \<noteq> [] \<Longrightarrow> \<exists>evs0 j senv. evs = evs0 @ [Saved j senv]"
proof (induction todo running evs rule: schedule_ok.induct)
  case (2 todo running j evs)
  then show ?case by (cases evs) fastforce+
next
  case (3 todo running j senv evs)
  show ?case
  proof (cases evs)
    case Nil
    then show ?thesis by (intro exI [of _ "[]"]) simp
  next
    case (Cons a list)
    then obtain evs0 j' senv' where "evs = evs0 @ [Saved j' senv']" using 3 by auto
    then show ?thesis by (intro exI [of _ "Saved j senv # evs0"]) simp
  qed
qed simp

lemma pending_props: "distinct (pending item)" "set (pending item) \<subseteq> {..<length (m_Rcpt item)}"
  by (auto simp: pending_def)

lemma send_round_rcpts:
  assumes "schedule_ok (pending item) [] evs" "send_round cd env evs (item, q) = (item', q')"
  shows "m_Rcpt item' =
    map (\<lambda>r. if Status r = Recipient_PENDING then rcpt_result (q_deliver env q item r) r else r) (m_Rcpt item)"
proof -
  have "m_Rcpt item' = map (\<lambda>j. let r = m_Rcpt item ! j in
      if j \<in> set (pending item) then rcpt_result (q_deliver env q item r) r else r) [0..<length (m_Rcpt item)]"
    by (rule round_rcpts [OF assms(1) pending_props same_mail_refl assms(2)])
  also have "\<dots> = map (\<lambda>j. (\<lambda>r. if Status r = Recipient_PENDING then rcpt_result (q_deliver env q item r) r else r)
      (m_Rcpt item ! j)) [0..<length (m_Rcpt item)]"
    by (rule map_cong) (auto simp: pending_def Let_def)
  also have "\<dots> = map (\<lambda>r. if Status r = Recipient_PENDING then rcpt_result (q_deliver env q item r) r else r)
      (m_Rcpt item)"
    by (rule nth_equalityI) auto
  finally show ?thesis .
qed

lemma rcpt_result_status:
  "Status r = Recipient_PENDING \<Longrightarrow>
   (Status (rcpt_result res r), LastFailureMessage (rcpt_result res r)) =
     (case res of
        (None, _) \<Rightarrow> (Recipient_SENT, LastFailureMessage r)
      | (Some e, True) \<Rightarrow> (Recipient_FAILED, e)
      | (Some e, False) \<Rightarrow> (Recipient_PENDING, e))"
  by (simp add: rcpt_result_def Let_def split: prod.split option.split bool.split)


section \<open>The loop ends\<close>

text \<open>
  The clock: it does not go back within a round, and the next round starts no earlier than the
  delay after the previous one, as \<open>time.Sleep\<close> promises; \<open>rand.N\<close> is below a minute.
\<close>

definition clock_ok :: "int \<Rightarrow> (nat \<Rightarrow> round_env) \<Rightarrow> bool" where
  "clock_ok created env \<longleftrightarrow>
     (\<forall>i. re_now (env i) \<le> re_later (env i) \<and> 0 \<le> re_rand (env i) \<and> re_rand (env i) < minute \<and>
        re_later (env i) + nextDelay (re_later (env i) - created) (re_rand (env i)) \<le> re_now (env (Suc i)))"

lemma nextDelay_ge: "0 \<le> perturb \<Longrightarrow> minute \<le> nextDelay since perturb"
  by (simp add: nextDelay_def)

lemma clock_step: "clock_ok created env \<Longrightarrow> re_now (env i) + minute \<le> re_now (env (Suc i))"
proof -
  assume "clock_ok created env"
  then have "re_now (env i) \<le> re_later (env i)" "0 \<le> re_rand (env i)"
    "re_later (env i) + nextDelay (re_later (env i) - created) (re_rand (env i)) \<le> re_now (env (Suc i))"
    by (simp_all add: clock_ok_def)
  with nextDelay_ge [of "re_rand (env i)" "re_later (env i) - created"] show ?thesis by linarith
qed

text \<open>How many rounds there can be in the time that is left.\<close>

definition rounds_left :: "int \<Rightarrow> nat" where
  "rounds_left left = nat ((left + minute - 1) div minute)"

lemma rounds_left_step: "0 < left \<Longrightarrow> left' \<le> left - minute \<Longrightarrow> rounds_left left' < rounds_left left"
proof -
  assume a: "0 < left" "left' \<le> left - minute"
  have "(left' + minute - 1) div minute \<le> ((left + minute - 1) - minute) div minute"
    by (rule zdiv_mono1) (use a in simp_all)
  also have "\<dots> = (left + minute - 1) div minute - 1"
    using div_mult_self2 [of minute "left + minute - 1" "-1"] by simp
  finally have "(left' + minute - 1) div minute < (left + minute - 1) div minute" by simp
  moreover have "0 < (left + minute - 1) div minute" using a(1) by (simp add: pos_imp_zdiv_pos_iff)
  ultimately show ?thesis by (simp add: rounds_left_def)
qed

text \<open>What the end of the loop is: all done or out of time, and nothing done again.\<close>

definition settled_rcpts :: "Item \<Rightarrow> Item \<Rightarrow> bool" where
  "settled_rcpts item item' \<longleftrightarrow>
     list_all2 (\<lambda>r r'. (Status r \<noteq> Recipient_PENDING \<longrightarrow> r' = r) \<and>
       Address r' = Address r \<and> OriginalAddress r' = OriginalAddress r \<and> q_Type r' = q_Type r \<and> Via r' = Via r)
       (m_Rcpt item) (m_Rcpt item')"

lemma settled_rcpts_refl: "settled_rcpts item item"
  by (simp add: settled_rcpts_def list_all2_same)

lemma settled_rcpts_trans: "settled_rcpts a b \<Longrightarrow> settled_rcpts b c \<Longrightarrow> settled_rcpts a c"
  by (simp add: settled_rcpts_def list_all2_conv_all_nth)

lemma rcpt_result_fields [simp]:
  "Address (rcpt_result x r) = Address r" "OriginalAddress (rcpt_result x r) = OriginalAddress r"
  "q_Type (rcpt_result x r) = q_Type r" "Via (rcpt_result x r) = Via r"
  by (auto simp: rcpt_result_def Let_def split: prod.splits option.splits)

lemma send_round_settled:
  assumes "schedule_ok (pending item) [] evs" "send_round cd env evs (item, q) = (item', q')"
  shows "settled_rcpts item item'"
  unfolding settled_rcpts_def send_round_rcpts [OF assms]
  by (simp add: list_all2_map2 list_all2_same)

lemma send_loop_ends:
  assumes "\<forall>i it. schedule_ok (pending it) [] (sched i it)" "clock_ok (it_CreatedAt item) env"
  shows "\<exists>n item' q'. send_loop cd env sched i item q = Some (n, item', q') \<and>
    n \<le> i + rounds_left (q_GiveUpAfter q - (re_now (env i) - it_CreatedAt item)) \<and>
    settled_rcpts item item' \<and> same_mail (item', q') (item, q) \<and>
    (countRcpt [Recipient_PENDING] item' = 0 \<or> q_GiveUpAfter q \<le> re_now (env n) - it_CreatedAt item)"
  using assms(2)
proof (induction "rounds_left (q_GiveUpAfter q - (re_now (env i) - it_CreatedAt item))" arbitrary: i item q
    rule: less_induct)
  case less
  let ?left = "\<lambda>i. q_GiveUpAfter q - (re_now (env i) - it_CreatedAt item)"
  show ?case
  proof (cases "re_now (env i) - it_CreatedAt item < q_GiveUpAfter q")
    case False
    then show ?thesis
      by (intro exI [of _ i] exI [of _ item] exI [of _ q])
        (simp add: send_loop.simps [of cd env sched i] settled_rcpts_refl)
  next
    case True
    obtain item1 q1 where r: "send_round cd (env i) (sched i item) (item, q) = (item1, q1)" by fastforce
    have same: "same_mail (item1, q1) (item, q)" using send_round_same r by metis
    then have eq: "it_CreatedAt item1 = it_CreatedAt item" "q_GiveUpAfter q1 = q_GiveUpAfter q"
      by (simp_all add: same_mail_def)
    have set1: "settled_rcpts item item1" by (rule send_round_settled [OF assms(1) [rule_format] r])
    have lt: "rounds_left (?left (Suc i)) < rounds_left (?left i)"
      by (rule rounds_left_step) (use True clock_step [OF less.prems, of i] in simp_all)
    show ?thesis
    proof (cases "countRcpt [Recipient_PENDING] item1 = 0")
      case done1: True
      then show ?thesis using True r set1 same lt
        by (intro exI [of _ "Suc i"] exI [of _ item1] exI [of _ q1]) (simp add: send_loop.simps [of cd env sched i])
    next
      case False
      have "\<exists>n item' q'. send_loop cd env sched (Suc i) item1 q1 = Some (n, item', q') \<and>
          n \<le> Suc i + rounds_left (?left (Suc i)) \<and> settled_rcpts item1 item' \<and> same_mail (item', q') (item1, q1) \<and>
          (countRcpt [Recipient_PENDING] item' = 0 \<or> q_GiveUpAfter q \<le> re_now (env n) - it_CreatedAt item)"
        using less.hyps [of q1 "Suc i" item1] less.prems lt by (simp add: eq)
      then obtain n item' q' where rec: "send_loop cd env sched (Suc i) item1 q1 = Some (n, item', q')"
        "n \<le> Suc i + rounds_left (?left (Suc i))" "settled_rcpts item1 item'" "same_mail (item', q') (item1, q1)"
        "countRcpt [Recipient_PENDING] item' = 0 \<or> q_GiveUpAfter q \<le> re_now (env n) - it_CreatedAt item" by blast
      have "n \<le> i + rounds_left (?left i)" using rec(2) lt by linarith
      then show ?thesis
        using True False r rec settled_rcpts_trans [OF set1 rec(3)] same_mail_trans [OF rec(4) same]
        by (intro exI [of _ n] exI [of _ item'] exI [of _ q']) (simp add: send_loop.simps [of cd env sched i])
    qed
  qed
qed

text \<open>
  C11. The loop of an item ends, whatever the couriers do: after at most one round per minute of
  the time it may take. When it ends, either no recipient is pending or the item has been
  given up for its age. A recipient that was delivered or failed is never tried again, and the
  envelope and the contents are what they were.
\<close>

theorem SendLoop_ends:
  assumes "\<forall>i it. schedule_ok (pending it) [] (sched i it)" "clock_ok (it_CreatedAt item) env"
  shows "\<exists>n item' q' q'' dsn. send_loop cd env sched 0 item q = Some (n, item', q') \<and>
    SendLoop cd env sched fenv item q = Some (item', q'', dsn) \<and>
    int n * minute < max 0 (q_GiveUpAfter q - (re_now (env 0) - it_CreatedAt item)) + minute \<and>
    (countRcpt [Recipient_PENDING] item' = 0 \<or> q_GiveUpAfter q \<le> re_now (env n) - it_CreatedAt item) \<and>
    settled_rcpts item item' \<and> m_From item' = m_From item \<and> m_Data item' = m_Data item \<and>
    map_of (q_items q'') (m_ID item) = None"
proof -
  let ?left = "q_GiveUpAfter q - (re_now (env 0) - it_CreatedAt item)"
  from send_loop_ends [OF assms, where i = 0 and q = q and cd = cd] obtain n item' q' where
    l: "send_loop cd env sched 0 item q = Some (n, item', q')" "n \<le> rounds_left ?left"
    "settled_rcpts item item'" "same_mail (item', q') (item, q)"
    "countRcpt [Recipient_PENDING] item' = 0 \<or> q_GiveUpAfter q \<le> re_now (env n) - it_CreatedAt item" by auto
  obtain q'' dsn where f: "finish_item cd fenv item' q' = (q'', dsn)" by fastforce
  have "int n * minute < max 0 ?left + minute"
  proof (cases "0 < ?left")
    case True
    have "int n \<le> (?left + minute - 1) div minute" using l(2) True by (simp add: rounds_left_def le_nat_iff)
    then have "int n * minute \<le> (?left + minute - 1) div minute * minute" by (simp add: mult_right_mono)
    also have "\<dots> \<le> ?left + minute - 1" by (simp add: minus_mod_eq_div_mult [symmetric])
    finally show ?thesis using True by simp
  next
    case False
    then have "(?left + minute - 1) div minute < 1" by (simp add: div_less_iff_less_mult)
    then have "rounds_left ?left = 0" by (simp add: rounds_left_def)
    then show ?thesis using l(2) by simp
  qed
  moreover have "map_of (q_items q'') (m_ID item') = None"
    using f by (auto simp: finish_item_def q_Remove_def delete_conv' Let_def split: prod.splits if_splits)
  moreover have "m_ID item' = m_ID item" "m_From item' = m_From item" "m_Data item' = m_Data item"
    using l(4) by (simp_all add: same_mail_def)
  ultimately show ?thesis
    using l f by (intro exI [of _ n] exI [of _ item'] exI [of _ q'] exI [of _ q''] exI [of _ dsn])
      (simp add: SendLoop_def)
qed

section \<open>Putting\<close>

lemma put_rcpts_Ok:
  "put_rcpts tx hook v to = Ok rs \<longleftrightarrow>
     (\<exists>rss. map (Resolve tx hook v) to = map Ok rss \<and>
        rs = concat (map2 (\<lambda>t rcpts. map (queue_rcpt t) rcpts) to rss))"
proof (induction to arbitrary: rs)
  case (Cons t to)
  show ?case
  proof (cases "Resolve tx hook v t")
    case (Inr rcpts)
    have "(\<exists>rss. map (Resolve tx hook v) (t # to) = map Ok rss \<and>
        rs = concat (map2 (\<lambda>t rcpts. map (queue_rcpt t) rcpts) (t # to) rss)) \<longleftrightarrow>
      (\<exists>rss. map (Resolve tx hook v) to = map Ok rss \<and>
        rs = map (queue_rcpt t) rcpts @ concat (map2 (\<lambda>t rcpts. map (queue_rcpt t) rcpts) to rss))" (is "?l = ?r")
    proof
      assume ?l
      then obtain rss where rss: "map (Resolve tx hook v) (t # to) = map Ok rss"
        "rs = concat (map2 (\<lambda>t rcpts. map (queue_rcpt t) rcpts) (t # to) rss)" by blast
      then obtain rss' where "rss = rcpts # rss'" using Inr by (cases rss) auto
      then show ?r using rss by auto
    next
      assume ?r
      then obtain rss where "map (Resolve tx hook v) to = map Ok rss"
        "rs = map (queue_rcpt t) rcpts @ concat (map2 (\<lambda>t rcpts. map (queue_rcpt t) rcpts) to rss)" by blast
      then show ?l using Inr by (intro exI [of _ "rcpts # rss"]) simp
    qed
    then show ?thesis using Inr Cons.IH by (auto simp: and_then_Ok_iff)
  qed (auto simp: Cons_eq_map_conv)
qed auto

lemma length_update_le: "length (AList.update k v xs) \<le> Suc (length xs)"
  by (induction xs) auto

lemma q_Put_outcome_aux:
  assumes "codec_ok cd" "q_Put cd env q from to data = (res, q', started)"
  shows "case res of
     Inl e \<Rightarrow> q_items q' = q_items q \<and> started = None \<and>
       (e = errQueueFull \<longleftrightarrow> q_MaxItems q \<le> int (q_Len q)) \<and>
       map_of (q_disk q') (item_path (q_path q) (pe_id env)) = map_of (q_disk q) (item_path (q_path q) (pe_id env))
   | Inr key \<Rightarrow> key = pe_id env \<and> int (q_Len q) < q_MaxItems q \<and> int (q_Len q') \<le> q_MaxItems q \<and>
       (\<forall>k. k \<noteq> key \<longrightarrow> map_of (q_items q') k = map_of (q_items q) k) \<and>
       (\<exists>item rss. started = Some item \<and> map_of (q_items q') key = Some item \<and>
          ItemFromFile cd (q_disk q') (item_path (q_path q) key) = Ok item \<and>
          m_ID item = key \<and> m_From item = from \<and> m_To item = to \<and> m_Data item = data \<and>
          it_CreatedAt item = pe_now env \<and>
          map (Resolve (pe_text env) (pe_hook env) (q_aliases q)) to = map Ok rss \<and>
          m_Rcpt item = concat (map2 (\<lambda>t rcpts. map (queue_rcpt t) rcpts) to rss))"
proof (cases "q_MaxItems q \<le> int (q_Len q)")
  case True
  then show ?thesis using assms(2) by (auto simp: q_Put_def)
next
  case False
  show ?thesis
  proof (cases "put_rcpts (pe_text env) (pe_hook env) (q_aliases q) to")
    case (Inl e)
    moreover have "e \<noteq> errQueueFull" using Inl
      by (induction to arbitrary: e) (auto simp: and_then_def split: sum.splits)
    ultimately show ?thesis using False assms(2) by (auto simp: q_Put_def)
  next
    case (Inr rcpts)
    let ?i = "\<lparr>m_ID = pe_id env, m_From = from, m_To = to, m_Rcpt = rcpts, m_Data = data,
      m_CreatedAtTs = (0, 0), it_CreatedAt = pe_now env\<rparr>"
    obtain e item fs where w: "WriteTo cd (pe_save env) (q_path q) ?i (q_disk q) = (e, item, fs)"
      using prod_cases3 by blast
    note laws = WriteTo_laws [OF assms(1) w]
    show ?thesis
    proof (cases e)
      case (Some err)
      then show ?thesis using False Inr w laws(3) assms(2) by (auto simp: q_Put_def)
    next
      case None
      have len: "int (length (AList.update (pe_id env) item (q_items q))) \<le> q_MaxItems q"
        using False length_update_le [of "pe_id env" item "q_items q"] by (simp add: q_Len_def)
      from Inr obtain rss where "map (Resolve (pe_text env) (pe_hook env) (q_aliases q)) to = map Ok rss"
        "rcpts = concat (map2 (\<lambda>t rcpts. map (queue_rcpt t) rcpts) to rss)" unfolding put_rcpts_Ok by blast
      then show ?thesis
        using None False Inr w laws(1,2) len assms(2)
        by (auto simp: q_Put_def q_Len_def update_conv')
    qed
  qed
qed

text \<open>
  C9. Putting a message in the queue either fails and leaves the queue as it was, with no loop
  started; or the message is accepted: it was below the limit and still is not above it, it is
  in memory and can be read back from disk, with the envelope and the data it was given and one
  pending recipient for each that the aliases give for each address. Putting fails for
  fullness exactly when the limit is reached.
\<close>

theorem q_Put_outcome:
  assumes "codec_ok cd" "q_Put cd env q from to data = (res, q', started)"
  shows "case res of
     Inl e \<Rightarrow> q_items q' = q_items q \<and> started = None \<and>
       (e = errQueueFull \<longleftrightarrow> q_MaxItems q \<le> int (q_Len q)) \<and>
       map_of (q_disk q') (item_path (q_path q) (pe_id env)) = map_of (q_disk q) (item_path (q_path q) (pe_id env))
   | Inr key \<Rightarrow> key = pe_id env \<and> int (q_Len q) < q_MaxItems q \<and> int (q_Len q') \<le> q_MaxItems q \<and>
       (\<forall>k. k \<noteq> key \<longrightarrow> map_of (q_items q') k = map_of (q_items q) k) \<and>
       (\<exists>item rss. started = Some item \<and> map_of (q_items q') key = Some item \<and>
          ItemFromFile cd (q_disk q') (item_path (q_path q) key) = Ok item \<and>
          m_ID item = key \<and> m_From item = from \<and> m_To item = to \<and> m_Data item = data \<and>
          it_CreatedAt item = pe_now env \<and>
          map (Resolve (pe_text env) (pe_hook env) (q_aliases q)) to = map Ok rss \<and>
          m_Rcpt item = concat (map2 (\<lambda>t rcpts. map (queue_rcpt t) rcpts) to rss))"
  by (rule q_Put_outcome_aux [OF assms])

section \<open>Notifications\<close>

text \<open>
  C12. When the loop of an item is over, a notification is queued exactly when some recipient was
  not delivered, the sender is not the null sender, and the queue takes it. It goes from the
  null sender to the sender of the item, has at most the first 256 KiB of the original, and names
  the addresses that failed. No notification is ever made for a notification, so bounces do
  not loop.
\<close>

theorem finish_item_dsn:
  assumes "codec_ok cd" "finish_item cd env item q = (q', dsn)"
  shows "(dsn \<noteq> None \<longleftrightarrow>
      m_From item \<noteq> ''<>'' \<and> (\<exists>r \<in> set (m_Rcpt item). Status r \<noteq> Recipient_SENT) \<and>
      is_ok (fst (q_Put cd (fe_put env) q ''<>'' [m_From item]
        (deliveryStatusNotification (fe_dsn env) (dsn_domain q item) item)))) \<and>
    (\<forall>d. dsn = Some d \<longrightarrow> m_From d = ''<>'' \<and> m_To d = [m_From item] \<and>
      m_Data d = dsnTemplate (dsn_info (fe_dsn env) (dsn_domain q item) item) \<and>
      (\<forall>cd' env' d' q2. m_From d' = m_From d \<longrightarrow> snd (finish_item cd' env' d' q2) = None)) \<and>
    length (OriginalMessage (dsn_info (fe_dsn env) (dsn_domain q item) item)) \<le> 256 * 1024 \<and>
    set (FailedTo (dsn_info (fe_dsn env) (dsn_domain q item) item)) =
      {OriginalAddress r | r. r \<in> set (m_Rcpt item) \<and> Status r \<noteq> Recipient_SENT} \<and>
    map_of (q_items q') (m_ID item) = None"
proof -
  have unsent: "0 < countRcpt [Recipient_FAILED, Recipient_PENDING] i \<longleftrightarrow> (\<exists>r \<in> set (m_Rcpt i). Status r \<noteq> Recipient_SENT)"
    for i :: Item
  proof -
    have "Status r \<in> set [Recipient_FAILED, Recipient_PENDING] \<longleftrightarrow> Status r \<noteq> Recipient_SENT" for r :: QRecipient
      by (cases "Status r") simp_all
    then show ?thesis by (simp add: countRcpt_def filter_empty_conv)
  qed
  have none: "snd (finish_item cd' env' d' q2) = None" if "m_From d' = ''<>''" for cd' env' d' q2
    using that by (simp add: finish_item_def Let_def)
  obtain res qp st where p: "q_Put cd (fe_put env) q ''<>'' [m_From item]
      (deliveryStatusNotification (fe_dsn env) (dsn_domain q item) item) = (res, qp, st)" using prod_cases3 by blast
  note o = q_Put_outcome_aux [OF assms(1) p]
  have d: "dsn = (if m_From item \<noteq> ''<>'' \<and> (\<exists>r \<in> set (m_Rcpt item). Status r \<noteq> Recipient_SENT) then st else None)"
    using assms(2) p unsent [of item] by (auto simp: finish_item_def sendDSN_def Let_def split: prod.splits if_splits)
  have st: "(st \<noteq> None) = is_ok res \<and> (\<forall>d. st = Some d \<longrightarrow> m_From d = ''<>'' \<and> m_To d = [m_From item] \<and>
      m_Data d = dsnTemplate (dsn_info (fe_dsn env) (dsn_domain q item) item))"
    using o by (cases res) (auto simp: is_ok_def deliveryStatusNotification_def)
  have "map_of (q_items q') (m_ID item) = None"
    using assms(2) by (auto simp: finish_item_def q_Remove_def delete_conv' Let_def split: prod.splits if_splits)
  moreover have "length (OriginalMessage (dsn_info (fe_dsn env) (dsn_domain q item) item)) \<le> 256 * 1024"
    by (simp add: dsn_info_def maxOrigMsgLen_def Let_def)
  moreover have "set (FailedTo (dsn_info (fe_dsn env) (dsn_domain q item) item)) =
      {OriginalAddress r | r. r \<in> set (m_Rcpt item) \<and> Status r \<noteq> Recipient_SENT}"
    by (auto simp: dsn_info_def Let_def)
  ultimately show ?thesis using d st p none by auto
qed

section \<open>Restarting\<close>

lemma item_files_iff:
  "p \<in> set (item_files q) \<longleftrightarrow>
     (\<exists>key. p = item_path (q_path q) key \<and> CHR ''/'' \<notin> set key \<and> map_of (q_disk q) p \<noteq> None)"
proof
  assume "p \<in> set (item_files q)"
  then obtain n where n: "p = q_path q @ ''/'' @ n" "HasPrefix n itemFilePrefix" "n \<in> set (ReadDir (q_disk q) (q_path q))"
    by (auto simp: item_files_def)
  then obtain key where "n = itemFilePrefix @ key" by (auto simp: HasPrefix_def prefix_def)
  with n show "\<exists>key. p = item_path (q_path q) key \<and> CHR ''/'' \<notin> set key \<and> map_of (q_disk q) p \<noteq> None"
    by (auto simp: item_path_def ReadDir_iff)
next
  assume "\<exists>key. p = item_path (q_path q) key \<and> CHR ''/'' \<notin> set key \<and> map_of (q_disk q) p \<noteq> None"
  then obtain key where k: "p = q_path q @ ''/'' @ itemFilePrefix @ key" "CHR ''/'' \<notin> set key"
    "map_of (q_disk q) p \<noteq> None" by (auto simp: item_path_def)
  then have "itemFilePrefix @ key \<in> set (ReadDir (q_disk q) (q_path q))"
    by (auto simp: ReadDir_iff itemFilePrefix_def)
  then show "p \<in> set (item_files q)" using k(1) by (auto simp: item_files_def HasPrefix_append)
qed

text \<open>Every readable file of the queue is named for the item in it.\<close>

definition disk_ok :: "Message codec \<Rightarrow> Queue \<Rightarrow> bool" where
  "disk_ok cd q \<longleftrightarrow>
     (\<forall>p item. p \<in> set (item_files q) \<and> ItemFromFile cd (q_disk q) p = Ok item \<longrightarrow> p = item_path (q_path q) (m_ID item))"

lemma q_Load_fold:
  assumes "\<forall>p \<in> set ps. \<forall>item. ItemFromFile cd fs p = Ok item \<longrightarrow> p = item_path dir (m_ID item)" "q_disk q = fs"
  shows "case fold (\<lambda>fname (q, started).
             case ItemFromFile cd (q_disk q) fname of
               Inl _ \<Rightarrow> (q, started)
             | Inr item \<Rightarrow> (q\<lparr>q_items := AList.update (m_ID item) item (q_items q)\<rparr>, started @ [item])) ps (q, st) of
      (q', st') \<Rightarrow>
        (\<forall>item key. item_path dir key \<in> set ps \<and> ItemFromFile cd fs (item_path dir key) = Ok item \<longrightarrow>
           map_of (q_items q') key = Some item \<and> item \<in> set st') \<and>
        (\<forall>key. item_path dir key \<notin> set ps \<longrightarrow> map_of (q_items q') key = map_of (q_items q) key) \<and> set st \<subseteq> set st'"
  using assms
proof (induction ps arbitrary: q st)
  case (Cons p ps)
  let ?step = "\<lambda>fname (q, started).
             case ItemFromFile cd (q_disk q) fname of
               Inl _ \<Rightarrow> (q, started)
             | Inr item \<Rightarrow> (q\<lparr>q_items := AList.update (m_ID item) item (q_items q)\<rparr>, started @ [item])"
  obtain q1 st1 where s1: "?step p (q, st) = (q1, st1)" by fastforce
  have d1: "q_disk q1 = fs" using s1 Cons.prems(2) by (auto split: sum.splits)
  obtain q' st' where f: "fold ?step ps (q1, st1) = (q', st')" by fastforce
  have IH: "(\<forall>item key. item_path dir key \<in> set ps \<and> ItemFromFile cd fs (item_path dir key) = Ok item \<longrightarrow>
        map_of (q_items q') key = Some item \<and> item \<in> set st')"
    "(\<forall>key. item_path dir key \<notin> set ps \<longrightarrow> map_of (q_items q') key = map_of (q_items q1) key)" "set st1 \<subseteq> set st'"
    using Cons.IH [of q1 st1] Cons.prems(1) d1 f by simp_all
  have all: "fold ?step (p # ps) (q, st) = (q', st')" using s1 f by simp
  have first: "map_of (q_items q') key = Some item \<and> item \<in> set st'"
    if "ItemFromFile cd fs (item_path dir key) = Ok item" "item_path dir key = p" for item key
  proof -
    have key: "key = m_ID item" using Cons.prems(1) that item_path_inj by auto
    have "map_of (q_items q1) key = Some item \<and> item \<in> set st1"
      using s1 that key Cons.prems(2) by (auto simp: update_conv')
    with IH that show ?thesis by (cases "item_path dir key \<in> set ps") auto
  qed
  moreover have "map_of (q_items q1) key = map_of (q_items q) key" if "item_path dir key \<noteq> p" for key
    using s1 that Cons.prems by (auto simp: update_conv' split: sum.splits)
  moreover have "set st \<subseteq> set st1" using s1 by (auto split: sum.splits)
  ultimately show ?case using all IH by (simp only: all prod.case) (auto simp: item_path_inj)
qed simp

lemma Put_disk_ok:
  assumes "codec_ok cd" "CHR ''/'' \<notin> set (pe_id env)" "disk_ok cd q"
    "q_Put cd env q from to data = (Ok key, q', Some item)"
  shows "disk_ok cd q'"
proof -
  note o = q_Put_outcome_aux [OF assms(1,4), simplified]
  then have onfile: "ItemFromFile cd (q_disk q') (item_path (q_path q) key) = Ok item" "m_ID item = key"
    and key: "key = pe_id env" by auto
  have path: "q_path q' = q_path q"
    using assms(4) by (auto simp: q_Put_def Let_def split: if_splits sum.splits prod.splits option.splits)
  have other: "map_of (q_disk q') p = map_of (q_disk q) p"
    if "p = item_path (q_path q) k" "k \<noteq> key" "CHR ''/'' \<notin> set k" for p k
  proof -
    obtain i e fs where w: "WriteTo cd (pe_save env) (q_path q) i (q_disk q) = (e, item, fs)" "q_disk q' = fs"
      "m_ID i = pe_id env"
      using assms(4) by (auto simp: q_Put_def Let_def split: if_splits sum.splits prod.splits option.splits)
    show ?thesis
      using WriteTo_laws(4) [OF assms(1) w(1), of p] w that key item_path_not_tmp [OF that(3) assms(2)]
      by (simp add: item_path_inj)
  qed
  show ?thesis
    unfolding disk_ok_def
  proof (intro allI impI)
    fix p i
    assume a: "p \<in> set (item_files q') \<and> ItemFromFile cd (q_disk q') p = Ok i"
    then obtain k where k: "p = item_path (q_path q) k" "CHR ''/'' \<notin> set k" "map_of (q_disk q') p \<noteq> None"
      by (auto simp: item_files_iff path)
    show "p = item_path (q_path q') (m_ID i)"
    proof (cases "k = key")
      case True
      then show ?thesis using a onfile k path by simp
    next
      case False
      have same: "map_of (q_disk q') p = map_of (q_disk q) p" by (rule other [OF k(1) False k(2)])
      then have "p \<in> set (item_files q)" "ItemFromFile cd (q_disk q) p = Ok i"
        using k a by (auto simp: item_files_iff ItemFromFile_def ReadTextMessage_def)
      then show ?thesis using assms(3) path by (simp add: disk_ok_def)
    qed
  qed
qed

text \<open>
  C13. A message that was accepted survives a restart: a new queue on the same disk loads exactly
  the item that was put, under its identifier, and starts its loop. The names of the files keep
  matching the items in them. The identifiers the code makes have no slash (\<open>generateNewID_safe\<close>).
\<close>

theorem Put_survives_restart:
  assumes "codec_ok cd" "CHR ''/'' \<notin> set (pe_id env)" "disk_ok cd q"
    "q_Put cd env q from to data = (Ok key, q', Some item)"
  shows "case q_Load cd (q_New (q_path q) locals aliases (q_disk q')) of (q2, started) \<Rightarrow>
    map_of (q_items q2) key = Some item \<and> item \<in> set started \<and> disk_ok cd q'"
proof -
  let ?q2 = "q_New (q_path q) locals aliases (q_disk q')"
  note o = q_Put_outcome_aux [OF assms(1,4), simplified]
  then have onfile: "ItemFromFile cd (q_disk q') (item_path (q_path q) key) = Ok item" "m_ID item = key"
    and key: "key = pe_id env" by auto
  have path: "q_path q' = q_path q"
    using assms(4) by (auto simp: q_Put_def Let_def split: if_splits sum.splits prod.splits option.splits)
  have ok': "disk_ok cd q'" by (rule Put_disk_ok [OF assms])
  have fields: "q_disk ?q2 = q_disk q'" "q_path ?q2 = q_path q" by (simp_all add: q_New_def)
  have fl: "item_files ?q2 = item_files q'" by (simp add: item_files_def fields path)
  have mem: "item_path (q_path q) key \<in> set (item_files ?q2)"
    using onfile(1) key assms(2) by (auto simp: item_files_iff fields ItemFromFile_def ReadTextMessage_def
        and_then_def split: option.splits)
  obtain q3 st where l: "q_Load cd ?q2 = (q3, st)" by fastforce
  have "\<forall>p \<in> set (item_files ?q2). \<forall>item. ItemFromFile cd (q_disk q') p = Ok item \<longrightarrow> p = item_path (q_path q) (m_ID item)"
    using ok' fl path by (simp add: disk_ok_def)
  from q_Load_fold [OF this fields(1), of "[]"] l mem onfile
  have "map_of (q_items q3) key = Some item \<and> item \<in> set st" by (simp add: q_Load_def)
  then show ?thesis using l ok' by simp
qed

section \<open>Examples\<close>

text \<open>An encoding that knows one message, a disk that works, and couriers.\<close>

definition ex_msg_codec :: "Message \<Rightarrow> Message codec" where
  "ex_msg_codec m =
     \<lparr>marshal = (\<lambda>x. if x = m then Ok ''x'' else Err ''unknown''),
      unmarshal = (\<lambda>s. if s = ''x'' then Ok m else Err ''bad'')\<rparr>"

lemma ex_msg_codec_ok: "codec_ok (ex_msg_codec m)"
  by (simp add: codec_ok_def ex_msg_codec_def)

definition ex_save :: save_env where
  "ex_save =
     \<lparr>se_write = \<lparr>we_create = Ok ''1'', we_chmod = None, we_chown = None, we_write = None,
        we_close = None, we_rename = None, we_remove = True, we_owner = (0, 0), we_now = 0\<rparr>,
      se_open = None, se_sync = None, se_close = None\<rparr>"

definition ex_round :: "int \<Rightarrow> round_env" where
  "ex_round now =
     \<lparr>re_text = ascii_text,
      re_localC = \<lparr>co_Deliver = (\<lambda>_ _ _. (None, False)), co_Forward = (\<lambda>_ _ _ _. (Some ''no'', True))\<rparr>,
      re_remoteC = \<lparr>co_Deliver = (\<lambda>_ _ _. (Some ''refused'', True)), co_Forward = (\<lambda>_ _ _ _. (None, False))\<rparr>,
      re_cmd = (\<lambda>_ _ _. None), re_now = now, re_later = now, re_rand = 0\<rparr>"

definition ex_rcpt :: "string \<Rightarrow> Recipient_Status \<Rightarrow> string \<Rightarrow> QRecipient" where
  "ex_rcpt a st msg =
     \<lparr>Address = a, q_Type = Recipient_EMAIL, Status = st, LastFailureMessage = msg, OriginalAddress = a, Via = []\<rparr>"

definition ex_item :: "QRecipient list \<Rightarrow> Item" where
  "ex_item rs =
     \<lparr>m_ID = ''k'', m_From = ''a@d'', m_To = [''b@d'', ''c@e''], m_Rcpt = rs, m_Data = ''x'',
      m_CreatedAtTs = (0, 0), it_CreatedAt = 0\<rparr>"

definition ex_queue :: Queue where
  "ex_queue = q_New ''q'' (Some (NewString [''d''])) (NewResolver (\<lambda>_ _. Ok True)) []"

abbreviation ex_pending :: Item where
  "ex_pending \<equiv> ex_item [ex_rcpt ''b@d'' Recipient_PENDING [], ex_rcpt ''c@e'' Recipient_PENDING []]"

lemma ex_domains [simp]: "DomainIn ''b@d'' (q_localDomains ex_queue)" "\<not> DomainIn ''c@e'' (q_localDomains ex_queue)"
  "DomainIn ''a@d'' (q_localDomains ex_queue)"
  by (simp_all add: DomainIn_def DomainOf_def Split_addr_def SplitN2_def ex_queue_def q_New_def)


text \<open>A schedule for every item: the attempts one after the other.\<close>

definition ex_sched :: "nat \<Rightarrow> Item \<Rightarrow> send_event list" where
  "ex_sched i item = concat (map (\<lambda>j. [Attempted j, Saved j ex_save]) (pending item))"

lemma ex_sched_ok: "schedule_ok (pending item) [] (ex_sched i item)"
proof -
  have "schedule_ok js [] (concat (map (\<lambda>j. [Attempted j, Saved j ex_save]) js))" for js :: "nat list"
    by (induction js) simp_all
  then show ?thesis by (simp add: ex_sched_def)
qed

definition ex_put :: put_env where
  "ex_put = \<lparr>pe_id = ''k'', pe_now = 0, pe_text = ascii_text, pe_hook = (\<lambda>_. HookNotExist), pe_save = ex_save\<rparr>"

definition ex_finish :: finish_env where
  "ex_finish =
     \<lparr>fe_dsn = \<lparr>de_msgid = ''i'', de_boundary = ''b'', de_date = ''now'', de_getMessageID = (\<lambda>_. [])\<rparr>,
      fe_put = ex_put, fe_removed = True\<rparr>"

theorem SendLoop_ends_witness:
  "\<exists>n item' q' q'' dsn.
     send_loop (ex_msg_codec (message_of ex_pending)) (\<lambda>i. ex_round (int i * 20 * minute)) ex_sched 0 ex_pending ex_queue
       = Some (n, item', q') \<and>
     SendLoop (ex_msg_codec (message_of ex_pending)) (\<lambda>i. ex_round (int i * 20 * minute)) ex_sched ex_finish ex_pending ex_queue
       = Some (item', q'', dsn) \<and> m_From item' = ''a@d''"
proof -
  have c: "clock_ok (it_CreatedAt ex_pending) (\<lambda>i. ex_round (int i * 20 * minute))"
    by (simp add: clock_ok_def ex_round_def ex_item_def nextDelay_def)
  from SendLoop_ends [OF _ c, where sched = ex_sched and cd = "ex_msg_codec (message_of ex_pending)" and fenv = ex_finish
      and q = ex_queue] ex_sched_ok show ?thesis by (fastforce simp: ex_item_def)
qed

definition ex_put_item :: Item where
  "ex_put_item =
     \<lparr>m_ID = ''k'', m_From = ''a@d'', m_To = [''c@e''], m_Rcpt = [ex_rcpt ''c@e'' Recipient_PENDING []], m_Data = ''x'',
      m_CreatedAtTs = (0, 0), it_CreatedAt = 0\<rparr>"

lemmas ex_write_eval =
  ex_msg_codec_def WriteTextMessage_def WriteFile_def write_tmp_def write_body_def write_finish_def FsyncFileOp_def
  getOwner_def ex_save_def tmp_name_def path_dir_def path_base_def item_path_def itemFilePrefix_def message_of_def
  Message.defs Let_def

lemma ex_queue_fields:
  "q_path ex_queue = ''q''" "q_disk ex_queue = []" "q_MaxItems ex_queue = 100" "q_Len ex_queue = 0"
  by (simp_all add: ex_queue_def q_New_def q_Len_def)

lemma ex_put_result:
  "\<exists>q'. q_Put (ex_msg_codec (message_of ex_put_item)) ex_put ex_queue ''a@d'' [''c@e''] ''x''
     = (Ok ''k'', q', Some ex_put_item)"
proof -
  have r: "put_rcpts ascii_text (\<lambda>_. HookNotExist) (q_aliases ex_queue) [''c@e''] = Ok [ex_rcpt ''c@e'' Recipient_PENDING []]"
    by (simp add: Resolve_def resolve.simps recursionLimit_def resolve_step_def ex_queue_def q_New_def NewResolver_def
        Split_addr_def SplitN2_def queue_rcpt_def ex_rcpt_def)
  have w: "\<exists>fs. WriteTo (ex_msg_codec (message_of ex_put_item)) ex_save ''q'' ex_put_item [] = (None, ex_put_item, fs)"
    by (simp add: WriteTo_def timeToProto_def ex_put_item_def ex_write_eval)
  show ?thesis using r w ex_queue_fields by (auto simp: q_Put_def ex_put_def ex_put_item_def)
qed

theorem q_Put_outcome_witness:
  "\<exists>q' item. q_Put (ex_msg_codec (message_of ex_put_item)) ex_put ex_queue ''a@d'' [''c@e''] ''x'' = (Ok ''k'', q', Some item) \<and>
     map_of (q_items q') ''k'' = Some item \<and> m_Rcpt item = [ex_rcpt ''c@e'' Recipient_PENDING []]"
proof -
  obtain q' where p: "q_Put (ex_msg_codec (message_of ex_put_item)) ex_put ex_queue ''a@d'' [''c@e''] ''x''
     = (Ok ''k'', q', Some ex_put_item)" using ex_put_result by blast
  from q_Put_outcome [OF ex_msg_codec_ok p] p show ?thesis by (auto simp: ex_put_item_def)
qed

theorem Put_survives_restart_witness:
  "\<exists>q'. q_Put (ex_msg_codec (message_of ex_put_item)) ex_put ex_queue ''a@d'' [''c@e''] ''x''
     = (Ok ''k'', q', Some ex_put_item) \<and>
     map_of (q_items (fst (q_Load (ex_msg_codec (message_of ex_put_item))
       (q_New (q_path ex_queue) None (NewResolver (\<lambda>_ _. Ok True)) (q_disk q'))))) ''k'' = Some ex_put_item"
proof -
  obtain q' where p: "q_Put (ex_msg_codec (message_of ex_put_item)) ex_put ex_queue ''a@d'' [''c@e''] ''x''
     = (Ok ''k'', q', Some ex_put_item)" using ex_put_result by blast
  have "disk_ok (ex_msg_codec (message_of ex_put_item)) ex_queue"
    by (simp add: disk_ok_def item_files_iff ex_queue_def q_New_def)
  moreover have "CHR ''/'' \<notin> set (pe_id ex_put)" by (simp add: ex_put_def)
  ultimately have "case q_Load (ex_msg_codec (message_of ex_put_item))
      (q_New (q_path ex_queue) None (NewResolver (\<lambda>_ _. Ok True)) (q_disk q')) of (q2, started) \<Rightarrow>
      map_of (q_items q2) ''k'' = Some ex_put_item"
    using Put_survives_restart [OF ex_msg_codec_ok _ _ p, of None "NewResolver (\<lambda>_ _. Ok True)"] by auto
  with p show ?thesis by (auto split: prod.splits)
qed

definition ex_dsn_item :: "string \<Rightarrow> Item" where
  "ex_dsn_item data =
     \<lparr>m_ID = ''k'', m_From = ''<>'', m_To = [''a@d''], m_Rcpt = [ex_rcpt ''a@d'' Recipient_PENDING []], m_Data = data,
      m_CreatedAtTs = (0, 0), it_CreatedAt = 0\<rparr>"

lemma ex_dsn_put:
  "\<exists>q'. q_Put (ex_msg_codec (message_of (ex_dsn_item data))) ex_put ex_queue ''<>'' [''a@d''] data
     = (Ok ''k'', q', Some (ex_dsn_item data))"
proof -
  have r: "put_rcpts ascii_text (\<lambda>_. HookNotExist) (q_aliases ex_queue) [''a@d''] = Ok [ex_rcpt ''a@d'' Recipient_PENDING []]"
    by (simp add: Resolve_def resolve.simps recursionLimit_def resolve_step_def ex_queue_def q_New_def NewResolver_def
        Split_addr_def SplitN2_def queue_rcpt_def ex_rcpt_def)
  have w: "\<exists>fs. WriteTo (ex_msg_codec (message_of (ex_dsn_item data))) ex_save ''q'' (ex_dsn_item data) []
      = (None, ex_dsn_item data, fs)"
    by (simp add: WriteTo_def timeToProto_def ex_dsn_item_def ex_write_eval)
  show ?thesis using r w ex_queue_fields by (auto simp: q_Put_def ex_put_def ex_dsn_item_def)
qed

theorem finish_item_dsn_witness:
  "\<exists>cd q' d. finish_item cd ex_finish (ex_item [ex_rcpt ''c@e'' Recipient_FAILED ''refused'']) ex_queue = (q', Some d) \<and>
     m_From d = ''<>'' \<and> m_To d = [''a@d'']"
proof -
  let ?item = "ex_item [ex_rcpt ''c@e'' Recipient_FAILED ''refused'']"
  let ?data = "deliveryStatusNotification (fe_dsn ex_finish) (dsn_domain ex_queue ?item) ?item"
  let ?cd = "ex_msg_codec (message_of (ex_dsn_item ?data))"
  obtain q' d where f: "finish_item ?cd ex_finish ?item ex_queue = (q', d)" by fastforce
  have "m_From ?item = ''a@d''" "fe_put ex_finish = ex_put" "\<exists>r \<in> set (m_Rcpt ?item). Status r \<noteq> Recipient_SENT"
    by (simp_all add: ex_item_def ex_finish_def ex_rcpt_def)
  then have "d \<noteq> None"
    using finish_item_dsn [OF ex_msg_codec_ok f] ex_dsn_put [of ?data] by (auto simp: is_ok_def)
  then obtain dsn where "d = Some dsn" by blast
  with finish_item_dsn [OF ex_msg_codec_ok f] f \<open>m_From ?item = ''a@d''\<close> show ?thesis by auto
qed

end
