(* ===== verification/Courier.thy ===== *)
theory Courier
  imports SmtpClient Sts DomainInfo Queue
begin

text \<open>
  The couriers of \<open>src/internal/courier\<close>: \<open>mda.go\<close>, which runs a program to deliver local mail, and
  \<open>smtp.go\<close>, which delivers to the servers of a remote domain over SMTP and checks the security
  level of each connection. What programs and servers do is given by environments. The SMTP
  courier also returns what it sent, and at which level.
\<close>

section \<open>The MDA courier\<close>

record MDA =
  mda_Binary :: string
  mda_Args :: "string list"
  mda_Timeout :: int

text \<open>How a command with a time limit ended: whether the deadline passed, its output, and the error with its exit status.\<close>

datatype cmd_error = ExitError int string | RunError string

record cmd_result =
  cr_deadline :: bool
  cr_output :: string
  cr_err :: "cmd_error option"

type_synonym run_cmd = "int \<Rightarrow> string \<Rightarrow> string list \<Rightarrow> string \<Rightarrow> cmd_result"

definition mda_forbidden :: "nat set" where
  "mda_forbidden = byte ` set (''/;'' @ [CHR 0x22, CHR 0x27, CHR 0x5C] @ ''|*&$%()[]{}'' @ [CHR 0x60] @ ''!'')"

definition sanitizeForMDA :: "string \<Rightarrow> string" where
  "sanitizeForMDA s =
     concat (map encode_rune (filter (\<lambda>r. \<not> (IsSpace r \<or> IsControl r \<or> r \<in> mda_forbidden)) (runes s)))"

text \<open>\<open>strings.NewReplacer\<close>: at each position, the first of the pairs that matches there.\<close>

function replacer :: "(string \<times> string) list \<Rightarrow> string \<Rightarrow> string" where
  "replacer pairs s =
     (case s of
        [] \<Rightarrow> []
      | c # t \<Rightarrow>
          (case find (\<lambda>(old, new). old \<noteq> [] \<and> prefix old s) pairs of
             None \<Rightarrow> c # replacer pairs t
           | Some (old, new) \<Rightarrow> new @ replacer pairs (drop (length old) s)))"
  by pat_completeness auto
termination
  by (relation "measure (length \<circ> snd)") (auto simp: find_Some_iff)

declare replacer.simps [simp del]

definition mda_pairs :: "string \<Rightarrow> string \<Rightarrow> (string \<times> string) list" where
  "mda_pairs from to =
     [(''%from%'', from), (''%from_user%'', UserOf from), (''%from_domain%'', DomainOf from),
      (''%to%'', to), (''%to_user%'', UserOf to), (''%to_domain%'', DomainOf to)]"

fun cmd_error_text :: "cmd_error \<Rightarrow> string" where
  "cmd_error_text (ExitError _ m) = m"
| "cmd_error_text (RunError m) = m"

definition mda_Deliver ::
  "unicode \<Rightarrow> run_cmd \<Rightarrow> MDA \<Rightarrow> string \<Rightarrow> string \<Rightarrow> string \<Rightarrow> string option \<times> bool" where
  "mda_Deliver u run p from to data =
     (let from' = sanitizeForMDA from;
          to' = sanitizeForMDA to;
          args = map (replacer (mda_pairs from' to')) (mda_Args p);
          r = run (mda_Timeout p) (mda_Binary p) args (ToCRLF data)
      in if cr_deadline r then (Some ''operation timed out'', False)
         else case cr_err r of
             Some e \<Rightarrow>
               (Some (''MDA delivery failed: '' @ cmd_error_text e @ '' - '' @ Quote u (cr_output r)),
                case e of ExitError status _ \<Rightarrow> status \<noteq> 75 | RunError _ \<Rightarrow> True)
           | None \<Rightarrow> (None, False))"

definition mda_Forward :: "string \<Rightarrow> string \<Rightarrow> string \<Rightarrow> string list \<Rightarrow> string option \<times> bool" where
  "mda_Forward from to data servers = (Some ''forwarding not supported by the MDA courier'', True)"

section \<open>The SMTP courier\<close>

text \<open>
  One connection to a server: the errors of dialing, of creating the client and of the greeting,
  the extensions before and after TLS, the error of the change to TLS and whether the
  certificate verifies, what is answered to each line, the error of writing the body, and the answer
  to the end of it.
\<close>

record session =
  ss_dial :: "string option"
  ss_client :: "string option"
  ss_hello :: "string \<Rightarrow> string option"
  ss_exts :: "string list"
  ss_starttls :: "string option"
  ss_verify :: bool
  ss_tls_exts :: "string list"
  ss_reply :: "string \<Rightarrow> reply"
  ss_write :: "string option"
  ss_final :: reply

datatype mx_error = DNSError bool bool string | LookupError string

fun mx_error_text :: "mx_error \<Rightarrow> string" where
  "mx_error_text (DNSError _ _ m) = m"
| "mx_error_text (LookupError m) = m"

text \<open>The hosts, or the error and whether it is permanent.\<close>

definition lookupMXs ::
  "textlib \<Rightarrow> (string \<Rightarrow> (mx_error, string list) result) \<Rightarrow> string \<Rightarrow> (string \<times> bool, string list) result" where
  "lookupMXs tx netLookupMX domain =
     (case idna_ToASCII tx domain of
        Inl e \<Rightarrow> Err (e, True)
      | Inr d \<Rightarrow>
          (case netLookupMX d of
             Inl (LookupError e) \<Rightarrow> Err (e, False)
           | Inl (DNSError isNotFound temporary e) \<Rightarrow>
               if isNotFound then Ok [d] else Err (e, \<not> temporary)
           | Inr hosts \<Rightarrow> Ok (take 5 hosts)))"

definition verifyConnection :: "session \<Rightarrow> SecLevel" where
  "verifyConnection ss = (if ss_verify ss then TLS_SECURE else TLS_INSECURE)"

record SMTP =
  smtp_HelloDomain :: string
  smtp_STSCache :: "string option"

record attempt =
  at_from :: string
  at_to :: string
  at_data :: string
  at_toDomain :: string
  at_stsPolicy :: "Policy option"

text \<open>What was sent to which server at which level: a line, or the body and how it was answered.\<close>

datatype sent =
    SentLine (sent_mx: string) (sent_level: SecLevel) string
  | SentBody (sent_mx: string) (sent_level: SecLevel) string reply

fun sec_name :: "SecLevel \<Rightarrow> string" where
  "sec_name PLAIN = ''PLAIN''"
| "sec_name TLS_CLIENT = ''TLS_CLIENT''"
| "sec_name TLS_INSECURE = ''TLS_INSECURE''"
| "sec_name TLS_SECURE = ''TLS_SECURE''"

text \<open>The text of an error; a protocol error has its code first, in three digits.\<close>

definition smtp_error_text :: "smtp_error \<Rightarrow> string" where
  "smtp_error_text e =
     (case e of
        NetError m \<Rightarrow> m
      | ProtocolError code m \<Rightarrow>
          (let ds = FormatInt code in replicate (3 - length ds) (CHR ''0'') @ ds @ '' '' @ m))"

text \<open>From the envelope on: what is left to do once the connection has been accepted.\<close>

definition transmit ::
  "textlib \<Rightarrow> session \<Rightarrow> attempt \<Rightarrow> string \<Rightarrow> SecLevel \<Rightarrow> string list \<Rightarrow> (string option \<times> bool) \<times> sent list" where
  "transmit tx ss a mx level exts =
     (let c = \<lparr>cl_exts = exts, cl_reply = ss_reply ss, cl_sent = []\<rparr> in
      case MailAndRcpt tx c (at_from a) (at_to a) of
        (Some e, c1) \<Rightarrow> ((Some (''MAIL+RCPT '' @ smtp_error_text e), IsPermanent e), map (SentLine mx level) (cl_sent c1))
      | (None, c1) \<Rightarrow>
          (case cmd c1 354 ''DATA'' of
             (Some e, c2) \<Rightarrow> ((Some (''DATA '' @ smtp_error_text e), IsPermanent e), map (SentLine mx level) (cl_sent c2))
           | (None, c2) \<Rightarrow>
               (case ss_write ss of
                  Some e \<Rightarrow> ((Some (''DATA writing: '' @ e), False), map (SentLine mx level) (cl_sent c2))
                | None \<Rightarrow>
                    (let evs = map (SentLine mx level) (cl_sent c2) @ [SentBody mx level (at_data a) (ss_final ss)] in
                     case read_response 250 (ss_final ss) of
                       Some e \<Rightarrow> ((Some (''DATA closing '' @ smtp_error_text e), IsPermanent e), evs)
                     | None \<Rightarrow> ((None, False), evs)))))"

text \<open>
  \<open>attempt.deliver\<close>. The second connection, after a failed change to TLS, is a new session. The
  result is the error and its kind, the database of levels, and what was sent.
\<close>

function at_deliver ::
  "textlib \<Rightarrow> 's put_fn \<Rightarrow> SMTP \<Rightarrow> (bool \<Rightarrow> session) \<Rightarrow> attempt \<Rightarrow> string \<Rightarrow> bool \<Rightarrow> 's domain_db
     \<Rightarrow> (string option \<times> bool) \<times> 's domain_db \<times> sent list" where
  "at_deliver tx put s sessions a mx skipTLS db =
     (let ss = sessions skipTLS in
      case ss_dial ss of Some e \<Rightarrow> ((Some (''Could not dial: '' @ e), False), db, []) | None \<Rightarrow>
      case ss_client ss of Some e \<Rightarrow> ((Some (''Error creating client: '' @ e), False), db, []) | None \<Rightarrow>
      case ss_hello ss (smtp_HelloDomain s) of Some e \<Rightarrow> ((Some (''Error saying hello: '' @ e), False), db, []) | None \<Rightarrow>
      if ''STARTTLS'' \<in> set (ss_exts ss) \<and> \<not> skipTLS \<and> ss_starttls ss \<noteq> None
      then at_deliver tx put s sessions a mx True db
      else
        (let tls = (''STARTTLS'' \<in> set (ss_exts ss) \<and> \<not> skipTLS);
             secLevel = (if tls then verifyConnection ss else PLAIN);
             exts = (if tls then ss_tls_exts ss else ss_exts ss);
             (ok, db') = Outgoing put db (at_toDomain a) secLevel
         in if \<not> ok then
              ((Some (''Security level check failed (level:'' @ sec_name secLevel @ '')''), False), db', [])
            else if (case at_stsPolicy a of None \<Rightarrow> False | Some p \<Rightarrow> p_Mode p = Enforce) \<and> secLevel \<noteq> TLS_SECURE then
              ((Some (''invalid security level ('' @ sec_name secLevel @ '') for STS policy''), False), db', [])
            else (let (res, evs) = transmit tx ss a mx secLevel exts in (res, db', evs))))"
  by pat_completeness auto
termination
  by (relation "measure (\<lambda>(tx, put, s, sessions, a, mx, skipTLS, db). if skipTLS then 0 else 1)") auto

declare at_deliver.simps [simp del]

text \<open>The loop over the servers of \<open>Deliver\<close> and \<open>Forward\<close>, which differ in which they skip.\<close>

definition err_or_nil :: "string option \<Rightarrow> string" where
  "err_or_nil err = (case err of None \<Rightarrow> ''<nil>'' | Some e \<Rightarrow> e)"

fun try_servers ::
  "textlib \<Rightarrow> 's put_fn \<Rightarrow> SMTP \<Rightarrow> (nat \<Rightarrow> bool \<Rightarrow> session) \<Rightarrow> attempt \<Rightarrow> (string \<Rightarrow> bool) \<Rightarrow> string
     \<Rightarrow> nat \<Rightarrow> string list \<Rightarrow> string option \<Rightarrow> 's domain_db \<Rightarrow> (string option \<times> bool) \<times> 's domain_db \<times> sent list" where
  "try_servers tx put s net a allowed what i [] err db =
     ((Some (''all '' @ what @ '' returned transient failures (last: '' @ err_or_nil err @ '')''), False), db, [])"
| "try_servers tx put s net a allowed what i (mx # mxs) err db =
     (if \<not> allowed mx then try_servers tx put s net a allowed what (Suc i) mxs err db
      else
        (case at_deliver tx put s (net i) a mx False db of
           ((None, _), db', evs) \<Rightarrow> ((None, False), db', evs)
         | ((Some e, True), db', evs) \<Rightarrow> ((Some e, True), db', evs)
         | ((Some e, False), db', evs) \<Rightarrow>
             (let (res, db'', evs') = try_servers tx put s net a allowed what (Suc i) mxs (Some e) db'
              in (res, db'', evs @ evs'))))"

text \<open>
  What one delivery meets: the network, the lookups, and the policy cache. The state is the
  database of levels and the files of the cache; \<open>None\<close> is the panic of the cache on a domain with
  a slash.
\<close>

record smtp_env =
  sm_text :: textlib
  sm_net :: "nat \<Rightarrow> bool \<Rightarrow> session"
  sm_LookupMX :: "string \<Rightarrow> (mx_error, string list) result"
  sm_load :: load_env
  sm_sts :: sts_env
  sm_store :: store_env
  sm_json :: "Policy codec"

definition fetchSTSPolicy ::
  "smtp_env \<Rightarrow> SMTP \<Rightarrow> file_system \<Rightarrow> string \<Rightarrow> (Policy option \<times> file_system) option" where
  "fetchSTSPolicy env s fs domain =
     (case smtp_STSCache s of
        None \<Rightarrow> Some (None, fs)
      | Some dir \<Rightarrow>
          (case cache_Fetch (sm_json env) dir (sm_load env) (sm_sts env) (sm_store env) fs domain of
             None \<Rightarrow> None
           | Some (Inl _, fs') \<Rightarrow> Some (None, fs')
           | Some (Inr p, fs') \<Rightarrow> Some (Some p, fs')))"

definition new_attempt :: "string \<Rightarrow> string \<Rightarrow> string \<Rightarrow> attempt" where
  "new_attempt from to data =
     \<lparr>at_from = (if from = ''<>'' then [] else from), at_to = to, at_data = data, at_toDomain = DomainOf to,
      at_stsPolicy = None\<rparr>"

definition smtp_Deliver ::
  "smtp_env \<Rightarrow> 's put_fn \<Rightarrow> SMTP \<Rightarrow> 's domain_db \<Rightarrow> file_system \<Rightarrow> string \<Rightarrow> string \<Rightarrow> string
     \<Rightarrow> ((string option \<times> bool) \<times> 's domain_db \<times> file_system \<times> sent list) option" where
  "smtp_Deliver env put s db fs from to data =
     (let a = new_attempt from to data in
      case lookupMXs (sm_text env) (sm_LookupMX env) (at_toDomain a) of
        Inl (e, perm) \<Rightarrow> Some ((Some (''Could not find mail server: '' @ e), perm), db, fs, [])
      | Inr mxs \<Rightarrow>
          if mxs = [] then Some ((Some ''Could not find mail server: <nil>'', True), db, fs, [])
          else case fetchSTSPolicy env s fs (at_toDomain a) of
              None \<Rightarrow> None
            | Some (policy, fs') \<Rightarrow>
                (let allowed = (\<lambda>mx. case policy of None \<Rightarrow> True | Some p \<Rightarrow> MXIsAllowed (sm_text env) p mx);
                     (res, db', evs) = try_servers (sm_text env) put s (sm_net env) (a\<lparr>at_stsPolicy := policy\<rparr>)
                                         allowed ''MXs'' 0 mxs None db
                 in Some (res, db', fs', evs)))"

definition smtp_Forward ::
  "smtp_env \<Rightarrow> 's put_fn \<Rightarrow> SMTP \<Rightarrow> 's domain_db \<Rightarrow> string \<Rightarrow> string \<Rightarrow> string \<Rightarrow> string list
     \<Rightarrow> (string option \<times> bool) \<times> 's domain_db \<times> sent list" where
  "smtp_Forward env put s db from to data servers =
     try_servers (sm_text env) put s (sm_net env) (new_attempt from to data) (\<lambda>_. True) ''servers'' 0 servers None db"

section \<open>What is sent, and when a delivery succeeds\<close>

definition body_accepted :: "string \<Rightarrow> sent list \<Rightarrow> bool" where
  "body_accepted data evs \<longleftrightarrow> (\<exists>mx l msg. SentBody mx l data (Ok (250, msg)) \<in> set evs)"

text \<open>Everything went to one of the servers, at a level that is allowed for the domain.\<close>

definition sent_secure :: "'s domain_db \<Rightarrow> attempt \<Rightarrow> (string \<Rightarrow> bool) \<Rightarrow> sent list \<Rightarrow> bool" where
  "sent_secure db a ok evs \<longleftrightarrow>
     (\<forall>e \<in> set evs. ok (sent_mx e) \<and> out_level db (at_toDomain a) \<le> sent_level e \<and>
        (\<forall>p. at_stsPolicy a = Some p \<longrightarrow> p_Mode p = Enforce \<longrightarrow> sent_level e = TLS_SECURE))"

lemma sent_secure_simps [simp]:
  "sent_secure db a ok []"
  "sent_secure db a ok (xs @ ys) \<longleftrightarrow> sent_secure db a ok xs \<and> sent_secure db a ok ys"
  by (auto simp: sent_secure_def)

lemma body_accepted_append [simp]: "body_accepted d (xs @ ys) \<longleftrightarrow> body_accepted d xs \<or> body_accepted d ys"
  by (auto simp: body_accepted_def)

lemma transmit_props:
  assumes "transmit tx ss a mx level exts = (res, evs)"
  shows "\<forall>e \<in> set evs. sent_mx e = mx \<and> sent_level e = level"
    and "fst res = None \<Longrightarrow> res = (None, False) \<and> body_accepted (at_data a) evs"
proof -
  let ?c = "\<lparr>cl_exts = exts, cl_reply = ss_reply ss, cl_sent = []\<rparr> :: Client"
  obtain e1 c1 where m: "MailAndRcpt tx ?c (at_from a) (at_to a) = (e1, c1)" by fastforce
  obtain e2 c2 where d: "cmd c1 354 ''DATA'' = (e2, c2)" by fastforce
  show "\<forall>e \<in> set evs. sent_mx e = mx \<and> sent_level e = level"
    using assms m d by (auto simp: transmit_def Let_def split: option.splits)
  assume "fst res = None"
  then have "ss_write ss = None \<and> read_response 250 (ss_final ss) = None \<and> res = (None, False) \<and>
      SentBody mx level (at_data a) (ss_final ss) \<in> set evs"
    using assms m d by (auto simp: transmit_def Let_def split: option.splits)
  moreover from this obtain msg where "ss_final ss = Ok (250, msg)"
    by (auto simp: read_response_def code_expected_def split: sum.splits if_splits)
  ultimately show "res = (None, False) \<and> body_accepted (at_data a) evs"
    unfolding body_accepted_def by metis
qed

text \<open>The ways an attempt can end.\<close>

lemma at_deliver_cases:
  assumes "at_deliver tx put s sessions a mx skipTLS db = (res, db', evs)"
  shows "(\<exists>e. res = (Some e, False) \<and> db' = db \<and> evs = [])
    \<or> (\<not> skipTLS \<and> at_deliver tx put s sessions a mx True db = (res, db', evs))
    \<or> (\<exists>level ok. Outgoing put db (at_toDomain a) level = (ok, db') \<and>
         ((\<exists>e. res = (Some e, False) \<and> evs = []) \<or>
          ok \<and> (\<forall>p. at_stsPolicy a = Some p \<longrightarrow> p_Mode p = Enforce \<longrightarrow> level = TLS_SECURE) \<and>
          (\<exists>exts. transmit tx (sessions skipTLS) a mx level exts = (res, evs))))"
proof -
  let ?ss = "sessions skipTLS"
  consider e where "ss_dial ?ss = Some e" | e where "ss_dial ?ss = None" "ss_client ?ss = Some e"
    | e where "ss_dial ?ss = None" "ss_client ?ss = None" "ss_hello ?ss (smtp_HelloDomain s) = Some e"
    | "ss_dial ?ss = None" "ss_client ?ss = None" "ss_hello ?ss (smtp_HelloDomain s) = None"
    by (cases "ss_dial ?ss"; cases "ss_client ?ss"; cases "ss_hello ?ss (smtp_HelloDomain s)") auto
  then show ?thesis
  proof cases
    case 4
    show ?thesis
    proof (cases "''STARTTLS'' \<in> set (ss_exts ?ss) \<and> \<not> skipTLS \<and> ss_starttls ?ss \<noteq> None")
      case True
      then have "''STARTTLS'' \<in> set (ss_exts ?ss)" "\<not> skipTLS" "ss_starttls ?ss \<noteq> None" by auto
      with 4 have "at_deliver tx put s sessions a mx skipTLS db = at_deliver tx put s sessions a mx True db"
        by (subst at_deliver.simps) (simp add: Let_def)
      with True assms show ?thesis by simp
    next
      case False
      let ?tls = "''STARTTLS'' \<in> set (ss_exts ?ss) \<and> \<not> skipTLS"
      let ?level = "if ?tls then verifyConnection ?ss else PLAIN"
      let ?exts = "if ?tls then ss_tls_exts ?ss else ss_exts ?ss"
      obtain ok db1 where o: "Outgoing put db (at_toDomain a) ?level = (ok, db1)" by fastforce
      obtain res1 evs1 where t: "transmit tx ?ss a mx ?level ?exts = (res1, evs1)" by fastforce
      let ?sts = "(case at_stsPolicy a of None \<Rightarrow> False | Some p \<Rightarrow> p_Mode p = Enforce) \<and> ?level \<noteq> TLS_SECURE"
      have "(res, db', evs) =
          (if \<not> ok then ((Some (''Security level check failed (level:'' @ sec_name ?level @ '')''), False), db1, [])
           else if ?sts then ((Some (''invalid security level ('' @ sec_name ?level @ '') for STS policy''), False), db1, [])
           else (res1, db1, evs1))"
        using assms 4 False o t
        by (simp only: at_deliver.simps [of _ _ _ _ _ _ skipTLS] Let_def option.case if_False prod.case)
      then show ?thesis using o t by (auto split: if_splits option.splits)
    qed
  qed (use assms in \<open>auto simp: at_deliver.simps [of _ _ _ _ _ _ skipTLS] Let_def\<close>)
qed

lemma at_deliver_props:
  assumes "at_deliver tx put s sessions a mx skipTLS db = (res, db', evs)"
  shows "sent_secure db a (\<lambda>m. m = mx) evs \<and> (fst res = None \<longrightarrow> res = (None, False) \<and> body_accepted (at_data a) evs) \<and>
    out_level db (at_toDomain a) \<le> out_level db' (at_toDomain a)"
    (is "?P res db' evs")
proof -
  have out: "?P res db' evs"
    if o: "Outgoing put db (at_toDomain a) level = (ok, db')"
      and r: "(\<exists>e. res = (Some e, False) \<and> evs = []) \<or>
          ok \<and> (\<forall>p. at_stsPolicy a = Some p \<longrightarrow> p_Mode p = Enforce \<longrightarrow> level = TLS_SECURE) \<and>
          (\<exists>exts. transmit tx ss a mx level exts = (res, evs))" for level ok ss
    using r
  proof (elim disjE exE conjE)
    fix exts
    assume sts: "\<forall>p. at_stsPolicy a = Some p \<longrightarrow> p_Mode p = Enforce \<longrightarrow> level = TLS_SECURE" and ok
      and t: "transmit tx ss a mx level exts = (res, evs)"
    note t = transmit_props [OF t]
    have "out_level db (at_toDomain a) \<le> level" using Outgoing_levels(1) [OF o] \<open>ok\<close> by simp
    with t(1) sts have "sent_secure db a (\<lambda>m. m = mx) evs" by (simp add: sent_secure_def)
    with t(2) Outgoing_levels(2) [OF o] show ?thesis by simp
  qed (use Outgoing_levels(2) [OF o] in simp)
  have once: "?P res db' evs" if "at_deliver tx put s sessions a mx True db = (res, db', evs)"
    using at_deliver_cases [OF that] out by (elim disjE exE conjE) auto
  show ?thesis using at_deliver_cases [OF assms] once out by (elim disjE exE conjE) auto
qed

text \<open>The loop over the servers.\<close>

lemma try_servers_props:
  assumes "try_servers tx put s net a allowed what i mxs err db = (res, db', evs)"
  shows "sent_secure db a (\<lambda>m. m \<in> set mxs \<and> allowed m) evs \<and>
    (fst res = None \<longrightarrow> res = (None, False) \<and> body_accepted (at_data a) evs) \<and>
    out_level db (at_toDomain a) \<le> out_level db' (at_toDomain a)"
  using assms
proof (induction mxs arbitrary: i err db res db' evs)
  case (Cons mx mxs)
  have weak: "sent_secure db a (\<lambda>m. m \<in> set (mx # mxs) \<and> allowed m) evs"
    if "sent_secure d a P evs" "out_level db (at_toDomain a) \<le> out_level d (at_toDomain a)"
      "\<And>m. P m \<Longrightarrow> m \<in> set (mx # mxs) \<and> allowed m" for d P evs
    using that unfolding sent_secure_def by (meson order_trans)
  show ?case
  proof (cases "allowed mx")
    case False
    with Cons.prems have "try_servers tx put s net a allowed what (Suc i) mxs err db = (res, db', evs)" by simp
    note ih = Cons.IH [OF this]
    then have "sent_secure db a (\<lambda>m. m \<in> set (mx # mxs) \<and> allowed m) evs"
      by - (rule weak [of db "\<lambda>m. m \<in> set mxs \<and> allowed m"], simp_all)
    with ih show ?thesis by blast
  next
    case True
    obtain e perm db1 evs1 where d: "at_deliver tx put s (net i) a mx False db = ((e, perm), db1, evs1)"
      by (metis prod.exhaust)
    note p = at_deliver_props [OF d]
    have s1: "sent_secure db a (\<lambda>m. m \<in> set (mx # mxs) \<and> allowed m) evs1"
      using p True by - (rule weak [of db "\<lambda>m. m = mx"], simp_all)
    show ?thesis
    proof (cases "\<exists>x. e = Some x \<and> \<not> perm")
      case False
      have "e = None \<longrightarrow> \<not> perm" using p by simp
      with False have "e = None \<and> \<not> perm \<or> (\<exists>x. e = Some x \<and> perm)" by (cases e) auto
      then have "res = (e, perm) \<and> db' = db1 \<and> evs = evs1"
        using Cons.prems True d by (elim disjE exE conjE) simp_all
      then show ?thesis using p s1 by blast
    next
      case e: True
      obtain res2 db2 evs2 where t: "try_servers tx put s net a allowed what (Suc i) mxs e db1 = (res2, db2, evs2)"
        by (metis prod.exhaust)
      have r: "res = res2" "db' = db2" "evs = evs1 @ evs2"
        using Cons.prems True d e t by (auto split: prod.splits)
      note ih = Cons.IH [OF t]
      have "sent_secure db a (\<lambda>m. m \<in> set (mx # mxs) \<and> allowed m) evs2"
        using ih p by - (rule weak [of db1 "\<lambda>m. m \<in> set mxs \<and> allowed m"], simp_all)
      with ih p s1 show ?thesis unfolding r sent_secure_simps body_accepted_append by (meson order_trans)
    qed
  qed
qed simp

lemma fetchSTSPolicy_None_iff:
  "fetchSTSPolicy env s fs d = None \<longleftrightarrow> CHR ''/'' \<in> set d \<and> (\<exists>dir. smtp_STSCache s = Some dir)"
proof (cases "smtp_STSCache s")
  case (Some dir)
  let ?f = "cache_Fetch (sm_json env) dir (sm_load env) (sm_sts env) (sm_store env) fs d"
  have "fetchSTSPolicy env s fs d = None \<longleftrightarrow> ?f = None"
    using Some by (auto simp: fetchSTSPolicy_def split: option.split sum.split prod.split)
  with Some show ?thesis by (simp add: cache_Fetch_None)
qed (simp add: fetchSTSPolicy_def)

lemma lookupMXs_five: "lookupMXs tx look d = Ok ms \<Longrightarrow> length ms \<le> 5"
  by (auto simp: lookupMXs_def split: sum.splits mx_error.splits if_splits)

text \<open>What is known of everything that was sent in a delivery under a policy.\<close>

lemma try_servers_events:
  assumes "try_servers tx put s net (a\<lparr>at_stsPolicy := policy\<rparr>) (\<lambda>mx. case policy of None \<Rightarrow> True | Some p \<Rightarrow> MXIsAllowed tx p mx)
      src n ms last_err db = (res, db', evs)"
    and "e \<in> set evs"
  shows "out_level db (at_toDomain a) \<le> sent_level e \<and> sent_mx e \<in> set ms \<and>
    (case policy of
       None \<Rightarrow> True
     | Some p \<Rightarrow> MXIsAllowed tx p (sent_mx e) \<and> (if p_Mode p = ''enforce'' then sent_level e = TLS_SECURE else True))"
  using try_servers_props [OF assms(1)] assms(2) by (cases policy) (auto simp: sent_secure_def)

text \<open>
  C14. A remote delivery is as secure as the domain asks for. Nothing of the message, not even its
  envelope, is sent to a server that is not one of the first five the DNS gives, or that the MTA-STS
  policy does not allow; nor over a connection below the level recorded for the domain, or
  one without a verified certificate when the policy is enforced. The recorded level never goes
  down. Success is reported only when a server took the whole message. The code panics exactly
  when the policy cache is asked for a domain with a slash.
\<close>

theorem smtp_Deliver_secure:
  "(smtp_Deliver env put s db fs from to data = None \<longleftrightarrow>
      CHR ''/'' \<in> set (DomainOf to) \<and> (\<exists>dir. smtp_STSCache s = Some dir) \<and> (\<exists>m ms. lookupMXs (sm_text env) (sm_LookupMX env) (DomainOf to) = Ok (m # ms))) \<and>
    (case smtp_Deliver env put s db fs from to data of
       None \<Rightarrow> True
     | Some (res, db', fs', evs) \<Rightarrow>
       out_level db (DomainOf to) \<le> out_level db' (DomainOf to) \<and>
       (if fst res = None then snd res = False \<and> body_accepted data evs else True) \<and>
       list_all (\<lambda>e. out_level db (DomainOf to) \<le> sent_level e \<and>
         (\<exists>ms policy. lookupMXs (sm_text env) (sm_LookupMX env) (DomainOf to) = Ok ms \<and> length ms \<le> 5 \<and> sent_mx e \<in> set ms \<and>
            fetchSTSPolicy env s fs (DomainOf to) = Some (policy, fs') \<and>
            (case policy of
               None \<Rightarrow> True
             | Some p \<Rightarrow> MXIsAllowed (sm_text env) p (sent_mx e) \<and>
                 (if p_Mode p = ''enforce'' then sent_level e = TLS_SECURE else True)))) evs)"
proof -
  let ?d = "DomainOf to" and ?a = "new_attempt from to data"
  let ?look = "lookupMXs (sm_text env) (sm_LookupMX env) ?d"
  have a: "at_toDomain ?a = ?d" "at_data ?a = data" by (simp_all add: new_attempt_def)
  note fetch = fetchSTSPolicy_None_iff [of env s fs ?d]
  show ?thesis
  proof (cases "\<exists>m ms. ?look = Ok (m # ms)")
    case False
    then consider e perm where "?look = Err (e, perm)" | "?look = Ok []"
      by (cases ?look; cases "projr ?look") auto
    then show ?thesis by cases (simp_all add: smtp_Deliver_def a Let_def)
  next
    case True
    then obtain m ms where ms: "?look = Ok (m # ms)" by blast
    show ?thesis
    proof (cases "fetchSTSPolicy env s fs ?d")
      case None
      then show ?thesis using ms fetch by (simp add: smtp_Deliver_def a)
    next
      case (Some pf)
      obtain policy fs' where pf: "pf = (policy, fs')" by fastforce
      let ?allowed = "\<lambda>mx. case policy of None \<Rightarrow> True | Some p \<Rightarrow> MXIsAllowed (sm_text env) p mx"
      let ?b = "?a\<lparr>at_stsPolicy := policy\<rparr>"
      obtain res db' evs where t: "try_servers (sm_text env) put s (sm_net env) ?b ?allowed ''MXs'' 0 (m # ms) None db = (res, db', evs)"
        by (metis prod.exhaust)
      have r: "smtp_Deliver env put s db fs from to data = Some (res, db', fs', evs)"
        using ms Some pf t by (simp add: smtp_Deliver_def a)
      note p = try_servers_props [OF t]
      have nopanic: "\<not> (CHR ''/'' \<in> set ?d \<and> (\<exists>dir. smtp_STSCache s = Some dir))" using Some fetch by simp
      note sec = try_servers_events [OF t, unfolded a attempt.simps]
      have "list_all (\<lambda>e. out_level db ?d \<le> sent_level e \<and>
         (\<exists>ms policy. ?look = Ok ms \<and> length ms \<le> 5 \<and> sent_mx e \<in> set ms \<and>
            fetchSTSPolicy env s fs ?d = Some (policy, fs') \<and>
            (case policy of
               None \<Rightarrow> True
             | Some p \<Rightarrow> MXIsAllowed (sm_text env) p (sent_mx e) \<and>
                 (if p_Mode p = ''enforce'' then sent_level e = TLS_SECURE else True)))) evs"
        unfolding list_all_iff using sec ms lookupMXs_five [OF ms] Some pf by (metis (no_types, lifting))
      then show ?thesis using r nopanic p by (auto simp: a)
    qed
  qed
qed

section \<open>The arguments of the MDA\<close>

definition mda_safe :: "char \<Rightarrow> bool" where
  "mda_safe c \<longleftrightarrow> 128 \<le> byte c \<or> \<not> (IsSpace (byte c) \<or> IsControl (byte c) \<or> byte c \<in> mda_forbidden)"

lemma sanitizeForMDA_safe: "c \<in> set (sanitizeForMDA s) \<Longrightarrow> mda_safe c"
proof -
  assume "c \<in> set (sanitizeForMDA s)"
  then obtain r where r: "c \<in> set (encode_rune r)" "\<not> (IsSpace r \<or> IsControl r \<or> r \<in> mda_forbidden)"
    by (auto simp: sanitizeForMDA_def)
  show ?thesis
  proof (cases "byte c < 128")
    case True
    with r encode_rune_ascii_byte [OF r(1) True] show ?thesis by (simp add: mda_safe_def)
  qed (simp add: mda_safe_def)
qed

lemma replacer_set:
  "\<forall>p \<in> set pairs. set (snd p) \<subseteq> A \<Longrightarrow> set (replacer pairs s) \<subseteq> set s \<union> A"
proof (induction pairs s rule: replacer.induct)
  case (1 pairs s)
  show ?case
  proof (cases s)
    case Nil
    then show ?thesis by (simp add: replacer.simps)
  next
    case (Cons c t)
    show ?thesis
    proof (cases "find (\<lambda>(old, new). old \<noteq> [] \<and> prefix old s) pairs")
      case None
      then show ?thesis using "1.IH"(1) [OF Cons None "1.prems"] Cons by (subst replacer.simps) auto
    next
      case (Some p)
      obtain old new where p: "p = (old, new)" by fastforce
      have "(old, new) \<in> set pairs" using Some p by (auto simp: find_Some_iff) (metis nth_mem)
      then have "set new \<subseteq> A" using "1.prems" by force
      moreover have "set (replacer pairs (drop (length old) s)) \<subseteq> set (drop (length old) s) \<union> A"
        using "1.IH"(2) [OF Cons Some p [symmetric] "1.prems"] .
      moreover have "replacer pairs s = new @ replacer pairs (drop (length old) s)"
        using Cons Some p by (subst replacer.simps) simp
      ultimately show ?thesis using set_drop_subset [of "length old" s] by auto
    qed
  qed
qed

lemma UserDomain_set: "set (UserOf a) \<subseteq> set a" "set (DomainOf a) \<subseteq> set a"
  by (cases rule: Split_addr_cases [of a]; auto simp: UserOf_def DomainOf_def)+


section \<open>The contract of a courier\<close>

text \<open>What the queue relies on: no error means that the message was taken.\<close>

locale courier_contract =
  fixes C :: Courier and accepted :: "string \<Rightarrow> string \<Rightarrow> string \<Rightarrow> bool"
  assumes deliver_ok: "co_Deliver C from to data = (None, perm) \<Longrightarrow> accepted from to data"
    and forward_ok: "co_Forward C from to data via = (None, perm) \<Longrightarrow> accepted from to data"

locale two_couriers = lo: courier_contract L la + re: courier_contract R ra for L la R ra
begin

lemma delivered_accepted:
  assumes "re_localC env = L" "re_remoteC env = R" "q_deliver env q item r = (None, perm)"
  shows "case q_Type r of
      Recipient_PIPE \<Rightarrow> (\<exists>c args. Fields (Address r) = c # args \<and> re_cmd env c args (m_Data item) = None)
    | Recipient_FORWARD \<Rightarrow> ra (srs_from (re_text env) q (m_From item) (OriginalAddress r)) (Address r) (m_Data item)
    | Recipient_EMAIL \<Rightarrow>
        if DomainIn (Address r) (q_localDomains q) then la (m_From item) (Address r) (m_Data item)
        else ra (srs_from (re_text env) q (m_From item) (OriginalAddress r)) (Address r) (m_Data item)"
  using assms(3) unfolding q_deliver_def assms(1,2)
  by (cases "q_Type r") (auto dest: lo.deliver_ok re.deliver_ok re.forward_ok
      split: list.splits if_splits)

end

definition mda_courier :: "unicode \<Rightarrow> run_cmd \<Rightarrow> MDA \<Rightarrow> Courier" where
  "mda_courier u run p = \<lparr>co_Deliver = mda_Deliver u run p, co_Forward = mda_Forward\<rparr>"

definition mda_took :: "run_cmd \<Rightarrow> MDA \<Rightarrow> string \<Rightarrow> string \<Rightarrow> string \<Rightarrow> bool" where
  "mda_took run p from to data \<longleftrightarrow>
     (let r = run (mda_Timeout p) (mda_Binary p)
                (map (replacer (mda_pairs (sanitizeForMDA from) (sanitizeForMDA to))) (mda_Args p)) (ToCRLF data)
      in \<not> cr_deadline r \<and> cr_err r = None)"

text \<open>
  The SMTP courier as the queue sees it. Each delivery finds the database and the cache in some
  state, given by the recipient; after a panic there is no result, and never a success.
\<close>

definition smtp_courier ::
  "smtp_env \<Rightarrow> 's put_fn \<Rightarrow> SMTP \<Rightarrow> (string \<Rightarrow> 's domain_db \<times> file_system) \<Rightarrow> Courier" where
  "smtp_courier env put s st =
     \<lparr>co_Deliver = (\<lambda>from to data.
        case smtp_Deliver env put s (fst (st to)) (snd (st to)) from to data of
          None \<Rightarrow> (Some ''panic'', True)
        | Some (res, _) \<Rightarrow> res),
      co_Forward = (\<lambda>from to data via. fst (smtp_Forward env put s (fst (st to)) from to data via))\<rparr>"

definition smtp_took ::
  "smtp_env \<Rightarrow> 's put_fn \<Rightarrow> SMTP \<Rightarrow> (string \<Rightarrow> 's domain_db \<times> file_system) \<Rightarrow> string \<Rightarrow> string \<Rightarrow> string \<Rightarrow> bool" where
  "smtp_took env put s st from to data \<longleftrightarrow>
     (\<exists>mx level msg evs. SentBody mx level data (Ok (250, msg)) \<in> set evs \<and>
        out_level (fst (st to)) (DomainOf to) \<le> level \<and>
        ((\<exists>res db' fs'. smtp_Deliver env put s (fst (st to)) (snd (st to)) from to data = Some (res, db', fs', evs)) \<or>
         (\<exists>via res db'. smtp_Forward env put s (fst (st to)) from to data via = (res, db', evs))))"

interpretation mda_contract: courier_contract "mda_courier u run p" "mda_took run p" for u run p
  by unfold_locales
    (auto simp: mda_courier_def mda_took_def mda_Deliver_def mda_Forward_def Let_def split: if_splits option.splits)

lemma accepted_at_level:
  assumes "body_accepted data evs" "list_all (\<lambda>e. l \<le> sent_level e) evs"
  shows "\<exists>mx level msg. SentBody mx level data (Ok (250, msg)) \<in> set evs \<and> l \<le> level"
  using assms unfolding body_accepted_def list_all_iff by (metis sent.sel(4))

lemma smtp_Deliver_levels:
  assumes "smtp_Deliver env put s db fs from to data = Some ((None, perm), db', fs', evs)"
  shows "body_accepted data evs \<and> list_all (\<lambda>e. out_level db (DomainOf to) \<le> sent_level e) evs"
proof -
  let ?a = "new_attempt from to data"
  have a: "at_toDomain ?a = DomainOf to" "at_data ?a = data" by (simp_all add: new_attempt_def)
  from assms obtain policy allowed mxs where
    "try_servers (sm_text env) put s (sm_net env) (?a\<lparr>at_stsPolicy := policy\<rparr>) allowed ''MXs'' 0 mxs None db
       = ((None, perm), db', evs)"
    by (auto simp: smtp_Deliver_def Let_def split: sum.splits prod.splits option.splits if_splits)
  from try_servers_props [OF this] show ?thesis by (simp add: sent_secure_def list_all_iff a)
qed

interpretation smtp_contract: courier_contract "smtp_courier env put s st" "smtp_took env put s st" for env put s st
proof unfold_locales
  fix "from" to data perm
  assume "co_Deliver (smtp_courier env put s st) from to data = (None, perm)"
  then obtain db' fs' evs where d: "smtp_Deliver env put s (fst (st to)) (snd (st to)) from to data = Some ((None, perm), db', fs', evs)"
    by (auto simp: smtp_courier_def split: option.splits prod.splits)
  from accepted_at_level smtp_Deliver_levels [OF d] d show "smtp_took env put s st from to data"
    unfolding smtp_took_def by metis
next
  fix "from" to data via perm
  assume "co_Forward (smtp_courier env put s st) from to data via = (None, perm)"
  then obtain db' evs where f: "smtp_Forward env put s (fst (st to)) from to data via = ((None, perm), db', evs)"
    by (cases "smtp_Forward env put s (fst (st to)) from to data via") (auto simp: smtp_courier_def)
  have "body_accepted data evs \<and> list_all (\<lambda>e. out_level (fst (st to)) (DomainOf to) \<le> sent_level e) evs"
    using try_servers_props [OF f [unfolded smtp_Forward_def]] by (simp add: sent_secure_def list_all_iff new_attempt_def)
  with accepted_at_level f show "smtp_took env put s st from to data"
    unfolding smtp_took_def by metis
qed

interpretation couriers: two_couriers "mda_courier u run p" "mda_took run p" "smtp_courier env put s st" "smtp_took env put s st"
  for u run p env put s st
  by unfold_locales

text \<open>
  C15. With the couriers of the program, a recipient of a queued message is marked as sent only when
  the message was really taken. For a local address the MDA ran on it to its end, in time and
  with success. For a remote one, or one that is forwarded, some server acknowledged the whole message
  over a connection not below the level recorded for the domain, with the sender rewritten when it
  is not local. For a pipe its command ran with success.
\<close>

theorem sent_means_taken:
  assumes "schedule_ok (pending item) [] evs"
    "re_localC env = mda_courier u run p" "re_remoteC env = smtp_courier senv put s st"
    "send_round cd env evs (item, q) = (item', q')"
    "j < length (m_Rcpt item)" "Status (m_Rcpt item ! j) = Recipient_PENDING" "Status (m_Rcpt item' ! j) = Recipient_SENT"
  defines "r \<equiv> m_Rcpt item ! j"
  defines "srs \<equiv> (if DomainIn (m_From item) (q_localDomains q) then m_From item
                   else rewriteSender (re_text env) (m_From item) (OriginalAddress r))"
  shows "case q_Type r of
      Recipient_PIPE \<Rightarrow> (\<exists>c args. Fields (Address r) = c # args \<and> re_cmd env c args (m_Data item) = None)
    | Recipient_FORWARD \<Rightarrow> smtp_took senv put s st srs (Address r) (m_Data item)
    | Recipient_EMAIL \<Rightarrow>
        if DomainIn (Address r) (q_localDomains q) then mda_took run p (m_From item) (Address r) (m_Data item)
        else smtp_took senv put s st srs (Address r) (m_Data item)"
proof -
  obtain err perm where d: "q_deliver env q item r = (err, perm)" by fastforce
  have "m_Rcpt item' ! j = rcpt_result (err, perm) r"
    using send_round_rcpts [OF assms(1,4)] assms(5,6) d by (simp add: r_def)
  then have ok: "err = None"
    using assms(6,7) by (cases err) (auto simp: rcpt_result_def r_def Let_def split: if_splits)
  have srs: "srs_from (re_text env) q (m_From item) (OriginalAddress r) = srs" by (simp add: srs_from_def srs_def)
  show ?thesis
    using couriers.delivered_accepted [OF assms(2,3), of q item r perm, unfolded srs] d ok by blast
qed

definition ex_session :: session where
  "ex_session =
     \<lparr>ss_dial = None, ss_client = None, ss_hello = (\<lambda>d. None), ss_exts = [''STARTTLS''], ss_starttls = None,
      ss_verify = True, ss_tls_exts = [],
      ss_reply = (\<lambda>l. if l = ''DATA'' then Ok (354, ''go'') else Ok (250, ''ok'')), ss_write = None, ss_final = Ok (250, ''queued'')\<rparr>"

definition ex_smtp :: smtp_env where
  "ex_smtp =
     \<lparr>sm_text = ascii_text, sm_net = (\<lambda>i skip. ex_session), sm_LookupMX = (\<lambda>d. Ok [''mx.'' @ d]),
      sm_load = \<lparr>lo_now = 0, lo_stat = None, lo_read = None\<rparr>,
      sm_sts = \<lparr>st_text = ascii_text, st_lookupTXT = (\<lambda>d. Ok []), st_http = (\<lambda>u. HttpRedirect), st_fakeURL = []\<rparr>,
      sm_store = ex_store, sm_json = ex_json\<rparr>"

abbreviation ex_courier :: SMTP where
  "ex_courier \<equiv> \<lparr>smtp_HelloDomain = ''h'', smtp_STSCache = Some ''sts''\<rparr>"

abbreviation no_store :: "unit put_fn" where
  "no_store \<equiv> \<lambda>st k d. (None, st)"

abbreviation no_levels :: "unit domain_db" where
  "no_levels \<equiv> \<lparr>di_store = (), di_info = []\<rparr>"

text \<open>A domain with a slash, which an address may have, ends the process.\<close>

lemma smtp_Deliver_secure_witness:
  "smtp_Deliver ex_smtp no_store ex_courier no_levels [] ''a@b'' ''u@c/d'' ''x'' = None"
proof -
  have d: "DomainOf ''u@c/d'' = ''c/d''" by (simp add: go_eval)
  have l: "lookupMXs (sm_text ex_smtp) (sm_LookupMX ex_smtp) ''c/d'' = Ok [''mx.c/d'']"
    by (simp add: lookupMXs_def ex_smtp_def ascii_text_def)
  show ?thesis
    using smtp_Deliver_secure [of ex_smtp no_store ex_courier no_levels "[]" "''a@b''" "''u@c/d''" "''x''"] d l by simp
qed

definition ex_run :: run_cmd where
  "ex_run t bin args stdin = \<lparr>cr_deadline = False, cr_output = [], cr_err = None\<rparr>"

definition ex_mda :: MDA where
  "ex_mda = \<lparr>mda_Binary = ''mda'', mda_Args = [''-d'', ''%to%''], mda_Timeout = 30\<rparr>"

definition ex_couriers :: round_env where
  "ex_couriers = (ex_round 0)
     \<lparr>re_localC := mda_courier (tl_unicode ascii_text) ex_run ex_mda,
      re_remoteC := smtp_courier ex_smtp no_store ex_courier (\<lambda>to. (no_levels, []))\<rparr>"

lemma sent_means_taken_witness:
  "let item = ex_item [ex_rcpt ''b@d'' Recipient_PENDING []]; evs = [Attempted 0, Saved 0 ex_save];
       r = send_round (ex_msg_codec (message_of item)) ex_couriers evs (item, ex_queue)
   in Status (m_Rcpt (fst r) ! 0) = Recipient_SENT \<and> mda_took ex_run ex_mda ''a@d'' ''b@d'' ''x''"
proof -
  let ?item = "ex_item [ex_rcpt ''b@d'' Recipient_PENDING []]" and ?evs = "[Attempted 0, Saved 0 ex_save]"
  let ?r = "send_round (ex_msg_codec (message_of ?item)) ex_couriers ?evs (?item, ex_queue)"
  obtain item' q' where r: "?r = (item', q')" by fastforce
  have s: "schedule_ok (pending ?item) [] ?evs" by (simp add: pending_def ex_item_def ex_rcpt_def upt_conv_Cons)
  have p: "0 < length (m_Rcpt ?item)" "Status (m_Rcpt ?item ! 0) = Recipient_PENDING"
    by (simp_all add: ex_item_def ex_rcpt_def)
  have "q_deliver ex_couriers ex_queue ?item (m_Rcpt ?item ! 0) = (None, False)"
    by (simp add: q_deliver_def ex_couriers_def ex_item_def ex_rcpt_def mda_courier_def mda_Deliver_def ex_run_def Let_def)
  then have sent: "Status (m_Rcpt item' ! 0) = Recipient_SENT"
    using send_round_rcpts [OF s r] p by (simp add: rcpt_result_def)
  have "re_localC ex_couriers = mda_courier (tl_unicode ascii_text) ex_run ex_mda"
    "re_remoteC ex_couriers = smtp_courier ex_smtp no_store ex_courier (\<lambda>to. (no_levels, []))"
    by (simp_all add: ex_couriers_def)
  from sent_means_taken [OF s this r p sent]
  have "mda_took ex_run ex_mda ''a@d'' ''b@d'' ''x''" by (simp add: ex_item_def ex_rcpt_def)
  with r sent show ?thesis by (simp add: Let_def)
qed

end
