(* ===== verification/DkimMessage.thy ===== *)
theory DkimMessage
  imports Normalize
begin

text \<open>
  The message parser and the canonicalizations of DKIM, \<open>src/internal/dkim/message.go\<close> and
  \<open>src/internal/dkim/canonicalize.go\<close>. The regular expressions of the code are written out as
  functions on strings.
\<close>

section \<open>Headers and messages\<close>

record header =
  h_Name :: string
  h_Value :: string
  h_Source :: string

type_synonym headers = "header list"

definition FindAll :: "unicode \<Rightarrow> headers \<Rightarrow> string \<Rightarrow> headers" where
  "FindAll u hs name = filter (\<lambda>h. EqualFold u (h_Name h) name) hs"

definition parseHeader :: "string \<Rightarrow> (string, header) result" where
  "parseHeader line =
     (let (name, val, found) = Cut line '':'' in
      if \<not> found then Err ''invalid header: no colon''
      else Ok \<lparr>h_Name = name, h_Value = val, h_Source = line\<rparr>)"

text \<open>A continuation line goes to the last header so far.\<close>

definition add_cont :: "string \<Rightarrow> header \<Rightarrow> header" where
  "add_cont line h = h\<lparr>h_Value := h_Value h @ CRLF @ line, h_Source := h_Source h @ CRLF @ line\<rparr>"

definition is_cont :: "string \<Rightarrow> bool" where
  "is_cont line \<longleftrightarrow> HasPrefix line '' '' \<or> HasPrefix line [TAB]"

text \<open>
  The loop over the lines: the headers, and the index of the line that ended them, if any did.
\<close>

fun parse_lines_from :: "string list \<Rightarrow> nat \<Rightarrow> headers \<Rightarrow> (string, headers \<times> nat option) result" where
  "parse_lines_from [] i hs = Ok (hs, None)"
| "parse_lines_from (line # lines) i hs =
     (if line = [] then Ok (hs, Some i)
      else if is_cont line then
        (if hs = [] then Err ''invalid header: bad continuation''
         else parse_lines_from lines (Suc i) (butlast hs @ [add_cont line (last hs)]))
      else and_then (parseHeader line) (\<lambda>h. parse_lines_from lines (Suc i) (hs @ [h])))"

definition parseMessage :: "string \<Rightarrow> (string, headers \<times> string) result" where
  "parseMessage message =
     (let lines = Split message CRLF in
      and_then (parse_lines_from lines 0 []) (\<lambda>(hs, eoh).
        Ok (hs, Join (drop (Suc (case eoh of None \<Rightarrow> 0 | Some i \<Rightarrow> i)) lines) CRLF)))"

section \<open>Canonicalization\<close>

datatype canonicalization = simpleCanonicalization | relaxedCanonicalization

definition is_wsp :: "char \<Rightarrow> bool" where
  "is_wsp c \<longleftrightarrow> c = SP \<or> c = TAB"

text \<open>The expression for CRLFs at the end of the text; on the reversed string.\<close>

fun strip_crlf_rev :: "string \<Rightarrow> string" where
  "strip_crlf_rev (a # b # s) = (if a = LF \<and> b = CR then strip_crlf_rev s else a # b # s)"
| "strip_crlf_rev s = s"

definition strip_crlf_end :: "string \<Rightarrow> string" where
  "strip_crlf_end s = rev (strip_crlf_rev (rev s))"

definition repeatedCRLFAtTheEnd :: "string \<Rightarrow> string" where
  "repeatedCRLFAtTheEnd s = (if HasSuffix s CRLF then strip_crlf_end s @ CRLF else s)"

text \<open>Runs of WSP become one space.\<close>

fun repeatedWSP :: "string \<Rightarrow> string" where
  "repeatedWSP [] = []"
| "repeatedWSP (c # s) =
     (if is_wsp c then (case s of d # _ \<Rightarrow> if is_wsp d then repeatedWSP s else SP # repeatedWSP s | [] \<Rightarrow> [SP])
      else c # repeatedWSP s)"

text \<open>Runs of WSP before CRLF are removed.\<close>

function wspBeforeCRLF :: "string \<Rightarrow> string" where
  "wspBeforeCRLF s =
     (case s of
        [] \<Rightarrow> []
      | c # t \<Rightarrow>
          if is_wsp c then
            (let run = takeWhile is_wsp s; rest = dropWhile is_wsp s
             in (if HasPrefix rest CRLF then [] else run) @ wspBeforeCRLF rest)
          else c # wspBeforeCRLF t)"
  by pat_completeness auto
termination
  by (relation "measure length") (auto simp: length_dropWhile_le le_imp_less_Suc)

declare wspBeforeCRLF.simps [simp del]

text \<open>A CRLF and the WSP after it become a space.\<close>

function continuedHeader :: "string \<Rightarrow> string" where
  "continuedHeader s =
     (case s of
        a # b # c # t \<Rightarrow>
          if a = CR \<and> b = LF \<and> is_wsp c then SP # continuedHeader (dropWhile is_wsp t)
          else a # continuedHeader (b # c # t)
      | _ \<Rightarrow> s)"
  by pat_completeness auto
termination
  by (relation "measure length") (auto simp: length_dropWhile_le less_Suc_eq_le le_SucI)

declare continuedHeader.simps [simp del]

definition simpleBody :: "string \<Rightarrow> string" where
  "simpleBody body =
     (let body = repeatedCRLFAtTheEnd body
      in if HasSuffix body CRLF then body else body @ CRLF)"

definition relaxBody :: "string \<Rightarrow> string" where
  "relaxBody body =
     (let body = repeatedCRLFAtTheEnd (repeatedWSP (wspBeforeCRLF body))
      in if 1 \<le> length body \<and> \<not> HasSuffix body CRLF then body @ CRLF else body)"

definition relax_value :: "string \<Rightarrow> string" where
  "relax_value v =
     TrimLeft (TrimRight (repeatedWSP (continuedHeader v)) {SP, TAB}) {SP, TAB}"

definition relaxHeader :: "unicode \<Rightarrow> header \<Rightarrow> header" where
  "relaxHeader u h =
     (let name = TrimRight (ToLower u (h_Name h)) {SP, TAB}; val = relax_value (h_Value h)
      in \<lparr>h_Name = name, h_Value = val, h_Source = name @ '':'' @ val\<rparr>)"

definition relaxHeaders :: "unicode \<Rightarrow> headers \<Rightarrow> headers" where
  "relaxHeaders u hs = map (relaxHeader u) hs"

definition canon_body :: "canonicalization \<Rightarrow> string \<Rightarrow> string" where
  "canon_body c b = (case c of
      simpleCanonicalization \<Rightarrow> simpleBody b
    | relaxedCanonicalization \<Rightarrow> relaxBody b)"

definition canon_header :: "unicode \<Rightarrow> canonicalization \<Rightarrow> header \<Rightarrow> header" where
  "canon_header u c h = (case c of
      simpleCanonicalization \<Rightarrow> h
    | relaxedCanonicalization \<Rightarrow> relaxHeader u h)"

definition stringToCanonicalization :: "string \<Rightarrow> (string, canonicalization) result" where
  "stringToCanonicalization s =
     (if s = ''simple'' then Ok simpleCanonicalization
      else if s = ''relaxed'' then Ok relaxedCanonicalization
      else Err (''unknown canonicalization: '' @ s))"

section \<open>Parsing keeps every byte\<close>

definition lines_text :: "string list \<Rightarrow> string" where
  "lines_text ls = concat (map (\<lambda>l. l @ CRLF) ls)"

lemma lines_text_simps [simp]:
  "lines_text [] = []" "lines_text (l # ls) = l @ CRLF @ lines_text ls"
  "lines_text (xs @ ys) = lines_text xs @ lines_text ys"
  by (simp_all add: lines_text_def)

lemma Join_lines: "Join (xs @ y # ys) CRLF = lines_text xs @ Join (y # ys) CRLF"
  by (induction xs) (simp_all add: Join_Cons)

lemma parse_lines_from_text:
  assumes "parse_lines_from ls i hs = Ok (hs', eoh)"
  shows "\<exists>pre post. ls = pre @ post \<and>
    lines_text (map h_Source hs') = lines_text (map h_Source hs) @ lines_text pre \<and>
    (case eoh of None \<Rightarrow> post = [] | Some j \<Rightarrow> j = i + length pre \<and> (\<exists>t. post = [] # t))"
  using assms
proof (induction ls arbitrary: i hs)
  case (Cons line ls)
  show ?case
  proof (cases "line = []")
    case True
    then show ?thesis using Cons.prems by (intro exI [of _ "[]"] exI [of _ "[] # ls"]) auto
  next
    case False
    then obtain hs1 where rest: "parse_lines_from ls (Suc i) hs1 = Ok (hs', eoh)"
      and src: "lines_text (map h_Source hs1) = lines_text (map h_Source hs) @ line @ CRLF"
    proof (cases "is_cont line")
      case True
      then have "hs \<noteq> []" and p: "parse_lines_from ls (Suc i) (butlast hs @ [add_cont line (last hs)]) = Ok (hs', eoh)"
        using Cons.prems False by (simp_all split: if_splits)
      from \<open>hs \<noteq> []\<close> have "lines_text (map h_Source (butlast hs @ [add_cont line (last hs)]))
          = lines_text (map h_Source hs) @ line @ CRLF"
        by (cases hs rule: rev_cases) (simp_all add: add_cont_def)
      with p that show ?thesis by blast
    next
      case False
      with \<open>line \<noteq> []\<close> Cons.prems obtain h where h: "parseHeader line = Ok h"
        and p: "parse_lines_from ls (Suc i) (hs @ [h]) = Ok (hs', eoh)"
        by (auto simp: and_then_Ok_iff)
      have "h_Source h = line" using h by (auto simp: parseHeader_def split: prod.splits if_splits)
      with p that show ?thesis by simp
    qed
    from Cons.IH [OF rest] obtain pre post where "ls = pre @ post"
      "lines_text (map h_Source hs') = lines_text (map h_Source hs1) @ lines_text pre"
      "case eoh of None \<Rightarrow> post = [] | Some j \<Rightarrow> j = Suc i + length pre \<and> (\<exists>t. post = [] # t)" by blast
    with src show ?thesis by (intro exI [of _ "line # pre"] exI [of _ post]) (auto split: option.splits)
  qed
qed auto

text \<open>A text that ends in CRLF ends, for the splitting, in an empty line.\<close>

lemma Split_crlf_end: "HasSuffix s CRLF \<Longrightarrow> last (Split s CRLF) = []"
proof (induction s CRLF rule: Split.induct)
  case (1 s)
  obtain x where s: "s = x @ CRLF" using "1.prems" by (auto simp: HasSuffix_def suffix_def)
  have "Index s CRLF \<noteq> None"
    unfolding s by (induction x) auto
  then obtain i where i: "Index s CRLF = Some i" by auto
  have sp: "Split s CRLF = take i s # Split (drop (i + 2) s) CRLF"
    using Split_Some [OF _ i] by simp
  define q where "q = drop (i + 2) s"
  have at: "s = take i s @ CRLF @ q" using Index_Some_split [OF i] by (simp add: q_def)
  have pre: "prefix [LF, CR] (rev q @ [LF, CR] @ rev (take i s))"
    using "1.prems" at by (metis HasSuffix_def suffix_to_prefix rev_append rev.simps append.assoc append_Cons append_Nil)
  show ?case
  proof (cases "q = []")
    case True
    then show ?thesis using sp by (simp add: Split_None q_def)
  next
    case False
    then have "prefix [LF, CR] (rev q)"
      using pre by (cases "rev q"; cases "tl (rev q)") auto
    then have "HasSuffix (drop (i + 2) s) CRLF" by (simp add: HasSuffix_def suffix_to_prefix q_def)
    with "1.hyps" [of i] i have "last (Split (drop (i + 2) s) CRLF) = []" by simp
    then show ?thesis using sp by simp
  qed
qed

lemma parse_lines_from_empty_line:
  "\<lbrakk>parse_lines_from ls i hs = Ok (hs', eoh); [] \<in> set ls\<rbrakk> \<Longrightarrow> eoh \<noteq> None"
proof (induction ls arbitrary: i hs)
  case (Cons line ls)
  then show ?case by (auto simp: and_then_Ok_iff split: if_splits)
qed simp



section \<open>What the relaxed body ignores\<close>

lemma strip_crlf_end_snoc [simp]: "strip_crlf_end (s @ CRLF) = strip_crlf_end s"
  by (simp add: strip_crlf_end_def)

lemma strip_crlf_split: "\<exists>n. s = strip_crlf_end s @ concat (replicate n CRLF)"
proof -
  have "\<exists>n. r = concat (replicate n [LF, CR]) @ strip_crlf_rev r" for r
  proof (induction r rule: strip_crlf_rev.induct)
    case (1 a b s)
    show ?case
    proof (cases "a = LF \<and> b = CR")
      case True
      with 1 obtain n where "s = concat (replicate n [LF, CR]) @ strip_crlf_rev s" by auto
      with True show ?thesis by (intro exI [of _ "Suc n"]) simp
    next
      case False
      then have "strip_crlf_rev (a # b # s) = a # b # s" by auto
      then show ?thesis by (intro exI [of _ 0]) simp
    qed
  qed (intro exI [of _ 0], simp)+
  then obtain n where "rev s = concat (replicate n [LF, CR]) @ strip_crlf_rev (rev s)" by blast
  then have "s = rev (strip_crlf_rev (rev s)) @ rev (concat (replicate n [LF, CR]))"
    by (metis rev_append rev_rev_ident)
  moreover have "rev (concat (replicate n [LF, CR])) = concat (replicate n CRLF)"
  proof (induction n)
    case (Suc n)
    have "concat (replicate n CRLF) @ CRLF = CRLF @ concat (replicate n CRLF)" by (induction n) simp_all
    with Suc show ?case by simp
  qed simp
  ultimately show ?thesis by (auto simp: strip_crlf_end_def)
qed

lemma strip_crlf_no_suffix: "\<not> HasSuffix s CRLF \<Longrightarrow> strip_crlf_end s = s"
proof -
  assume ns: "\<not> HasSuffix s CRLF"
  have "strip_crlf_rev r = r" if "\<not> prefix [LF, CR] r" for r
    using that by (cases r rule: strip_crlf_rev.cases) auto
  moreover have "\<not> prefix [LF, CR] (rev s)"
    using ns by (simp add: HasSuffix_def suffix_to_prefix)
  ultimately show ?thesis by (simp add: strip_crlf_end_def)
qed

lemma simpleBody_eq: "simpleBody b = strip_crlf_end b @ CRLF"
  by (auto simp: simpleBody_def repeatedCRLFAtTheEnd_def HasSuffix_append strip_crlf_no_suffix)

lemma relaxBody_eq:
  "relaxBody b = (let x = repeatedWSP (wspBeforeCRLF b) in if x = [] then [] else strip_crlf_end x @ CRLF)"
  by (auto simp: relaxBody_def repeatedCRLFAtTheEnd_def HasSuffix_append strip_crlf_no_suffix Let_def
      Suc_le_eq)
    (auto simp: HasSuffix_def suffix_def)

lemma wsp_step:
  "wspBeforeCRLF [] = []"
  "\<not> is_wsp c \<Longrightarrow> wspBeforeCRLF (c # t) = c # wspBeforeCRLF t"
  "\<lbrakk>is_wsp c; \<forall>x \<in> set w. is_wsp x; r = [] \<or> \<not> is_wsp (hd r)\<rbrakk> \<Longrightarrow>
     wspBeforeCRLF (c # w @ r) = (if HasPrefix r CRLF then [] else c # w) @ wspBeforeCRLF r"
proof -
  show "wspBeforeCRLF [] = []" by (simp add: wspBeforeCRLF.simps)
  show "\<not> is_wsp c \<Longrightarrow> wspBeforeCRLF (c # t) = c # wspBeforeCRLF t"
    by (subst wspBeforeCRLF.simps) simp
  assume a: "is_wsp c" "\<forall>x \<in> set w. is_wsp x" "r = [] \<or> \<not> is_wsp (hd r)"
  have "takeWhile is_wsp (w @ r) = w" "dropWhile is_wsp (w @ r) = r"
    using a(2,3) by (cases r; simp)+
  then show "wspBeforeCRLF (c # w @ r) = (if HasPrefix r CRLF then [] else c # w) @ wspBeforeCRLF r"
    using a(1) by (subst wspBeforeCRLF.simps) simp
qed

text \<open>Every string is empty, starts with a byte that is not WSP, or starts with a run of WSP.\<close>

lemma wsp_cases:
  obtains "s = []"
  | c t where "s = c # t" "\<not> is_wsp c"
  | c w r where "s = c # w @ r" "is_wsp c" "\<forall>x \<in> set w. is_wsp x" "r = [] \<or> \<not> is_wsp (hd r)"
proof (cases s)
  case (Cons c t)
  show ?thesis
  proof (cases "is_wsp c")
    case True
    have "\<forall>x \<in> set (takeWhile is_wsp t). is_wsp x" by (auto dest: set_takeWhileD)
    moreover have "dropWhile is_wsp t = [] \<or> \<not> is_wsp (hd (dropWhile is_wsp t))"
      by (metis hd_dropWhile)
    ultimately show ?thesis using that(3) [of c "takeWhile is_wsp t" "dropWhile is_wsp t"] Cons True by simp
  qed (use Cons that(2) in blast)
qed (use that(1) in blast)

text \<open>White space added before a CRLF changes nothing.\<close>

lemma HasPrefix_wsp:
  assumes False: "r \<noteq> []" and wsp: "\<forall>x \<in> set w. is_wsp x"
  shows "HasPrefix (r @ w @ CRLF @ b) CRLF \<longleftrightarrow> HasPrefix (r @ CRLF @ b) CRLF"
proof (cases "tl r = []")
  case True
  then obtain d where d: "r = [d]" using False by (cases r) auto
  have "\<not> is_wsp LF" by (simp add: is_wsp_def)
  show ?thesis
  proof (cases w)
    case (Cons e v')
    then have "e \<noteq> LF" using wsp \<open>\<not> is_wsp LF\<close> by auto
    then show ?thesis using d Cons by (auto simp: HasPrefix_def)
  qed simp
next
  case False
  then obtain d e r' where "r = d # e # r'" by (cases r; cases "tl r") auto
  then show ?thesis by (auto simp: HasPrefix_def)
qed

lemma wspBeforeCRLF_ignores:
  assumes "\<forall>x \<in> set w. is_wsp x"
  shows "wspBeforeCRLF (a @ w @ CRLF @ b) = wspBeforeCRLF (a @ CRLF @ b)"
proof (induction a rule: length_induct)
  case (1 a)
  have nw: "\<not> is_wsp CR" by (simp add: is_wsp_def)
  show ?case
  proof (cases rule: wsp_cases [of a])
    case 1
    show ?thesis
    proof (cases w)
      case (Cons c v)
      then show ?thesis
        using assms 1 wsp_step(3) [of c v "CRLF @ b"] nw by (simp add: HasPrefix_def)
    qed (use 1 in simp)
  next
    case (2 c t)
    with "1" show ?thesis by (simp add: wsp_step(2))
  next
    case (3 c v r)
    show ?thesis
    proof (cases "r = []")
      case True
      have "\<forall>x \<in> set (v @ w). is_wsp x" using 3 assms by auto
      then have "wspBeforeCRLF (c # (v @ w) @ CRLF @ b) = wspBeforeCRLF (CRLF @ b)"
        using wsp_step(3) [of c "v @ w" "CRLF @ b"] 3(2) nw by (simp add: HasPrefix_def)
      moreover have "wspBeforeCRLF (c # v @ CRLF @ b) = wspBeforeCRLF (CRLF @ b)"
        using wsp_step(3) [of c v "CRLF @ b"] 3 nw by (simp add: HasPrefix_def)
      ultimately show ?thesis using 3(1) True by simp
    next
      case False
      have len: "length r < length a" using 3(1) by simp
      have hd: "\<not> is_wsp (hd (r @ x))" for x using 3(4) False by simp
      have pre: "HasPrefix (r @ w @ CRLF @ b) CRLF \<longleftrightarrow> HasPrefix (r @ CRLF @ b) CRLF" using HasPrefix_wsp [OF False assms] .
      have "wspBeforeCRLF (c # v @ (r @ w @ CRLF @ b))
          = (if HasPrefix (r @ w @ CRLF @ b) CRLF then [] else c # v) @ wspBeforeCRLF (r @ w @ CRLF @ b)"
        by (rule wsp_step(3)) (use 3 hd in auto)
      moreover have "wspBeforeCRLF (c # v @ (r @ CRLF @ b))
          = (if HasPrefix (r @ CRLF @ b) CRLF then [] else c # v) @ wspBeforeCRLF (r @ CRLF @ b)"
        by (rule wsp_step(3)) (use 3 hd in auto)
      ultimately show ?thesis using "1" len pre 3(1) by simp
    qed
  qed
qed

text \<open>The normal form: no tabs, no two spaces in a row, no space before CRLF.\<close>

fun relaxed_ok :: "string \<Rightarrow> bool" where
  "relaxed_ok [] \<longleftrightarrow> True"
| "relaxed_ok (c # s) \<longleftrightarrow>
     c \<noteq> TAB \<and> (c = SP \<longrightarrow> \<not> HasPrefix s CRLF \<and> (s = [] \<or> \<not> is_wsp (hd s))) \<and> relaxed_ok s"

fun no_wsp_crlf :: "string \<Rightarrow> bool" where
  "no_wsp_crlf [] \<longleftrightarrow> True"
| "no_wsp_crlf (c # s) \<longleftrightarrow> (is_wsp c \<longrightarrow> \<not> HasPrefix s CRLF) \<and> no_wsp_crlf s"

lemma wspBeforeCRLF_LF: "wspBeforeCRLF s = LF # z \<Longrightarrow> \<exists>t. s = LF # t"
proof (induction s rule: length_induct)
  case (1 s)
  have "\<not> is_wsp LF" by (simp add: is_wsp_def)
  show ?case
  proof (cases rule: wsp_cases [of s])
    case (3 c w r)
    show ?thesis
    proof (cases "HasPrefix r CRLF")
      case True
      then obtain r' where "r = CR # LF # r'" by (auto simp: HasPrefix_def prefix_def)
      then show ?thesis
        using "1.prems" 3 True wsp_step(3) [OF 3(2-4)] by (simp add: wsp_step(2) is_wsp_def)
    next
      case False
      then show ?thesis using "1.prems" 3 wsp_step(3) [OF 3(2-4)] \<open>\<not> is_wsp LF\<close> by auto
    qed
  qed (use "1.prems" in \<open>auto simp: wsp_step\<close>)
qed

lemma wspBeforeCRLF_prefix: "\<lbrakk>\<not> is_wsp (hd r); HasPrefix (wspBeforeCRLF r) CRLF\<rbrakk> \<Longrightarrow> HasPrefix r CRLF"
proof (cases r)
  case (Cons d t)
  assume "\<not> is_wsp (hd r)" "HasPrefix (wspBeforeCRLF r) CRLF"
  then have "d = CR" and "\<exists>z. wspBeforeCRLF t = LF # z"
    using Cons by (auto simp: wsp_step(2) HasPrefix_def prefix_def)
  with wspBeforeCRLF_LF [of t] Cons show ?thesis by (auto simp: HasPrefix_def)
qed (simp add: wsp_step HasPrefix_def)

lemma no_wsp_crlf_result: "no_wsp_crlf (wspBeforeCRLF s)"
proof (induction s rule: length_induct)
  case (1 s)
  show ?case
  proof (cases rule: wsp_cases [of s])
    case (3 c w r)
    have IH: "no_wsp_crlf (wspBeforeCRLF r)" using 1 3(1) by simp
    show ?thesis
    proof (cases "HasPrefix r CRLF")
      case True
      then show ?thesis using IH 3 wsp_step(3) [OF 3(2-4)] by simp
    next
      case False
      have np: "\<not> HasPrefix (wspBeforeCRLF r) CRLF"
        using False 3(4) wspBeforeCRLF_prefix [of r] by (cases r) (auto simp: wsp_step HasPrefix_def)
      have "no_wsp_crlf (v @ wspBeforeCRLF r)" if "\<forall>x \<in> set v. is_wsp x" for v
        using that
      proof (induction v)
        case (Cons x v)
        have "\<not> HasPrefix (v @ wspBeforeCRLF r) CRLF"
          using Cons.prems np by (cases v) (auto simp: HasPrefix_def is_wsp_def)
        with Cons show ?case by simp
      qed (simp add: IH)
      from this [of "c # w"] show ?thesis
        using False 3 wsp_step(3) [OF 3(2-4)] by simp
    qed
  qed (use 1 in \<open>simp_all add: wsp_step\<close>)
qed

lemma repeatedWSP_LF: "repeatedWSP s = LF # z \<Longrightarrow> \<exists>t. s = LF # t"
  by (induction s) (auto simp: is_wsp_def split: if_splits list.splits)

lemma repeatedWSP_hd: "s \<noteq> [] \<Longrightarrow> \<not> is_wsp (hd s) \<Longrightarrow> repeatedWSP s \<noteq> [] \<and> hd (repeatedWSP s) = hd s"
  by (cases s) simp_all

lemma repeatedWSP_relaxed: "no_wsp_crlf s \<Longrightarrow> relaxed_ok (repeatedWSP s)"
proof (induction s)
  case (Cons c s)
  then have IH: "relaxed_ok (repeatedWSP s)" by simp
  consider "\<not> is_wsp c" | "is_wsp c" "s = []" | "is_wsp c" "s \<noteq> []" "is_wsp (hd s)"
    | "is_wsp c" "s \<noteq> []" "\<not> is_wsp (hd s)" by blast
  then show ?case
  proof cases
    case 4
    have "\<not> HasPrefix (repeatedWSP s) CRLF"
    proof
      assume "HasPrefix (repeatedWSP s) CRLF"
      then obtain z where z: "repeatedWSP s = CR # LF # z" by (auto simp: HasPrefix_def prefix_def)
      then obtain t where t: "s = CR # t" "repeatedWSP t = LF # z"
        using 4 by (cases s) auto
      then have "HasPrefix s CRLF" using repeatedWSP_LF [of t z] by (auto simp: HasPrefix_def)
      then show False using Cons.prems 4 by simp
    qed
    moreover have "repeatedWSP (c # s) = SP # repeatedWSP s" using 4 by (cases s) simp_all
    ultimately show ?thesis using IH repeatedWSP_hd [OF 4(2,3)] 4(3) by simp
  next
    case 3
    then have "repeatedWSP (c # s) = repeatedWSP s" by (cases s) simp_all
    with IH show ?thesis by simp
  qed (use IH in \<open>simp_all add: is_wsp_def HasPrefix_def\<close>)
qed simp

lemma relaxed_repeatedWSP: "relaxed_ok s \<Longrightarrow> repeatedWSP s = s"
proof (induction s)
  case (Cons c s)
  then have "repeatedWSP s = s" and "c \<noteq> TAB" by simp_all
  moreover have "is_wsp c \<Longrightarrow> s = [] \<or> \<not> is_wsp (hd s)" using Cons.prems by (simp add: is_wsp_def)
  ultimately show ?case by (cases s) (simp_all add: is_wsp_def del: repeatedWSP.simps add: repeatedWSP.simps(2) [of c])
qed simp

lemma relaxed_wspBeforeCRLF: "relaxed_ok s \<Longrightarrow> wspBeforeCRLF s = s"
proof (induction s rule: length_induct)
  case (1 s)
  show ?case
  proof (cases rule: wsp_cases [of s])
    case (3 c w r)
    have "w = []" using 3 "1.prems" by (cases w) (auto simp: is_wsp_def)
    moreover have "\<not> HasPrefix r CRLF" using 3 "1.prems" \<open>w = []\<close> by (auto simp: is_wsp_def)
    moreover have "relaxed_ok r" using 3(1) "1.prems" \<open>w = []\<close> by simp
    ultimately show ?thesis using 1 3 wsp_step(3) [OF 3(2-4)] by simp
  qed (use 1 in \<open>simp_all add: wsp_step\<close>)
qed

lemma relaxed_ok_take: "relaxed_ok (s @ t) \<Longrightarrow> relaxed_ok s"
proof (induction s)
  case (Cons c s)
  have "HasPrefix s CRLF \<Longrightarrow> HasPrefix (s @ t) CRLF" by (simp add: HasPrefix_def)
  with Cons show ?case by (cases s) auto
qed simp

lemma wsp_crlf_tail:
  "\<exists>y. wspBeforeCRLF (a @ CRLF) = y @ CRLF \<and> wspBeforeCRLF (a @ CRLF @ CRLF) = y @ CRLF @ CRLF"
proof (induction a rule: length_induct)
  case (1 a)
  show ?case
  proof (cases rule: wsp_cases [of a])
    case 1
    then show ?thesis by (simp add: wsp_step is_wsp_def)
  next
    case (2 c t)
    from 1 [rule_format, of t] 2(1) obtain y where
      "wspBeforeCRLF (t @ CRLF) = y @ CRLF" "wspBeforeCRLF (t @ CRLF @ CRLF) = y @ CRLF @ CRLF" by auto
    with 2 show ?thesis by (intro exI [of _ "c # y"]) (simp add: wsp_step)
  next
    case (3 c v r)
    from 1 [rule_format, of r] 3(1) obtain y where
      y: "wspBeforeCRLF (r @ CRLF) = y @ CRLF" "wspBeforeCRLF (r @ CRLF @ CRLF) = y @ CRLF @ CRLF" by auto
    have hd: "\<not> is_wsp (hd (r @ CRLF @ x))" for x using 3(4) by (cases r) (auto simp: is_wsp_def)
    have p: "HasPrefix (r @ CRLF @ x) CRLF \<longleftrightarrow> HasPrefix (r @ CRLF) CRLF" for x
      by (cases r; cases "tl r") (auto simp: HasPrefix_def)
    have "wspBeforeCRLF (c # v @ (r @ CRLF @ x)) =
        (if HasPrefix (r @ CRLF) CRLF then [] else c # v) @ wspBeforeCRLF (r @ CRLF @ x)" for x
      using wsp_step(3) [OF 3(2,3), of "r @ CRLF @ x"] hd [of x] unfolding p [of x] by blast
    from this [of "[]"] this [of CRLF] y 3(1) show ?thesis
      by (intro exI [of _ "(if HasPrefix (r @ CRLF) CRLF then [] else c # v) @ y"]) simp
  qed
qed

lemma repeatedWSP_tail:
  "\<exists>z. repeatedWSP (y @ CRLF) = z @ CRLF \<and> repeatedWSP (y @ CRLF @ CRLF) = z @ CRLF @ CRLF"
proof (induction y)
  case (Cons c y)
  then obtain z where
    z: "repeatedWSP (y @ CRLF) = z @ CRLF" "repeatedWSP (y @ CRLF @ CRLF) = z @ CRLF @ CRLF" by blast
  show ?case
  proof (cases "is_wsp c")
    case True
    then have "repeatedWSP (c # y @ CRLF @ x) =
        (if is_wsp (hd (y @ CRLF)) then [] else [SP]) @ repeatedWSP (y @ CRLF @ x)" for x
      by (cases y) (simp_all add: is_wsp_def)
    from this [of "[]"] this [of CRLF] z show ?thesis
      by (intro exI [of _ "(if is_wsp (hd (y @ CRLF)) then [] else [SP]) @ z"]) simp
  qed (use z in \<open>intro exI [of _ "c # z"], simp\<close>)
qed (simp add: is_wsp_def)

lemma strip_crlf_idem: "strip_crlf_end (strip_crlf_end s) = strip_crlf_end s"
proof -
  have "strip_crlf_rev (strip_crlf_rev r) = strip_crlf_rev r" for r
    by (induction r rule: strip_crlf_rev.induct) auto
  then show ?thesis by (simp add: strip_crlf_end_def)
qed



end
