(* ===== verification/DkimSignature.thy ===== *)
theory DkimSignature
  imports DkimMessage GoBase64
begin

text \<open>
  The DKIM-Signature header and the public keys in the DNS, \<open>src/internal/dkim/header.go\<close> and
  \<open>src/internal/dkim/dns.go\<close>. The DNS and the parsing and checking of RSA and Ed25519 keys are
  parameters, the fields of \<open>dkim_env\<close>.
\<close>

section \<open>Tag lists\<close>

datatype dkim_error =
    errInvalidTag string
  | errInvalidVersion
  | errBadATag
  | errUnsupportedKeyType
  | errUnsupportedHash
  | errInvalidSignature string
  | errMissingRequiredTag string
  | errInvalidKey string
  | DNSError string bool
  | OtherLookupError string
  | errParse string
  | ErrBodyHashMismatch string
  | ErrVerificationFailed

type_synonym tags = "(string \<times> string) list"

fun parse_tags_from :: "string list \<Rightarrow> tags \<Rightarrow> (dkim_error, tags) result" where
  "parse_tags_from [] tags = Ok tags"
| "parse_tags_from (tv # tvs) tags =
     (let (t, v, found) = Cut tv ''='' in
      if \<not> found then Err (errInvalidTag (''missing '' @ [CHR 0x27, CHR ''='', CHR 0x27]))
      else let t = TrimSpace t; v = TrimSpace v in
        if t = [] then Err (errInvalidTag ''missing tag name'')
        else if map_of tags t \<noteq> None then Err (errInvalidTag ''duplicate tag'')
        else parse_tags_from tvs (tags @ [(t, v)]))"

definition parseTags :: "string \<Rightarrow> (dkim_error, tags) result" where
  "parseTags s = parse_tags_from (Split (TrimSuffix (TrimSpace s) '';'') '';'') []"

text \<open>Indexing a Go map gives the empty string where the key is missing.\<close>

definition tag :: "tags \<Rightarrow> string \<Rightarrow> string" where
  "tag tags k = (case map_of tags k of None \<Rightarrow> [] | Some v \<Rightarrow> v)"

definition eatWhitespace :: "string \<Rightarrow> string" where
  "eatWhitespace s = filter (\<lambda>c. c \<notin> {SP, TAB, CR, LF}) s"

section \<open>The signature header\<close>

datatype keyType = keyTypeRSA | keyTypeEd25519

datatype Hash = SHA256

definition keyTypeFromString :: "string \<Rightarrow> (dkim_error, keyType) result" where
  "keyTypeFromString s =
     (if s = ''rsa'' then Ok keyTypeRSA
      else if s = ''ed25519'' then Ok keyTypeEd25519
      else Err errUnsupportedKeyType)"

definition hashFromString :: "string \<Rightarrow> (dkim_error, Hash) result" where
  "hashFromString s = (if s = ''sha256'' then Ok SHA256 else Err errUnsupportedHash)"

record dkimSignature =
  ds_v :: string
  ds_a :: string
  ds_KeyType :: keyType
  ds_Hash :: Hash
  ds_b :: string
  ds_bh :: string
  ds_cH :: canonicalization
  ds_cB :: canonicalization
  ds_d :: string
  ds_h :: "string list"
  ds_i :: string
  ds_l :: nat
  ds_q :: "string list"
  ds_s :: string
  ds_t :: "int option"
  ds_x :: "int option"
  ds_z :: string

text \<open>The canonicalizations of the header and of the body.\<close>

definition canonicalizationFromString ::
  "string \<Rightarrow> (dkim_error, canonicalization \<times> canonicalization) result" where
  "canonicalizationFromString s =
     (if s = [] then Ok (simpleCanonicalization, simpleCanonicalization)
      else let (hs, bs, _) = Cut s ''/''; bs = (if bs = [] then ''simple'' else bs) in
        case stringToCanonicalization hs of
          Err e \<Rightarrow> Err (errInvalidSignature ''failed to parse c: header'')
        | Ok cH \<Rightarrow>
            (case stringToCanonicalization bs of
               Err e \<Rightarrow> Err (errInvalidSignature ''failed to parse c: body'')
             | Ok cB \<Rightarrow> Ok (cH, cB)))"

definition checkRequiredTags :: "unicode \<Rightarrow> dkimSignature \<Rightarrow> dkim_error option" where
  "checkRequiredTags u sig =
     (if ds_a sig = [] then Some (errMissingRequiredTag ''a='')
      else if ds_b sig = [] then Some (errMissingRequiredTag ''b='')
      else if ds_bh sig = [] then Some (errMissingRequiredTag ''bh='')
      else if ds_d sig = [] then Some (errMissingRequiredTag ''d='')
      else if ds_h sig = [] then Some (errMissingRequiredTag ''h='')
      else if ds_s sig = [] then Some (errMissingRequiredTag ''s='')
      else if \<not> list_ex (\<lambda>s. EqualFold u s ''from'') (ds_h sig)
        then Some (errInvalidTag (''h= does not contain '' @ [CHR 0x27] @ ''from'' @ [CHR 0x27]))
      else if ds_i sig \<noteq> [] then
        (let (_, domain, _) = Cut (ds_i sig) ''@'' in
         if domain \<noteq> ds_d sig \<and> \<not> HasSuffix domain (''.'' @ ds_d sig)
         then Some (errInvalidTag ''i= is not a subdomain of d='')
         else None)
      else None)"

definition unixStrToTime :: "string \<Rightarrow> string option \<times> int" where
  "unixStrToTime s =
     (case ParseInt64 s of
        Err e \<Rightarrow> (Some ''not an integer'', 0)
      | Ok ti \<Rightarrow> if ti < 0 then (Some ''negative timestamp'', 0) else (None, ti))"

text \<open>A tag that holds base64, a list, a number or a time; \<open>name\<close> is for the error.\<close>

definition b64_tag :: "tags \<Rightarrow> string \<Rightarrow> (dkim_error, string) result" where
  "b64_tag tags name =
     (case b64_decode (eatWhitespace (tag tags name)) of
        None \<Rightarrow> Err (errInvalidSignature (''failed to decode '' @ name))
      | Some b \<Rightarrow> Ok b)"

definition list_tag :: "tags \<Rightarrow> string \<Rightarrow> string list" where
  "list_tag tags name =
     (if tag tags name \<noteq> [] then Split (eatWhitespace (tag tags name)) '':'' else [])"

definition time_tag :: "tags \<Rightarrow> string \<Rightarrow> (dkim_error, int option) result" where
  "time_tag tags name =
     (if tag tags name = [] then Ok None
      else case unixStrToTime (tag tags name) of
          (Some e, _) \<Rightarrow> Err (errInvalidSignature (''failed to parse '' @ name))
        | (None, ti) \<Rightarrow> Ok (Some ti))"

definition length_tag :: "tags \<Rightarrow> (dkim_error, nat) result" where
  "length_tag tags =
     (if tag tags ''l'' = [] then Ok 0
      else case ParseUint (tag tags ''l'') 64 of
          Err e \<Rightarrow> Err (errInvalidSignature ''failed to parse l'')
        | Ok n \<Rightarrow> Ok n)"

definition dkimSignatureFromHeader :: "unicode \<Rightarrow> string \<Rightarrow> (dkim_error, dkimSignature) result" where
  "dkimSignatureFromHeader u header =
     and_then (parseTags header) (\<lambda>tags.
     if tag tags ''v'' \<noteq> ''1'' then Err errInvalidVersion
     else let (ktS, hS, found) = Cut (tag tags ''a'') ''-'' in
       if \<not> found then Err errBadATag
       else
         and_then (keyTypeFromString ktS) (\<lambda>kt.
         and_then (hashFromString hS) (\<lambda>hash.
         and_then (b64_tag tags ''b'') (\<lambda>b.
         and_then (b64_tag tags ''bh'') (\<lambda>bh.
         and_then (canonicalizationFromString (tag tags ''c'')) (\<lambda>(cH, cB).
         and_then (length_tag tags) (\<lambda>l.
         let q = list_tag tags ''q'' in
         if q \<noteq> [] \<and> ''dns/txt'' \<notin> set q
         then Err (errInvalidSignature ''no dns/txt query method in q'')
         else
           and_then (time_tag tags ''t'') (\<lambda>t.
           and_then (time_tag tags ''x'') (\<lambda>x.
           let sig = \<lparr>ds_v = tag tags ''v'', ds_a = tag tags ''a'', ds_KeyType = kt, ds_Hash = hash,
                      ds_b = b, ds_bh = bh, ds_cH = cH, ds_cB = cB, ds_d = tag tags ''d'',
                      ds_h = list_tag tags ''h'', ds_i = tag tags ''i'', ds_l = l, ds_q = q,
                      ds_s = tag tags ''s'', ds_t = t, ds_x = x, ds_z = eatWhitespace (tag tags ''z'')\<rparr>
           in case checkRequiredTags u sig of
                Some e \<Rightarrow> Err e
              | None \<Rightarrow> Ok sig)))))))))"

section \<open>Public keys\<close>

text \<open>
  What \<open>crypto/x509\<close> parsed: an RSA key, or a key of another type. The key itself is abstract, the
  string that stands for it in \<open>rsa_Size\<close> and \<open>rsa_Verify\<close>.
\<close>

datatype pub = RSAPub string | OtherPub

record dkim_env =
  lookupTXT :: "string \<Rightarrow> (dkim_error, string list) result"
  ParsePKIXPublicKey :: "string \<Rightarrow> (string, pub) result"
  ParsePKCS1PublicKey :: "string \<Rightarrow> (string, pub) result"
  rsa_Size :: "string \<Rightarrow> nat"
  rsa_Verify :: "string \<Rightarrow> string \<Rightarrow> string \<Rightarrow> bool"
  ed25519_Verify :: "string \<Rightarrow> string \<Rightarrow> string \<Rightarrow> bool"
  sha256 :: "string \<Rightarrow> string"

text \<open>The closures the code keeps in \<open>publicKey.verify\<close>.\<close>

datatype verifyFunc = VerifyRSA string | VerifyEd25519 string

definition run_verify :: "dkim_env \<Rightarrow> verifyFunc \<Rightarrow> string \<Rightarrow> string \<Rightarrow> bool" where
  "run_verify env f hashed signature = (case f of
      VerifyRSA k \<Rightarrow> rsa_Verify env k hashed signature
    | VerifyEd25519 p \<Rightarrow> ed25519_Verify env p hashed signature)"

record publicKey =
  pk_H :: "Hash list"
  pk_K :: keyType
  pk_P :: string
  pk_T :: "string list"
  pk_verify :: verifyFunc

definition Matches :: "publicKey \<Rightarrow> keyType \<Rightarrow> Hash \<Rightarrow> bool" where
  "Matches pk kt h \<longleftrightarrow> pk_K pk = kt \<and> (pk_H pk \<noteq> [] \<longrightarrow> h \<in> set (pk_H pk))"

definition StrictDomainCheck :: "publicKey \<Rightarrow> bool" where
  "StrictDomainCheck pk \<longleftrightarrow> ''s'' \<in> set (pk_T pk)"

definition parseRSAPublicKey :: "dkim_env \<Rightarrow> string \<Rightarrow> (dkim_error, verifyFunc) result" where
  "parseRSAPublicKey env p =
     (let pub = (case ParsePKIXPublicKey env p of
          Ok k \<Rightarrow> Ok k
        | Err e \<Rightarrow> ParsePKCS1PublicKey env p)
      in case pub of
           Err e \<Rightarrow> Err (errInvalidKey ''invalid RSA public key'')
         | Ok OtherPub \<Rightarrow> Err (errInvalidKey ''not an RSA public key'')
         | Ok (RSAPub k) \<Rightarrow>
             if rsa_Size env k * 8 < 1024 then Err (errInvalidKey ''RSA public key too small'')
             else Ok (VerifyRSA k))"

definition parseEd25519PublicKey :: "string \<Rightarrow> (dkim_error, verifyFunc) result" where
  "parseEd25519PublicKey p =
     (if length p \<noteq> 32 then Err (errInvalidKey ''invalid Ed25519 public key'')
      else Ok (VerifyEd25519 p))"

definition key_hashes :: "tags \<Rightarrow> Hash list" where
  "key_hashes tags = List.map_filter
     (\<lambda>h. case hashFromString h of Ok x \<Rightarrow> Some x | Err e \<Rightarrow> None) (list_tag tags ''h'')"

definition parsePublicKey :: "dkim_env \<Rightarrow> string \<Rightarrow> (dkim_error, publicKey) result" where
  "parsePublicKey env v =
     and_then (parseTags v) (\<lambda>tags.
     if (case map_of tags ''v'' of Some ver \<Rightarrow> ver \<noteq> ''DKIM1'' | None \<Rightarrow> False) then Err errInvalidVersion
     else
       and_then (if tag tags ''k'' \<noteq> [] then keyTypeFromString (tag tags ''k'') else Ok keyTypeRSA) (\<lambda>k.
       case b64_decode (eatWhitespace (tag tags ''p'')) of
         None \<Rightarrow> Err (errInvalidKey ''error decoding p='')
       | Some p \<Rightarrow>
           and_then (case k of
               keyTypeRSA \<Rightarrow> parseRSAPublicKey env p
             | keyTypeEd25519 \<Rightarrow> parseEd25519PublicKey p) (\<lambda>f.
           let t = eatWhitespace (tag tags ''t'') in
           Ok \<lparr>pk_H = key_hashes tags, pk_K = k, pk_P = p,
               pk_T = (if t \<noteq> [] then Split t '':'' else []), pk_verify = f\<rparr>)))"

definition findPublicKeys :: "dkim_env \<Rightarrow> string \<Rightarrow> string \<Rightarrow> (dkim_error, publicKey list) result" where
  "findPublicKeys env domain selector =
     and_then (lookupTXT env (selector @ ''._domainkey.'' @ domain)) (\<lambda>values.
       Ok (List.map_filter (\<lambda>v. case parsePublicKey env v of Ok pk \<Rightarrow> Some pk | Err e \<Rightarrow> None) values))"

end
