(* ===== verification/DkimVerify.thy ===== *)
theory DkimVerify
  imports DkimSignature
begin

text \<open>
  Verifying and making DKIM signatures, \<open>src/internal/dkim/verify.go\<close>, \<open>sign.go\<close> and the limit of
  \<open>context.go\<close>. Where a slice expression of the code would panic the result is \<open>None\<close>.
\<close>

section \<open>Which headers are hashed\<close>

text \<open>
  The loop over the names of the tag h=. \<open>seen\<close> counts, for each name in lower case, the instances
  already used; instances are taken from the bottom of the message up.
\<close>

fun include_from ::
  "unicode \<Rightarrow> header \<Rightarrow> headers \<Rightarrow> string list \<Rightarrow> (string \<Rightarrow> nat) \<Rightarrow> headers" where
  "include_from u sigH hs [] seen = []"
| "include_from u sigH hs (h # hTag) seen =
     (let all = rev (FindAll u hs h); lh = ToLower u h; i = seen lh in
      if length all \<le> i then include_from u sigH hs hTag seen
      else let rest = include_from u sigH hs hTag (seen(lh := i + 1)) in
        if all ! i = sigH then rest else all ! i # rest)"

definition headersToInclude :: "unicode \<Rightarrow> header \<Rightarrow> string list \<Rightarrow> headers \<Rightarrow> headers" where
  "headersToInclude u sigH hTag hs = include_from u sigH hs hTag (\<lambda>_. 0)"

text \<open>
  The expression that empties the tag b=: a letter b, white space, an equals sign, and then
  everything up to the next semicolon, which is dropped.
\<close>

abbreviation b_space :: "char \<Rightarrow> bool" where
  "b_space c \<equiv> c \<in> {SP, TAB, CR, LF}"

definition b_match :: "string \<Rightarrow> (string \<times> string) option" where
  "b_match s =
     (case s of
        c # t \<Rightarrow>
          if c = CHR ''b'' then
            (case dropWhile b_space t of
               e # v \<Rightarrow>
                 if e = CHR ''='' \<and> v \<noteq> [] \<and> hd v \<noteq> CHR '';''
                 then Some (c # takeWhile b_space t @ ''='', dropWhile (\<lambda>x. x \<noteq> CHR '';'') v)
                 else None
             | [] \<Rightarrow> None)
          else None
      | [] \<Rightarrow> None)"

lemma b_match_length: "b_match s = Some (p, r) \<Longrightarrow> length r < length s"
proof -
  assume "b_match s = Some (p, r)"
  then obtain c t e v where s: "s = c # t" and t: "dropWhile b_space t = e # v"
    and r: "r = dropWhile (\<lambda>x. x \<noteq> CHR '';'') v"
    by (auto simp: b_match_def split: list.splits if_splits)
  have "length (e # v) \<le> length t" using t by (metis length_dropWhile_le)
  moreover have "length r \<le> length v" unfolding r by (rule length_dropWhile_le)
  ultimately show ?thesis using s by simp
qed

function bTag_ReplaceAll :: "string \<Rightarrow> string" where
  "bTag_ReplaceAll s =
     (case s of
        [] \<Rightarrow> []
      | c # t \<Rightarrow>
          (case b_match s of
             Some (p, r) \<Rightarrow> p @ bTag_ReplaceAll r
           | None \<Rightarrow> c # bTag_ReplaceAll t))"
  by pat_completeness auto
termination
  by (relation "measure length") (auto dest: b_match_length)

declare bTag_ReplaceAll.simps [simp del]

definition hashWith :: "dkim_env \<Rightarrow> Hash \<Rightarrow> string \<Rightarrow> string" where
  "hashWith env a data = (case a of SHA256 \<Rightarrow> sha256 env data)"

section \<open>Verification\<close>

datatype EvaluationState = SUCCESS | PERMFAIL | TEMPFAIL

record OneResult =
  SignatureHeader :: string
  or_Domain :: string
  or_Selector :: string
  or_B :: string
  or_State :: EvaluationState
  or_Error :: "dkim_error option"

record VerifyResult =
  vr_Found :: nat
  vr_Valid :: nat
  vr_Results :: "OneResult list"

text \<open>The data under the signature: the headers, and the signature header with an empty b=.\<close>

definition hashed_headers :: "unicode \<Rightarrow> dkimSignature \<Rightarrow> header \<Rightarrow> headers \<Rightarrow> string" where
  "hashed_headers u sig sigH hs =
     concat (map (\<lambda>h. h_Source (canon_header u (ds_cH sig) h) @ CRLF)
              (headersToInclude u sigH (ds_h sig) hs))
     @ bTag_ReplaceAll (h_Source (canon_header u (ds_cH sig) sigH))"

text \<open>One turn of the loop over the public keys: whether this key accepts the signature.\<close>

definition key_accepts :: "dkim_env \<Rightarrow> dkimSignature \<Rightarrow> string \<Rightarrow> publicKey \<Rightarrow> bool" where
  "key_accepts env sig bSum pk \<longleftrightarrow>
     Matches pk (ds_KeyType sig) (ds_Hash sig)
     \<and> (ds_i sig \<noteq> [] \<and> StrictDomainCheck pk \<longrightarrow> fst (snd (Cut (ds_i sig) ''@'')) = ds_d sig)
     \<and> run_verify env (pk_verify pk) bSum (ds_b sig)"

definition verifySignature ::
  "unicode \<Rightarrow> dkim_env \<Rightarrow> header \<Rightarrow> headers \<Rightarrow> string \<Rightarrow> OneResult option" where
  "verifySignature u env sigH hs body =
     (let result = \<lparr>SignatureHeader = h_Value sigH, or_Domain = [], or_Selector = [], or_B = [],
                    or_State = PERMFAIL, or_Error = None\<rparr>
      in case dkimSignatureFromHeader u (h_Value sigH) of
           Err e \<Rightarrow> Some (result\<lparr>or_Error := Some e, or_State := PERMFAIL\<rparr>)
         | Ok sig \<Rightarrow>
             (let result = result\<lparr>or_Domain := ds_d sig, or_Selector := ds_s sig,
                                  or_B := b64_encode (ds_b sig)\<rparr>
              in case findPublicKeys env (ds_d sig) (ds_s sig) of
                   Err e \<Rightarrow>
                     Some (result\<lparr>or_Error := Some e,
                       or_State := (case e of DNSError _ temporary \<Rightarrow> if temporary then TEMPFAIL else PERMFAIL
                                            | _ \<Rightarrow> PERMFAIL)\<rparr>)
                 | Ok pubKeys \<Rightarrow>
                     (let bodyC = canon_body (ds_cB sig) body in
                      if 0 < ds_l sig \<and> length bodyC < ds_l sig then None
                      else
                        let bodyC = (if 0 < ds_l sig then take (ds_l sig) bodyC else bodyC);
                            bodyH = hashWith env (ds_Hash sig) bodyC in
                        if bodyH \<noteq> ds_bh sig then
                          Some (result\<lparr>or_Error := Some (ErrBodyHashMismatch (b64_encode bodyH)),
                                       or_State := PERMFAIL\<rparr>)
                        else
                          let bSum = hashWith env (ds_Hash sig) (hashed_headers u sig sigH hs) in
                          if list_ex (key_accepts env sig bSum) pubKeys
                          then Some (result\<lparr>or_State := SUCCESS\<rparr>)
                          else Some (result\<lparr>or_State := PERMFAIL,
                                            or_Error := Some ErrVerificationFailed\<rparr>))))"

text \<open>The loop over the DKIM-Signature headers, of which the first \<open>max\<close> are checked.\<close>

fun verify_loop ::
  "unicode \<Rightarrow> dkim_env \<Rightarrow> nat \<Rightarrow> headers \<Rightarrow> string \<Rightarrow> headers \<Rightarrow> nat \<Rightarrow> VerifyResult \<Rightarrow> VerifyResult option" where
  "verify_loop u env maxH hs body [] i results = Some results"
| "verify_loop u env maxH hs body (sig # sigs) i results =
     (if maxH \<le> i then Some results
      else case verifySignature u env sig hs body of
          None \<Rightarrow> None
        | Some res \<Rightarrow>
            verify_loop u env maxH hs body sigs (Suc i)
              \<lparr>vr_Found = vr_Found results + 1,
               vr_Valid = vr_Valid results + (if or_State res = SUCCESS then 1 else 0),
               vr_Results = vr_Results results @ [res]\<rparr>)"

definition VerifyMessage ::
  "unicode \<Rightarrow> dkim_env \<Rightarrow> nat \<Rightarrow> string \<Rightarrow> (dkim_error, VerifyResult) result option" where
  "VerifyMessage u env maxH message =
     (case parseMessage message of
        Err e \<Rightarrow> Some (Err (errParse e))
      | Ok (hs, body) \<Rightarrow>
          map_option Ok (verify_loop u env maxH hs body (FindAll u hs ''DKIM-Signature'') 0
            \<lparr>vr_Found = 0, vr_Valid = 0, vr_Results = []\<rparr>))"

text \<open>The cap when the context sets none.\<close>

definition maxHeaders_default :: nat where
  "maxHeaders_default = 5"

text \<open>The text for Authentication-Results; \<open>Error_text\<close> gives the text of an error.\<close>

definition result_line :: "unicode \<Rightarrow> (dkim_error \<Rightarrow> string) \<Rightarrow> OneResult \<Rightarrow> string" where
  "result_line u Error_text res =
     (let reason = (case or_Error res of None \<Rightarrow> ''%!q(<nil>)'' | Some e \<Rightarrow> Quote u (Error_text e)) in
      (case or_State res of
         SUCCESS \<Rightarrow> '';dkim=pass''
       | TEMPFAIL \<Rightarrow> '';dkim=temperror  reason='' @ reason @ CRLF
       | PERMFAIL \<Rightarrow>
           (if (case or_Error res of
                  Some ErrVerificationFailed \<Rightarrow> True | Some (ErrBodyHashMismatch _) \<Rightarrow> True | _ \<Rightarrow> False)
            then '';dkim=fail  reason='' @ reason @ CRLF
            else '';dkim=permerror  reason='' @ reason @ CRLF))
      @ (if or_B res \<noteq> [] then ''  header.b='' @ take 12 (or_B res) else [])
      @ ''  header.d='' @ or_Domain res @ CRLF)"

definition AuthenticationResults :: "unicode \<Rightarrow> (dkim_error \<Rightarrow> string) \<Rightarrow> VerifyResult \<Rightarrow> string" where
  "AuthenticationResults u Error_text r =
     (if vr_Found r = 0 then '';dkim=none'' @ CRLF
      else concat (map (result_line u Error_text) (vr_Results r)))"

section \<open>Signing\<close>

datatype private_key = RSAPrivateKey string | Ed25519PrivateKey string | OtherPrivateKey

record Signer =
  sg_Domain :: string
  sg_Selector :: string
  sg_Signer :: private_key

type_synonym crypto_sign = "private_key \<Rightarrow> string \<Rightarrow> (dkim_error, string) result"

definition headersToSign :: "string list" where
  "headersToSign =
     [''From'', ''Reply-To'', ''Subject'', ''Date'', ''To'', ''Cc'',
      ''Resent-Date'', ''Resent-From'', ''Resent-To'', ''Resent-Cc'',
      ''In-Reply-To'', ''References'',
      ''List-Id'', ''List-Help'', ''List-Unsubscribe'', ''List-Subscribe'', ''List-Post'',
      ''List-Owner'', ''List-Archive'', ''Message-ID'']"

definition extraHeadersToSign :: "string list" where
  "extraHeadersToSign = [''From'', ''Subject'', ''Date'', ''To'', ''Cc'', ''Message-ID'']"

definition algoStr :: "Signer \<Rightarrow> (dkim_error, string) result" where
  "algoStr s = (case sg_Signer s of
      RSAPrivateKey _ \<Rightarrow> Ok ''rsa-sha256''
    | Ed25519PrivateKey _ \<Rightarrow> Ok ''ed25519-sha256''
    | OtherPrivateKey \<Rightarrow> Err errUnsupportedKeyType)"

function breakLongLines :: "string \<Rightarrow> string" where
  "breakLongLines s =
     (if 70 < length s then take 70 s @ CRLF @ ''  '' @ breakLongLines (drop 70 s) else s)"
  by pat_completeness auto
termination by (relation "measure length") auto

declare breakLongLines.simps [simp del]

text \<open>The loop of \<open>formatHeaders\<close>: what was written so far, and the line being built.\<close>

fun format_from :: "string list \<Rightarrow> bool \<Rightarrow> string \<Rightarrow> string \<Rightarrow> string" where
  "format_from [] later sb line = sb @ line"
| "format_from (h # hs) later sb line =
     (let wrap = 70 < length line + 1 + length h;
          sb' = (if wrap then sb @ line @ CRLF @ ''  '' else sb);
          line' = (if wrap then [] else line)
      in format_from hs True sb' (line' @ (if later then '':'' else []) @ h))"

definition formatHeaders :: "unicode \<Rightarrow> string list \<Rightarrow> string" where
  "formatHeaders u hs = TrimSpace (ToLower u (format_from hs False [] []))"

definition names_to_sign :: "unicode \<Rightarrow> headers \<Rightarrow> string list" where
  "names_to_sign u hs =
     concat (map (\<lambda>h. replicate (length (FindAll u hs h)) h) headersToSign) @ extraHeadersToSign"

definition signed_headers :: "unicode \<Rightarrow> headers \<Rightarrow> headers" where
  "signed_headers u hs = concat (map (FindAll u hs) headersToSign)"

text \<open>The value of the header up to and with \<open>b=\<close>.\<close>

definition signature_value :: "unicode \<Rightarrow> dkim_env \<Rightarrow> int \<Rightarrow> Signer \<Rightarrow> string \<Rightarrow> headers \<Rightarrow> string \<Rightarrow> string" where
  "signature_value u env now s algo hs body =
     ''v=1; a='' @ algo @ ''; c=relaxed/relaxed;'' @ CRLF
     @ ''d='' @ sg_Domain s @ ''; s='' @ sg_Selector s @ ''; t='' @ FormatInt now @ '';'' @ CRLF
     @ ''h='' @ formatHeaders u (names_to_sign u hs) @ '';'' @ CRLF
     @ ''bh='' @ b64_encode (sha256 env (canon_body relaxedCanonicalization body)) @ '';'' @ CRLF
     @ ''b=''"

definition signed_data :: "unicode \<Rightarrow> string \<Rightarrow> headers \<Rightarrow> string" where
  "signed_data u value hs =
     (let forSigning = ReplaceAll value CRLF (CRLF @ [TAB]) @ '';'' in
      concat (map (\<lambda>h. h_Source (canon_header u relaxedCanonicalization h) @ CRLF) (signed_headers u hs))
      @ h_Source (canon_header u relaxedCanonicalization
          \<lparr>h_Name = ''DKIM-Signature'', h_Value = forSigning, h_Source = forSigning\<rparr>))"

definition Sign :: "unicode \<Rightarrow> dkim_env \<Rightarrow> crypto_sign \<Rightarrow> int \<Rightarrow> Signer \<Rightarrow> string \<Rightarrow> (dkim_error, string) result" where
  "Sign u env sign now s message =
     (case parseMessage message of
        Err e \<Rightarrow> Err (errParse e)
      | Ok (hs, body) \<Rightarrow>
          and_then (algoStr s) (\<lambda>algo.
          let value = signature_value u env now s algo hs body in
          and_then (sign (sg_Signer s) (sha256 env (signed_data u value hs))) (\<lambda>sig.
          Ok (value @ breakLongLines (b64_encode sig) @ '';''))))"

section \<open>What a successful verification means\<close>

lemma findPublicKeys_Ok:
  "findPublicKeys env d s = Ok pks \<Longrightarrow> pk \<in> set pks \<Longrightarrow>
    \<exists>txts v. lookupTXT env (s @ ''._domainkey.'' @ d) = Ok txts \<and> v \<in> set txts \<and> parsePublicKey env v = Ok pk"
  by (fastforce simp: findPublicKeys_def and_then_Ok_iff List.map_filter_def split: sum.splits)

lemma key_case: "(case k of keyTypeRSA \<Rightarrow> a | keyTypeEd25519 \<Rightarrow> b) = Ok f \<Longrightarrow> a = Ok f \<or> b = Ok f"
  by (cases k) simp_all

lemma parsePublicKey_strong:
  "parsePublicKey env v = Ok pk \<Longrightarrow>
    (case pk_verify pk of VerifyRSA k \<Rightarrow> 1024 \<le> rsa_Size env k * 8 | VerifyEd25519 p \<Rightarrow> length p = 32)"
proof -
  assume "parsePublicKey env v = Ok pk"
  then have "\<exists>p. parseRSAPublicKey env p = Ok (pk_verify pk) \<or> parseEd25519PublicKey p = Ok (pk_verify pk)"
    by (auto simp: parsePublicKey_def and_then_Ok_iff Let_def dest!: key_case split: if_splits option.splits; blast)
  then obtain p where "parseRSAPublicKey env p = Ok (pk_verify pk) \<or> parseEd25519PublicKey p = Ok (pk_verify pk)"
    by blast
  then show ?thesis
    by (cases "ParsePKIXPublicKey env p"; cases "ParsePKCS1PublicKey env p")
      (auto simp: parseRSAPublicKey_def parseEd25519PublicKey_def not_less split: if_splits pub.splits verifyFunc.splits)
qed

lemma dkimSignatureFromHeader_required:
  assumes "dkimSignatureFromHeader u v = Ok sig"
  shows "checkRequiredTags u sig = None"
  using assms
  by (auto simp: dkimSignatureFromHeader_def and_then_Ok_iff Let_def split: if_splits option.splits prod.splits)

lemma checkRequiredTags_None:
  assumes "checkRequiredTags u sig = None"
  shows "ds_d sig \<noteq> []" "ds_s sig \<noteq> []" "\<exists>h \<in> set (ds_h sig). EqualFold u h ''from''"
    "ds_i sig \<noteq> [] \<Longrightarrow>
      fst (snd (Cut (ds_i sig) ''@'')) = ds_d sig \<or> HasSuffix (fst (snd (Cut (ds_i sig) ''@''))) (''.'' @ ds_d sig)"
  using assms
  by (auto simp: checkRequiredTags_def list_ex_iff Let_def split: if_splits prod.splits)

text \<open>The part of the body that the signature covers.\<close>

definition signed_body :: "dkimSignature \<Rightarrow> string \<Rightarrow> string" where
  "signed_body sig body =
     (let c = canon_body (ds_cB sig) body in if 0 < ds_l sig then take (ds_l sig) c else c)"

lemma verifySignature_SUCCESS_iff:
  assumes "verifySignature u env sigH hs body = Some res"
  shows "or_State res = SUCCESS \<longleftrightarrow>
     (\<exists>sig pks. dkimSignatureFromHeader u (h_Value sigH) = Ok sig \<and>
        findPublicKeys env (ds_d sig) (ds_s sig) = Ok pks \<and>
        ds_bh sig = sha256 env (signed_body sig body) \<and>
        (\<exists>pk \<in> set pks. key_accepts env sig (sha256 env (hashed_headers u sig sigH hs)) pk))"
proof (cases "dkimSignatureFromHeader u (h_Value sigH)")
  case (Inl e)
  then show ?thesis using assms by (auto simp: verifySignature_def)
next
  case sig: (Inr sig)
  show ?thesis
  proof (cases "findPublicKeys env (ds_d sig) (ds_s sig)")
    case (Inl e)
    then show ?thesis using assms sig
      by (auto simp: verifySignature_def Let_def split: dkim_error.splits if_splits)
  next
    case (Inr pks)
    have "hashWith env (ds_Hash sig) x = sha256 env x" for x
      by (cases "ds_Hash sig") (simp add: hashWith_def)
    with Inr sig assms show ?thesis
      by (auto simp: verifySignature_def signed_body_def list_ex_iff Let_def split: if_splits)
  qed
qed

lemma verifySignature_names:
  assumes "verifySignature u env sigH hs body = Some res" "dkimSignatureFromHeader u (h_Value sigH) = Ok sig"
  shows "or_Domain res = ds_d sig \<and> or_Selector res = ds_s sig"
  using assms by (auto simp: verifySignature_def Let_def split: sum.splits if_splits)


lemma verifySignature_panics_iff:
  "verifySignature u env sigH hs body = None \<longleftrightarrow>
     (\<exists>sig pks. dkimSignatureFromHeader u (h_Value sigH) = Ok sig \<and>
        findPublicKeys env (ds_d sig) (ds_s sig) = Ok pks \<and>
        length (canon_body (ds_cB sig) body) < ds_l sig)"
  by (auto simp: verifySignature_def Let_def split: sum.splits if_splits dkim_error.splits)

definition ex_dkim :: dkim_env where
  "ex_dkim =
     \<lparr>lookupTXT = (\<lambda>d. if d = ''s._domainkey.d'' then Ok [''p=QQ==''] else Err (DNSError d False)),
      ParsePKIXPublicKey = (\<lambda>p. Ok (RSAPub p)), ParsePKCS1PublicKey = (\<lambda>_. Err []),
      rsa_Size = (\<lambda>_. 128), rsa_Verify = (\<lambda>k hashed sig. sig = hashed),
      ed25519_Verify = (\<lambda>_ _ _. False), sha256 = (\<lambda>_. ''A'')\<rparr>"

definition ex_sig :: "string \<Rightarrow> header" where
  "ex_sig extra = (let v = ''v=1; a=rsa-sha256; d=d; s=s; h=from; bh=QQ==; b=QQ=='' @ extra in
     \<lparr>h_Name = ''DKIM-Signature'', h_Value = v, h_Source = ''DKIM-Signature:'' @ v\<rparr>)"

lemmas dkim_eval =
  dkimSignatureFromHeader_def parseTags_def TrimSuffix_def tag_def keyTypeFromString_def hashFromString_def
  b64_tag_def eatWhitespace_def b64_decode_def b64_val_def canonicalizationFromString_def length_tag_def
  list_tag_def time_tag_def checkRequiredTags_def findPublicKeys_def parsePublicKey_def parseRSAPublicKey_def
  key_hashes_def List.map_filter_def

lemma ex_sig_parses:
  "\<exists>sig. dkimSignatureFromHeader (tl_unicode ascii_text) (h_Value (ex_sig [])) = Ok sig \<and> ds_d sig = ''d'' \<and>
     ds_s sig = ''s'' \<and> ds_l sig = 0 \<and> ds_bh sig = ''A'' \<and> ds_b sig = ''A'' \<and> ds_i sig = [] \<and>
     ds_KeyType sig = keyTypeRSA \<and> ds_Hash sig = SHA256"
  by (simp add: ex_sig_def dkim_eval go_eval Let_def)

lemma ex_key: "\<exists>pk. findPublicKeys ex_dkim ''d'' ''s'' = Ok [pk] \<and> pk_K pk = keyTypeRSA \<and> pk_H pk = [] \<and>
    pk_verify pk = VerifyRSA ''A''"
  by (simp add: ex_dkim_def dkim_eval go_eval Let_def)


section \<open>The number of signatures, and the panic\<close>

lemma verify_loop_Some:
  "verify_loop u env maxH hs body sigs i r = Some r' \<Longrightarrow>
    \<exists>rs. map Some rs = map (\<lambda>h. verifySignature u env h hs body) (take (maxH - i) sigs) \<and>
      r' = \<lparr>vr_Found = vr_Found r + length rs,
            vr_Valid = vr_Valid r + length (filter (\<lambda>o1. or_State o1 = SUCCESS) rs),
            vr_Results = vr_Results r @ rs\<rparr>"
proof (induction sigs arbitrary: i r)
  case (Cons sig sigs)
  show ?case
  proof (cases "maxH \<le> i")
    case False
    then have m: "maxH - i = Suc (maxH - Suc i)" by simp
    from False Cons.prems obtain res where res: "verifySignature u env sig hs body = Some res"
      by (auto split: option.splits)
    with False Cons.prems Cons.IH [of "Suc i"] obtain rs where
      "map Some rs = map (\<lambda>h. verifySignature u env h hs body) (take (maxH - Suc i) sigs)"
      "r' = \<lparr>vr_Found = vr_Found r + 1 + length rs,
            vr_Valid = vr_Valid r + (if or_State res = SUCCESS then 1 else 0)
              + length (filter (\<lambda>o1. or_State o1 = SUCCESS) rs),
            vr_Results = vr_Results r @ [res] @ rs\<rparr>"
      by fastforce
    then show ?thesis using res m by (intro exI [of _ "res # rs"]) simp
  qed (use Cons.prems in auto)
qed auto

lemma verify_loop_None:
  "verify_loop u env maxH hs body sigs i r = None \<longleftrightarrow>
    (\<exists>h \<in> set (take (maxH - i) sigs). verifySignature u env h hs body = None)"
proof (induction sigs arbitrary: i r)
  case (Cons sig sigs)
  show ?case
  proof (cases "maxH \<le> i")
    case False
    then have "maxH - i = Suc (maxH - Suc i)" by simp
    with False Cons.IH show ?thesis by (auto split: option.splits)
  qed simp
qed simp



end
