(* ===== verification/Auth.thy ===== *)
theory Auth
  imports Normalize GoBase64 "HOL-Library.AList"
begin

text \<open>
  \<open>src/internal/auth/auth.go\<close>: the authenticator, which asks the backend of the user's domain
  and then the fallback backend, the decoding of the response of SASL PLAIN, and the padding
  of the duration of an authentication.
\<close>

section \<open>Backends\<close>

text \<open>An operation of a backend returns an error, or panics and takes the process down.\<close>

datatype auth_error = AuthErr string | AuthPanic string

record Backend =
  be_Authenticate :: "string \<Rightarrow> string \<Rightarrow> (auth_error, bool) result"
  be_Exists :: "string \<Rightarrow> (auth_error, bool) result"
  be_Reload :: "string option"

record NoErrorBackend =
  nb_Authenticate :: "string \<Rightarrow> string \<Rightarrow> bool"
  nb_Exists :: "string \<Rightarrow> bool"
  nb_Reload :: "string option"

definition WrapNoErrorBackend :: "NoErrorBackend \<Rightarrow> Backend" where
  "WrapNoErrorBackend be =
     \<lparr>be_Authenticate = (\<lambda>user password. Ok (nb_Authenticate be user password)),
      be_Exists = (\<lambda>user. Ok (nb_Exists be user)),
      be_Reload = nb_Reload be\<rparr>"

section \<open>The authenticator\<close>

record Authenticator =
  backends :: "(string \<times> Backend) list"
  Fallback :: "Backend option"
  AuthDuration :: int

text \<open>Durations are in nanoseconds.\<close>

definition NewAuthenticator :: Authenticator where
  "NewAuthenticator = \<lparr>backends = [], Fallback = None, AuthDuration = 100000000\<rparr>"

definition Register :: "Authenticator \<Rightarrow> string \<Rightarrow> Backend \<Rightarrow> Authenticator" where
  "Register a domain be = a\<lparr>backends := AList.update domain be (backends a)\<rparr>"

definition fallback_id :: "string \<Rightarrow> string \<Rightarrow> string" where
  "fallback_id user domain = (if domain \<noteq> [] then user @ ''@'' @ domain else user)"

text \<open>
  A positive answer or an error of the domain's backend is final; after a negative one the
  fallback is asked.
\<close>

definition ask ::
  "Authenticator \<Rightarrow> string \<Rightarrow> (Backend \<Rightarrow> (auth_error, bool) result) \<Rightarrow> (Backend \<Rightarrow> (auth_error, bool) result)
     \<Rightarrow> (auth_error, bool) result" where
  "ask a domain f g =
     (let fall = (case Fallback a of None \<Rightarrow> Ok False | Some be \<Rightarrow> g be) in
      case map_of (backends a) domain of
        None \<Rightarrow> fall
      | Some be \<Rightarrow>
          (case f be of
             Inl e \<Rightarrow> Err e
           | Inr ok \<Rightarrow> if ok then Ok True else fall))"

definition Authenticate ::
  "Authenticator \<Rightarrow> string \<Rightarrow> string \<Rightarrow> string \<Rightarrow> (auth_error, bool) result" where
  "Authenticate a user domain password =
     ask a domain (\<lambda>be. be_Authenticate be user password)
       (\<lambda>be. be_Authenticate be (fallback_id user domain) password)"

definition auth_Exists :: "Authenticator \<Rightarrow> string \<Rightarrow> string \<Rightarrow> (auth_error, bool) result" where
  "auth_Exists a user domain =
     ask a domain (\<lambda>be. be_Exists be user) (\<lambda>be. be_Exists be (fallback_id user domain))"

text \<open>The messages of the backends that failed to reload; the error joins them.\<close>

definition auth_Reload :: "unicode \<Rightarrow> Authenticator \<Rightarrow> string list" where
  "auth_Reload u a =
     List.map_filter (\<lambda>(domain, be). map_option (\<lambda>e. Quote u domain @ '': '' @ e) (be_Reload be)) (backends a)
     @ (case Fallback a of
          None \<Rightarrow> []
        | Some be \<Rightarrow> (case be_Reload be of None \<Rightarrow> [] | Some e \<Rightarrow> [''<fallback>: '' @ e]))"

text \<open>
  The deferred padding: how long the call sleeps after it took \<open>elapsed\<close>, where \<open>rnd\<close> is what the
  random number generator gives below the bound it gets. \<open>rand.Int64N\<close> panics on a bound of 0,
  which is \<open>None\<close>. For the durations in use, \<open>int64(float64(delay) * 0.2)\<close> is \<open>delay div 5\<close>.
\<close>

definition auth_sleep :: "int \<Rightarrow> int \<Rightarrow> (int \<Rightarrow> int) \<Rightarrow> int option" where
  "auth_sleep duration elapsed rnd =
     (let delay = duration - elapsed in
      if 0 < delay then
        (let maxDelta = delay div 5 in
         if maxDelta \<le> 0 then None else Some (delay + rnd maxDelta))
      else Some 0)"

section \<open>Responses of SASL PLAIN\<close>

text \<open>\<open>bytes.SplitN(buf, sep, 3)\<close> with a separator of one byte.\<close>

definition SplitN3 :: "string \<Rightarrow> string \<Rightarrow> string list" where
  "SplitN3 s sep = (case SplitN2 s sep of [a, r] \<Rightarrow> a # SplitN2 r sep | xs \<Rightarrow> xs)"

definition DecodeResponse ::
  "textlib \<Rightarrow> string \<Rightarrow> (string, string \<times> string \<times> string) result" where
  "DecodeResponse tx response =
     (case b64_decode response of
        None \<Rightarrow> Err ''illegal base64 data''
      | Some buf \<Rightarrow>
          (case SplitN3 buf [NUL] of
             [z, c, passwd] \<Rightarrow>
               if z \<noteq> [] \<and> c \<noteq> [] \<and> z \<noteq> c then Err ''auth IDs do not match''
               else
                 (let identity = (if c \<noteq> [] then c else z) in
                  if identity = [] then Err ''empty identity, must be in the form user@domain''
                  else
                    (let (user, domain) =
                           (case SplitN2 identity ''@'' of [u, d] \<Rightarrow> (u, d) | _ \<Rightarrow> (identity, []))
                     in case User tx user of
                          (_, Some e) \<Rightarrow> Err e
                        | (user', None) \<Rightarrow>
                            (case Domain_norm tx domain of
                               (_, Some e) \<Rightarrow> Err e
                             | (domain', None) \<Rightarrow> Ok (user', domain', passwd))))
           | _ \<Rightarrow> Err ''response pieces != 3, as per RFC''))"

section \<open>The contract of a backend\<close>

text \<open>
  What the server relies on: whoever can authenticate exists, so that mail can be delivered to
  every user that can send it; and the two answers do not fail.
\<close>

locale auth_backend =
  fixes be :: Backend
  assumes auth_exists: "be_Authenticate be u p = Ok True \<Longrightarrow> be_Exists be u = Ok True"
    and exists_ok: "be_Authenticate be u p = Ok b \<Longrightarrow> \<exists>b'. be_Exists be u = Ok b'"

definition good_backend :: "Backend \<Rightarrow> bool" where
  "good_backend be \<longleftrightarrow>
     (\<forall>u p. be_Authenticate be u p = Ok True \<longrightarrow> be_Exists be u = Ok True) \<and>
     (\<forall>u p b. be_Authenticate be u p = Ok b \<longrightarrow> (\<exists>b'. be_Exists be u = Ok b'))"

context auth_backend
begin

lemma good: "good_backend be"
  using auth_exists exists_ok unfolding good_backend_def by blast

end

interpretation wrapped: auth_backend "WrapNoErrorBackend \<lparr>nb_Authenticate = (\<lambda>u p. ex u \<and> auth u p),
    nb_Exists = ex, nb_Reload = r\<rparr>" for ex auth r
  by unfold_locales (simp_all add: WrapNoErrorBackend_def)

lemma ask_True:
  "ask a d f g = Ok True \<longleftrightarrow>
     (\<exists>be. map_of (backends a) d = Some be \<and> f be = Ok True) \<or>
     ((\<forall>be. map_of (backends a) d = Some be \<longrightarrow> f be = Ok False) \<and>
      (\<exists>be. Fallback a = Some be \<and> g be = Ok True))"
  by (auto simp: ask_def Let_def split: option.splits sum.splits if_splits)

lemma Authenticate_Exists:
  assumes "\<And>be. be \<in> snd ` set (backends a) \<or> Fallback a = Some be \<Longrightarrow> good_backend be"
    and "Authenticate a user domain password = Ok True"
  shows "auth_Exists a user domain = Ok True"
proof -
  have known: "good_backend be" if "map_of (backends a) domain = Some be" for be
    using assms(1) that by (metis image_eqI map_of_SomeD snd_conv)
  have fall: "good_backend be" if "Fallback a = Some be" for be
    using assms(1) that by blast
  from assms(2) consider
    (main) be where "map_of (backends a) domain = Some be" "be_Authenticate be user password = Ok True"
  | (fall) be where "Fallback a = Some be" "be_Authenticate be (fallback_id user domain) password = Ok True"
      "\<And>be. map_of (backends a) domain = Some be \<Longrightarrow> be_Authenticate be user password = Ok False"
    unfolding Authenticate_def ask_True by blast
  then show ?thesis
  proof cases
    case main
    with known [of be] show ?thesis by (auto simp: auth_Exists_def ask_True good_backend_def)
  next
    case fall': fall
    with fall [of be] have g: "be_Exists be (fallback_id user domain) = Ok True"
      by (auto simp: good_backend_def)
    show ?thesis
    proof (cases "map_of (backends a) domain")
      case None
      with fall' g show ?thesis by (auto simp: auth_Exists_def ask_True)
    next
      case (Some be')
      with fall'(3) known obtain b where "be_Exists be' user = Ok b"
        unfolding good_backend_def by blast
      with Some fall' g show ?thesis by (cases b) (auto simp: auth_Exists_def ask_True)
    qed
  qed
qed

section \<open>Responses are decoded to what the client encoded\<close>

lemma SplitN3_found:
  "\<lbrakk>c \<notin> set x; c \<notin> set y\<rbrakk> \<Longrightarrow> SplitN3 (x @ c # y @ c # z) [c] = [x, y, z]"
  by (simp add: SplitN3_def SplitN2_char_found)

text \<open>
  The PLAIN response a client builds for an identity and a password is decoded to that
  identity, split at its first at-sign and normalized, and to exactly that password, whatever
  bytes it has, also when the authorization identity is given too or is the only one given.
\<close>

theorem DecodeResponse_roundtrip:
  assumes "NUL \<notin> set identity" "identity \<noteq> []"
    and "User tx (UserOf identity) = (u, None)" "Domain_norm tx (DomainOf identity) = (d, None)"
    and "(z, c) \<in> {(identity, identity), ([], identity), (identity, [])}"
  shows "DecodeResponse tx (b64_encode (z @ [NUL] @ c @ [NUL] @ passwd)) = Ok (u, d, passwd)"
proof -
  have zc: "NUL \<notin> set z" "NUL \<notin> set c" using assms(1,5) by auto
  have id: "(case SplitN2 identity ''@'' of [u, d] \<Rightarrow> (u, d) | _ \<Rightarrow> (identity, []))
      = (UserOf identity, DomainOf identity)"
    by (simp add: UserOf_def DomainOf_def Split_addr_def)
  have ident: "(if c \<noteq> [] then c else z) = identity" "\<not> (z \<noteq> [] \<and> c \<noteq> [] \<and> z \<noteq> c)"
    using assms(2,5) by auto
  show ?thesis
    unfolding DecodeResponse_def
    using SplitN3_found [OF zc, of passwd] ident assms(2-4)
    by (simp add: b64_decode_encode id Let_def del: One_nat_def)
qed

lemma DecodeResponse_roundtrip_witness:
  "DecodeResponse ascii_text (b64_encode ([] @ [NUL] @ ''User@d'' @ [NUL] @ ''p'' @ [NUL]))
     = Ok (map lower_byte ''User'', ''d'', ''p'' @ [NUL])"
  by (rule DecodeResponse_roundtrip [of "''User@d''" ascii_text]) (simp_all add: go_eval)



text \<open>
  C36. The time an authentication takes tells nothing of its outcome: padded, it is the configured
  duration plus less than a fifth of what was left of it, unless the work took longer than that
  already. The one exception is a remainder of less than 5 nanoseconds, where the random number
  generator is asked for a number below 0 and panics.
\<close>

theorem auth_sleep_bounds:
  assumes "\<And>n. 0 < n \<Longrightarrow> 0 \<le> rnd n \<and> rnd n < n" "0 \<le> elapsed"
  shows "(auth_sleep duration elapsed rnd = None \<longleftrightarrow> 0 < duration - elapsed \<and> duration - elapsed < 5) \<and>
    (\<forall>s. auth_sleep duration elapsed rnd = Some s \<longrightarrow>
       (if elapsed < duration then duration \<le> elapsed + s \<and> 5 * (elapsed + s) < 6 * duration
        else s = 0))"
proof -
  have d: "0 < x div 5 \<longleftrightarrow> 5 \<le> x" for x :: int by auto
  have "duration \<le> elapsed + s \<and> 5 * (elapsed + s) < 6 * duration"
    if "auth_sleep duration elapsed rnd = Some s" "elapsed < duration" for s
  proof -
    let ?m = "(duration - elapsed) div 5"
    have m: "0 < ?m" "s = duration - elapsed + rnd ?m"
      using that by (auto simp: auth_sleep_def Let_def split: if_splits)
    then have "0 \<le> rnd ?m" "rnd ?m < ?m" using assms(1) by auto
    then show ?thesis using m assms(2) by auto
  qed
  then show ?thesis by (auto simp: auth_sleep_def Let_def d not_le split: if_splits)
qed

lemma auth_sleep_bounds_witness:
  "auth_sleep 100000000 30000000 (\<lambda>n. n div 2) = Some 77000000 \<and> auth_sleep 100 97 (\<lambda>n. n div 2) = None"
  using auth_sleep_bounds [of "\<lambda>n. n div 2" 97 100] by (simp add: auth_sleep_def)

end
