(* ===== verification/Conn.thy ===== *)
theory Conn
  imports ConnText DotReader Courier DkimVerify Auth
begin

text \<open>
  \<open>src/internal/smtpsrv/conn.go\<close>: an SMTP connection. Its state is a record, and so are the database
  of security levels and the queue, which it shares with the rest of the server. Every handler is a
  function of what the outside does during it, the state, and the parameters of the command.
\<close>

section \<open>The state of a connection\<close>

record tls_state =
  ts_ServerName :: string
  ts_CipherSuite :: nat
  ts_Version :: nat

record Conn =
  hostname :: string
  maxDataSize :: int
  postDataHook :: string
  c_mode :: SocketMode
  tlsConnState :: "tls_state option"
  remoteAddr :: net_addr
  c_reader :: reader
  c_out :: "string list"
  c_broken :: "string option"
  ehloDomain :: string
  mailFrom :: string
  rcptTo :: "string list"
  c_data :: string
  spfResult :: string
  spfError :: "string option"
  dkimVerifyResult :: "VerifyResult option"
  onTLS :: bool
  isESMTP :: bool
  authr :: Authenticator
  localDomains :: "String option"
  aliasesR :: Resolver
  dkimSigners :: "(string \<times> Signer list) list"
  completedAuth :: bool
  authUser :: string
  authDomain :: string
  c_deadline :: int
  haproxyEnabled :: bool

text \<open>What connections share: the levels, the queue, and the items whose loops were started.\<close>

record 's shared =
  sh_dinfo :: "'s domain_db"
  sh_queue :: Queue
  sh_started :: "Item list"

text \<open>
  How a write to the client goes. A response is buffered, and the errors of the final flush are
  ignored by the code, but they make the next write fail. Only a response larger than the buffer
  meets an error on the way.
\<close>

record write_res =
  wr_mid :: "string option"
  wr_flush :: "string option"

definition w_write :: "write_res \<Rightarrow> string \<Rightarrow> Conn \<Rightarrow> string option \<times> Conn" where
  "w_write wr text c =
     (case c_broken c of
        Some e \<Rightarrow> (Some e, c)
      | None \<Rightarrow>
          (let mid = (if bufio_size < length text then wr_mid wr else None)
           in (mid, c\<lparr>c_out := c_out c @ [text],
                      c_broken := (case mid of Some e \<Rightarrow> Some e | None \<Rightarrow> wr_flush wr)\<rparr>)))"

definition writeResponse :: "write_res \<Rightarrow> int \<Rightarrow> string \<Rightarrow> Conn \<Rightarrow> string option \<times> Conn" where
  "writeResponse wr code msg c = w_write wr (response_text code msg) c"

definition printfLine :: "write_res \<Rightarrow> string \<Rightarrow> Conn \<Rightarrow> Conn" where
  "printfLine wr line c = snd (w_write wr (line @ [CR, LF]) c)"

text \<open>The result of the program of the post-data hook: its output, or that it failed and its status.\<close>

datatype post_result = PostOK string | PostFail "int option" string

text \<open>
  What the outside does during one command: the clock, the random number, the writes, the libraries
  for mail addresses, SPF, DNS and cryptography, the hooks, and the writes of the queue. A failed
  handshake has consumed some of the input; a successful one gives a new stream and its state.
\<close>

record 's cmd_env =
  ce_now :: int
  ce_text :: textlib
  ce_rand :: nat
  ce_wr :: "nat \<Rightarrow> write_res"
  ce_scan_err :: string
  ce_ParseAddress :: "string \<Rightarrow> (string, string) result"
  ce_spf :: "string \<Rightarrow> string \<Rightarrow> string \<Rightarrow> string \<times> string option"
  ce_spf_off :: bool
  ce_levels :: "'s put_fn"
  ce_hook :: "string \<Rightarrow> hook_outcome"
  ce_alias_text :: "alias_error \<Rightarrow> string"
  ce_handshake :: "(nat \<times> string, reader \<times> tls_state) result"
  ce_ReadMessage :: "string \<Rightarrow> (string, nat) result"
  ce_maxReceived :: nat
  ce_dkim :: dkim_env
  ce_sign :: crypto_sign
  ce_unix :: int
  ce_date :: string
  ce_dkim_text :: "dkim_error \<Rightarrow> string"
  ce_post_missing :: bool
  ce_post :: "string \<Rightarrow> string list \<Rightarrow> string \<Rightarrow> post_result"
  ce_getenv :: "string \<Rightarrow> string"
  ce_codec :: "Message codec"
  ce_queue :: put_env

text \<open>A handler replies with a code and a message, or panics.\<close>

datatype outcome = Reply int string | Crash

section \<open>Simple commands\<close>

definition resetEnvelope :: "Conn \<Rightarrow> Conn" where
  "resetEnvelope c = c\<lparr>mailFrom := [], rcptTo := [], c_data := [], spfResult := [], spfError := None\<rparr>"

definition helo_types :: "string list" where
  "helo_types =
     [''general store'', ''used armor dealership'', ''second-hand bookstore'', ''liquor emporium'',
      ''antique weapons outlet'', ''delicatessen'', ''jewelers'', ''quality apparel and accessories'',
      ''hardware'', ''rare books'', ''lighting store'']"

definition HELO :: "'s cmd_env \<Rightarrow> string \<Rightarrow> Conn \<Rightarrow> outcome \<times> Conn" where
  "HELO env params c =
     (if length (TrimSpace params) = 0 then (Reply 501 ''Invisible customers are not welcome!'', c)
      else
        (Reply 250 (''Hello my friend, welcome to chasqui'' @ [CHR 0x27] @ ''s ''
           @ helo_types ! (ce_rand env mod length helo_types) @ ''!''),
         c\<lparr>ehloDomain := Fields params ! 0\<rparr>))"

definition EHLO :: "string \<Rightarrow> Conn \<Rightarrow> outcome \<times> Conn" where
  "EHLO params c =
     (if length (TrimSpace params) = 0 then (Reply 501 ''Invisible customers are not welcome!'', c)
      else
        (Reply 250
           (hostname c @ '' - Your hour of destiny has come.'' @ [LF]
            @ ''8BITMIME'' @ [LF] @ ''PIPELINING'' @ [LF] @ ''SMTPUTF8'' @ [LF] @ ''ENHANCEDSTATUSCODES'' @ [LF]
            @ ''SIZE '' @ FormatInt (maxDataSize c) @ [LF]
            @ (if onTLS c then ''AUTH PLAIN'' @ [LF] else ''STARTTLS'' @ [LF])
            @ ''HELP'' @ [LF]),
         c\<lparr>ehloDomain := Fields params ! 0, isESMTP := True\<rparr>))"

definition HELP :: outcome where
  "HELP = Reply 214 (''2.0.0 Hoy por ti, ma'' @ [CHR 0xC3, CHR 0xB1] @ ''ana por mi'')"

definition rset_msgs :: "string list" where
  "rset_msgs =
     [''Who was that Maud person anyway?'', ''Thinking of Maud you forget everything else.'',
      ''Your mind releases itself from mundane concerns.'',
      ''As your mind turns inward on itself, you forget everything else.'']"

definition RSET :: "'s cmd_env \<Rightarrow> Conn \<Rightarrow> outcome \<times> Conn" where
  "RSET env c = (Reply 250 (''2.0.0 '' @ rset_msgs ! (ce_rand env mod length rset_msgs)), resetEnvelope c)"

definition VRFY :: outcome where
  "VRFY = Reply 502 ''5.5.1 You have a strange feeling for a moment, then it passes.''"

definition EXPN :: outcome where
  "EXPN = Reply 502 ''5.5.1 You feel disoriented for a moment.''"

definition NOOP :: outcome where
  "NOOP = Reply 250 ''2.0.0 You hear a faint typing noise.''"

section \<open>The envelope\<close>

text \<open>\<open>fmt.Sscanf\<close> with the format of a word and a space; \<open>None\<close> is the error for blank text.\<close>

definition scan_word :: "string \<Rightarrow> string option" where
  "scan_word s =
     (let rs = dropWhile IsSpace (runes s)
      in if rs = [] then None else Some (concat (map encode_rune (takeWhile (\<lambda>r. \<not> IsSpace r) rs))))"

definition checkSPF :: "'s cmd_env \<Rightarrow> Conn \<Rightarrow> string \<Rightarrow> string \<times> string option" where
  "checkSPF env c addr =
     (if completedAuth c then ([], None)
      else if ce_spf_off env then ([], None)
      else case remoteAddr c of
          TCPAddr ip _ \<Rightarrow> ce_spf env ip (DomainOf addr) addr
        | OtherAddr _ \<Rightarrow> ([], None))"

definition secLevelCheck :: "'s cmd_env \<Rightarrow> Conn \<Rightarrow> 's shared \<Rightarrow> string \<Rightarrow> bool \<times> 's shared" where
  "secLevelCheck env c sh addr =
     (if spfResult c \<noteq> ''pass'' then (True, sh)
      else
        (let level = (if onTLS c then TLS_CLIENT else PLAIN);
             (ok, db) = Incoming (ce_levels env) (sh_dinfo sh) (DomainOf addr) level
         in (ok, sh\<lparr>sh_dinfo := db\<rparr>)))"

definition err_text :: "string option \<Rightarrow> string" where
  "err_text e = (case e of None \<Rightarrow> ''<nil>'' | Some t \<Rightarrow> t)"

text \<open>The checks on a sender that is not the null one; the envelope has been reset.\<close>

definition mail_sender :: "'s cmd_env \<Rightarrow> string \<Rightarrow> Conn \<Rightarrow> 's shared \<Rightarrow> outcome \<times> Conn \<times> 's shared" where
  "mail_sender env rawAddr c sh =
     (case ce_ParseAddress env rawAddr of
        Inl _ \<Rightarrow> (Reply 501 ''5.1.7 Sender address malformed'', c, sh)
      | Inr addr \<Rightarrow>
          if addr = [] then (Reply 501 ''5.1.7 Sender address malformed'', c, sh)
          else if \<not> Contains addr ''@'' then (Reply 501 ''5.1.8 Sender address must contain a domain'', c, sh)
          else if 256 < length addr then (Reply 501 ''5.1.7 Sender address too long'', c, sh)
          else
            (let (res, err) = checkSPF env c addr;
                 c1 = c\<lparr>spfResult := res, spfError := err\<rparr>
             in if res = ''fail'' then (Reply 550 (''5.7.23 SPF check failed: '' @ err_text err), c1, sh)
                else
                  (let (ok, sh1) = secLevelCheck env c1 sh addr in
                   if \<not> ok then (Reply 550 ''5.7.3 Security level check failed'', c1, sh1)
                   else case DomainToUnicode (ce_text env) addr of
                       (_, Some _) \<Rightarrow>
                         (Reply 501 ''5.1.8 Malformed sender domain (IDNA conversion failed)'', c1, sh1)
                     | (addr', None) \<Rightarrow>
                         (Reply 250 ''2.1.5 You feel like you are being watched'', c1\<lparr>mailFrom := addr'\<rparr>, sh1))))"

definition MAIL :: "'s cmd_env \<Rightarrow> string \<Rightarrow> Conn \<Rightarrow> 's shared \<Rightarrow> outcome \<times> Conn \<times> 's shared" where
  "MAIL env params c sh =
     (if \<not> HasPrefix (ToLower (tl_unicode (ce_text env)) params) ''from:'' then
        (Reply 500 ''5.5.2 Unknown command'', c, sh)
      else if IsSubmission (c_mode c) \<and> \<not> completedAuth c then
        (Reply 550 ''5.7.9 Mail to submission port must be authenticated'', c, sh)
      else if length params < 5 then (Crash, c, sh)
      else case scan_word (drop 5 params) of
          None \<Rightarrow> (Reply 500 (''5.5.4 Malformed command: '' @ ce_scan_err env), c, sh)
        | Some rawAddr \<Rightarrow>
            (let c1 = resetEnvelope c in
             if ReplaceAll rawAddr '' '' [] = ''<>'' then
               (Reply 250 ''2.1.5 You feel like you are being watched'', c1\<lparr>mailFrom := ''<>''\<rparr>, sh)
             else mail_sender env rawAddr c1 sh))"

definition localUserExists :: "'s cmd_env \<Rightarrow> Conn \<Rightarrow> string \<Rightarrow> (auth_error, bool) result" where
  "localUserExists env c addr =
     (if Exists (ce_text env) (ce_hook env) (aliasesR c) addr then Ok True
      else
        (let (user, domain) = Split_addr (RemoveDropsAndSuffix (ce_text env) (aliasesR c) addr)
         in auth_Exists (authr c) user domain))"

text \<open>The checks on a local recipient.\<close>

definition rcpt_local :: "'s cmd_env \<Rightarrow> string \<Rightarrow> Conn \<Rightarrow> outcome \<times> Conn" where
  "rcpt_local env addr0 c =
     (case Addr (ce_text env) addr0 of
        (_, Some _) \<Rightarrow> (Reply 550 ''5.1.3 Destination address is invalid'', c)
      | (addr, None) \<Rightarrow>
          (case localUserExists env c addr of
             Inl (AuthPanic _) \<Rightarrow> (Crash, c)
           | Inl (AuthErr _) \<Rightarrow> (Reply 451 ''4.4.3 Temporary error checking address'', c)
           | Inr ok \<Rightarrow>
               if \<not> ok then
                 (Reply 550 ''5.1.1 Destination address is unknown (user does not exist)'', c)
               else (Reply 250 ''2.1.5 You have an eerie feeling...'', c\<lparr>rcptTo := rcptTo c @ [addr]\<rparr>)))"

definition RCPT :: "'s cmd_env \<Rightarrow> string \<Rightarrow> Conn \<Rightarrow> outcome \<times> Conn" where
  "RCPT env params c =
     (if \<not> HasPrefix (ToLower (tl_unicode (ce_text env)) params) ''to:'' then (Reply 500 ''5.5.2 Unknown command'', c)
      else if mailFrom c = [] then (Reply 503 ''5.5.1 Sender not yet given'', c)
      else if length params < 3 then (Crash, c)
      else case scan_word (drop 3 params) of
          None \<Rightarrow> (Reply 500 (''5.5.4 Malformed command: '' @ ce_scan_err env), c)
        | Some rawAddr \<Rightarrow>
            if 100 < length (rcptTo c) then (Reply 452 ''4.5.3 Too many recipients'', c)
            else case ce_ParseAddress env rawAddr of
                Inl _ \<Rightarrow> (Reply 501 ''5.1.3 Malformed destination address'', c)
              | Inr e \<Rightarrow>
                  if e = [] then (Reply 501 ''5.1.3 Malformed destination address'', c)
                  else case DomainToUnicode (ce_text env) e of
                      (_, Some _) \<Rightarrow> (Reply 501 ''5.1.2 Malformed destination domain (IDNA conversion failed)'', c)
                    | (addr, None) \<Rightarrow>
                        if 256 < length addr then (Reply 501 ''5.1.3 Destination address too long'', c)
                        else if \<not> DomainIn addr (localDomains c) \<and> \<not> completedAuth c then
                          (Reply 503 ''5.7.1 Relay not allowed'', c)
                        else if DomainIn addr (localDomains c) then rcpt_local env addr c
                        else (Reply 250 ''2.1.5 You have an eerie feeling...'', c\<lparr>rcptTo := rcptTo c @ [addr]\<rparr>))"

section \<open>The contents\<close>

definition checkData :: "'s cmd_env \<Rightarrow> string \<Rightarrow> string option" where
  "checkData env data =
     (case ce_ReadMessage env data of
        Inl e \<Rightarrow> Some (''5.6.0 Error parsing message: '' @ e)
      | Inr received \<Rightarrow>
          if ce_maxReceived env < received
          then Some (''5.4.6 Loop detected ('' @ FormatUint (ce_maxReceived env) @ '' hops)'')
          else None)"

text \<open>The loop over the signers; each signature covers the ones before it.\<close>

fun sign_loop :: "'s cmd_env \<Rightarrow> Signer list \<Rightarrow> string \<Rightarrow> (dkim_error, unit) result \<times> string" where
  "sign_loop env [] data = (Ok (), data)"
| "sign_loop env (signer # signers) data =
     (case Sign (tl_unicode (ce_text env)) (ce_dkim env) (ce_sign env) (ce_unix env) signer (StringToCRLF data) of
        Inl e \<Rightarrow> (Err e, data)
      | Inr sig \<Rightarrow> sign_loop env signers (AddHeader data ''DKIM-Signature'' (ReplaceAll sig [CR, LF] [LF])))"

definition dkimSign :: "'s cmd_env \<Rightarrow> Conn \<Rightarrow> (dkim_error, unit) result \<times> Conn" where
  "dkimSign env c =
     (let signers = (case map_of (dkimSigners c) (DomainOf (mailFrom c)) of None \<Rightarrow> [] | Some ss \<Rightarrow> ss);
          (res, data) = sign_loop env signers (c_data c)
      in (res, c\<lparr>c_data := data\<rparr>))"

text \<open>The result is \<open>nil\<close> next to an error; \<open>None\<close> is the panic of the verification.\<close>

definition dkimVerify :: "'s cmd_env \<Rightarrow> Conn \<Rightarrow> Conn option" where
  "dkimVerify env c =
     (case VerifyMessage (tl_unicode (ce_text env)) (ce_dkim env) maxHeaders_default (ToCRLF (c_data c)) of
        None \<Rightarrow> None
      | Some (Inl _) \<Rightarrow> Some (c\<lparr>dkimVerifyResult := None\<rparr>)
      | Some (Inr r) \<Rightarrow> Some (c\<lparr>dkimVerifyResult := Some r\<rparr>))"

definition with_proto :: "Conn \<Rightarrow> string" where
  "with_proto c =
     (if isESMTP c then ''ESMTP'' else ''SMTP'') @ (if onTLS c then ''S'' else []) @ (if completedAuth c then ''A'' else [])"

definition received_header :: "'s cmd_env \<Rightarrow> Conn \<Rightarrow> string" where
  "received_header env c =
     (if completedAuth c then ''from '' @ ehloDomain c @ [LF]
      else ''from '' @ ehloDomain c @ '' (['' @ addrLiteral (remoteAddr c) @ ''])'' @ [LF])
     @ ''by '' @ hostname c @ '' (chasquid) ''
     @ ''with '' @ with_proto c @ [LF]
     @ (case tlsConnState c of
          None \<Rightarrow> []
        | Some ts \<Rightarrow> ''tls '' @ CipherSuiteName (ts_CipherSuite ts) @ [LF])
     @ ''(over '' @ mode_String (c_mode c) @ '', ''
     @ (case tlsConnState c of
          None \<Rightarrow> ''plain text!, ''
        | Some ts \<Rightarrow> VersionName (ts_Version ts) @ '', '')
     @ ''envelope from '' @ Quote (tl_unicode (ce_text env)) (mailFrom c) @ '')'' @ [LF]
     @ ''; '' @ ce_date env @ [LF]"

definition addReceivedHeader :: "'s cmd_env \<Rightarrow> Conn \<Rightarrow> Conn" where
  "addReceivedHeader env c =
     (let d1 = AddHeader (c_data c) ''Received'' (received_header env c);
          spf = (spfResult c \<noteq> []);
          verdict = spfResult c @ '' ('' @ err_text (spfError c) @ '')'';
          d2 = (if spf then AddHeader d1 ''Received-SPF'' verdict else d1);
          arHdr = hostname c @ [CR, LF] @ (if spf then '';spf='' @ verdict @ [CR, LF] else [])
                  @ (case dkimVerifyResult c of
                       None \<Rightarrow> []
                     | Some r \<Rightarrow> AuthenticationResults (tl_unicode (ce_text env)) (ce_dkim_text env) r @ [CR, LF]);
          d3 = (if spf \<or> dkimVerifyResult c \<noteq> None then AddHeader d2 ''Authentication-Results'' (TrimSpace arHdr) else d2)
      in c\<lparr>c_data := d3\<rparr>)"

definition hook_vars :: "'s cmd_env \<Rightarrow> Conn \<Rightarrow> string list" where
  "hook_vars env c =
     map (\<lambda>v. v @ ''='' @ ce_getenv env v) (Fields ''USER PWD SHELL PATH'')
     @ [''REMOTE_ADDR='' @ addr_string (remoteAddr c),
        ''EHLO_DOMAIN='' @ sanitizeEHLODomain (ehloDomain c),
        ''EHLO_DOMAIN_RAW='' @ ehloDomain c,
        ''MAIL_FROM='' @ mailFrom c,
        ''RCPT_TO='' @ Join (rcptTo c) '' '',
        (if completedAuth c then ''AUTH_AS='' @ authUser c @ ''@'' @ authDomain c else ''AUTH_AS=''),
        ''ON_TLS='' @ boolToStr (onTLS c),
        ''FROM_LOCAL_DOMAIN='' @ boolToStr (DomainIn (mailFrom c) (localDomains c)),
        ''SPF_PASS='' @ boolToStr (spfResult c = ''pass'')]"

text \<open>The headers to add, or the error and whether it is permanent.\<close>

definition runPostDataHook :: "'s cmd_env \<Rightarrow> Conn \<Rightarrow> (string \<times> bool, string) result" where
  "runPostDataHook env c =
     (if ce_post_missing env then Ok []
      else case ce_post env (postDataHook c) (hook_vars env c) (c_data c) of
          PostFail status out \<Rightarrow> Err (lastLine out, status = Some 20)
        | PostOK out \<Rightarrow> if isHeader out then Ok out else Ok [])"

fun put_error_text :: "'s cmd_env \<Rightarrow> put_error \<Rightarrow> string" where
  "put_error_text env errQueueFull = ''Queue size too big, try again later''"
| "put_error_text env (ResolveError t e) =
     ''error resolving aliases for '' @ Quote (tl_unicode (ce_text env)) t @ '': '' @ ce_alias_text env e"
| "put_error_text env (WriteError e) = ''failed to write item: '' @ e"

definition data_msgs :: "string list" where
  "data_msgs =
     [''You offer the Amulet of Yendor to Anhur...'',
      ''An invisible choir sings, and you are bathed in radiance...'',
      ''The voice of Anhur booms out: Congratulations, mortal!'',
      ''In return to thy service, I grant thee the gift of Immortality!'',
      ''You ascend to the status of Demigod(dess)...'']"

text \<open>From the hook on: the message has been signed or verified, and has its headers.\<close>

definition data_queue :: "'s cmd_env \<Rightarrow> Conn \<Rightarrow> 's shared \<Rightarrow> outcome \<times> Conn \<times> 's shared" where
  "data_queue env c sh =
     (case runPostDataHook env c of
        Inl (err, permanent) \<Rightarrow> (Reply (if permanent then 554 else 451) err, c, sh)
      | Inr hookOut \<Rightarrow>
          (let c1 = c\<lparr>c_data := hookOut @ c_data c\<rparr> in
           case q_Put (ce_codec env) (ce_queue env) (sh_queue sh) (mailFrom c1) (rcptTo c1) (c_data c1) of
             (Inl e, q, _) \<Rightarrow>
               (Reply 451 (''4.3.0 Failed to queue message: '' @ put_error_text env e), c1, sh\<lparr>sh_queue := q\<rparr>)
           | (Inr msgID, q, item) \<Rightarrow>
               (Reply 250 (''2.0.0 '' @ data_msgs ! (ce_rand env mod length data_msgs)), resetEnvelope c1,
                sh\<lparr>sh_queue := q, sh_started := sh_started sh @ (case item of None \<Rightarrow> [] | Some i \<Rightarrow> [i])\<rparr>)))"

text \<open>The message has been read: checks, DKIM and headers.\<close>

definition data_process :: "'s cmd_env \<Rightarrow> Conn \<Rightarrow> 's shared \<Rightarrow> outcome \<times> Conn \<times> 's shared" where
  "data_process env c sh =
     (case checkData env (c_data c) of
        Some err \<Rightarrow> (Reply 554 err, c, sh)
      | None \<Rightarrow>
          if completedAuth c then
            (case dkimSign env c of
               (Inl _, c1) \<Rightarrow> (Reply 451 ''4.3.0 DKIM signing failed'', c1, sh)
             | (Inr _, c1) \<Rightarrow> data_queue env (addReceivedHeader env c1) sh)
          else
            (case dkimVerify env c of
               None \<Rightarrow> (Crash, c, sh)
             | Some c1 \<Rightarrow> data_queue env (addReceivedHeader env c1) sh))"

definition DATA :: "'s cmd_env \<Rightarrow> Conn \<Rightarrow> 's shared \<Rightarrow> outcome \<times> Conn \<times> 's shared" where
  "DATA env c sh =
     (if ehloDomain c = [] then (Reply 503 ''5.5.1 Invisible customers are not welcome!'', c, sh)
      else if mailFrom c = [] then (Reply 503 ''5.5.1 Sender not yet given'', c, sh)
      else if rcptTo c = [] then (Reply 503 ''5.5.1 Need an address to send to'', c, sh)
      else case writeResponse (ce_wr env 0) 354 ''You suddenly realize it is unnaturally quiet'' c of
          (Some e, c1) \<Rightarrow> (Reply 554 (''5.4.0 Error writing DATA response: '' @ e), c1, sh)
        | (None, c1) \<Rightarrow>
            (let (buf, err, r) = readUntilDot (c_reader c1) (maxDataSize c1);
                 c2 = c1\<lparr>c_data := buf, c_reader := r\<rparr>
             in case err of
                  None \<Rightarrow> data_process env c2 sh
                | Some errMessageTooLarge \<Rightarrow> (Reply 552 ''5.3.4 Message too big'', c2, sh)
                | Some errInvalidLineEnding \<Rightarrow>
                    (Reply (-1) ''Invalid line ending, closing connection'',
                     snd (writeResponse (ce_wr env 1) 521 ''5.5.2 Error reading DATA: invalid line ending'' c2), sh)
                | Some (errRead e) \<Rightarrow> (Reply 554 (''5.4.0 Error reading DATA: '' @ io_error_text e), c2, sh)))"

section \<open>TLS and authentication\<close>

text \<open>The old reader, with whatever it has buffered, is dropped when the handshake works.\<close>

definition STARTTLS :: "'s cmd_env \<Rightarrow> Conn \<Rightarrow> outcome \<times> Conn" where
  "STARTTLS env c =
     (if onTLS c then (Reply 503 ''5.5.1 You are already wearing that!'', c)
      else case writeResponse (ce_wr env 0) 220 ''2.0.0 You experience a strange sense of peace'' c of
          (Some e, c1) \<Rightarrow> (Reply 554 (''5.4.0 Error writing STARTTLS response: '' @ e), c1)
        | (None, c1) \<Rightarrow>
            (case ce_handshake env of
               Inl (n, e) \<Rightarrow>
                 (Reply 554 (''5.5.0 Error in TLS handshake: '' @ e),
                  c1\<lparr>c_reader := (c_reader c1)\<lparr>r_bytes := drop n (r_bytes (c_reader c1))\<rparr>\<rparr>)
             | Inr (reader, ts) \<Rightarrow>
                 (let c2 = resetEnvelope (c1\<lparr>c_reader := reader, c_broken := None, tlsConnState := Some ts\<rparr>);
                      c3 = c2\<lparr>onTLS := True\<rparr>
                  in (Reply 0 [], if ts_ServerName ts \<noteq> [] then c3\<lparr>hostname := ts_ServerName ts\<rparr> else c3))))"

text \<open>The response, from the parameters or read from the client.\<close>

definition auth_response :: "'s cmd_env \<Rightarrow> string list \<Rightarrow> Conn \<Rightarrow> (string, string) result \<times> Conn" where
  "auth_response env sp c =
     (if length sp = 2 then (Ok (sp ! 1), c)
      else case writeResponse (ce_wr env 0) 334 [] c of
          (Some e, c1) \<Rightarrow> (Err (''5.4.0 Error writing AUTH 334: '' @ e), c1)
        | (None, c1) \<Rightarrow>
            (case readLine (c_reader c1) of
               (Inl e, r) \<Rightarrow> (Err (''5.4.0 Error reading AUTH response: '' @ line_error_text e), c1\<lparr>c_reader := r\<rparr>)
             | (Inr l, r) \<Rightarrow> (Ok l, c1\<lparr>c_reader := r\<rparr>)))"

definition AUTH :: "'s cmd_env \<Rightarrow> string \<Rightarrow> Conn \<Rightarrow> outcome \<times> Conn" where
  "AUTH env params c =
     (if \<not> onTLS c then (Reply 503 ''5.7.10 You feel vulnerable'', c)
      else if completedAuth c then (Reply 503 ''5.5.1 You are already wearing that!'', c)
      else
        (let sp = SplitN2 params '' '' in
         if length sp < 1 \<or> sp ! 0 \<noteq> ''PLAIN'' then
           (Reply 534 ''5.7.9 Asmodeus demands 534 zorkmids for safe passage'', c)
         else case auth_response env sp c of
             (Inl msg, c1) \<Rightarrow> (Reply 554 msg, c1)
           | (Inr response, c1) \<Rightarrow>
               (case DecodeResponse (ce_text env) response of
                  Inl e \<Rightarrow> (Reply 501 (''5.5.2 Error decoding AUTH response: '' @ e), c1)
                | Inr (user, domain, passwd) \<Rightarrow>
                    (case Authenticate (authr c1) user domain passwd of
                       Inl (AuthPanic _) \<Rightarrow> (Crash, c1)
                     | Inl (AuthErr _) \<Rightarrow> (Reply 454 ''4.7.0 Temporary authentication failure'', c1)
                     | Inr authOk \<Rightarrow>
                         if authOk then
                           (Reply 235 ''2.7.0 Authentication successful'',
                            c1\<lparr>authUser := user, authDomain := domain, completedAuth := True\<rparr>)
                         else (Reply 535 ''5.7.8 Incorrect user or password'', c1)))))"

section \<open>The loop\<close>

text \<open>The commands that are handled and answered; the loop itself deals with the rest.\<close>

definition run_command ::
  "'s cmd_env \<Rightarrow> string \<Rightarrow> string \<Rightarrow> Conn \<Rightarrow> 's shared \<Rightarrow> outcome \<times> Conn \<times> 's shared" where
  "run_command env verb params c sh =
     (if verb = ''HELO'' then (let (res, c') = HELO env params c in (res, c', sh))
      else if verb = ''EHLO'' then (let (res, c') = EHLO params c in (res, c', sh))
      else if verb = ''HELP'' then (HELP, c, sh)
      else if verb = ''NOOP'' then (NOOP, c, sh)
      else if verb = ''RSET'' then (let (res, c') = RSET env c in (res, c', sh))
      else if verb = ''VRFY'' then (VRFY, c, sh)
      else if verb = ''EXPN'' then (EXPN, c, sh)
      else if verb = ''MAIL'' then MAIL env params c sh
      else if verb = ''RCPT'' then (let (res, c') = RCPT env params c in (res, c', sh))
      else if verb = ''DATA'' then DATA env c sh
      else if verb = ''STARTTLS'' then (let (res, c') = STARTTLS env c in (res, c', sh))
      else if verb = ''AUTH'' then (let (res, c') = AUTH env params c in (res, c', sh))
      else (Reply 500 ''5.5.1 Unknown command'', c, sh))"

datatype loop_end = Closed | Panicked

text \<open>
  One turn of the loop: the number of errors, the connection and what is shared after it, and, if it
  was the last one, how the loop ended.
\<close>

definition handle_turn ::
  "'s cmd_env \<Rightarrow> nat \<Rightarrow> Conn \<Rightarrow> 's shared \<Rightarrow> loop_end option \<times> nat \<times> Conn \<times> 's shared" where
  "handle_turn env errCount c sh =
     (if 0 < ce_now env - c_deadline c then (Some Closed, errCount, c, sh)
      else case readCommand (tl_unicode (ce_text env)) (c_reader c) of
          (Inl e, r) \<Rightarrow>
            (Some Closed, errCount,
             printfLine (ce_wr env 2) (''554 error reading command: '' @ line_error_text e) (c\<lparr>c_reader := r\<rparr>), sh)
        | (Inr (verb, params), r) \<Rightarrow>
            (let c0 = c\<lparr>c_reader := r\<rparr> in
             if verb = ''QUIT'' then
               (Some Closed, errCount, snd (writeResponse (ce_wr env 2) 221 ''2.0.0 Be seeing you...'' c0), sh)
             else if verb \<in> {''GET'', ''POST'', ''CONNECT''} then
               (Some Closed, errCount, snd (writeResponse (ce_wr env 2) 502 ''5.7.0 You hear someone cursing shoplifters'' c0), sh)
             else case run_command env verb params c0 sh of
                 (Crash, c1, sh1) \<Rightarrow> (Some Panicked, errCount, c1, sh1)
               | (Reply code msg, c1, sh1) \<Rightarrow>
                   if 0 < code then
                     (let n = (if 400 \<le> code then Suc errCount else errCount) in
                      if 400 \<le> code \<and> 3 \<le> n then
                        (Some Closed, n, snd (writeResponse (ce_wr env 2) 421 ''4.5.0 Too many errors, bye'' c1), sh1)
                      else case writeResponse (ce_wr env 2) code msg c1 of
                          (Some e, c2) \<Rightarrow> (Some Closed, n, c2, sh1)
                        | (None, c2) \<Rightarrow> (None, n, c2, sh1))
                   else if code < 0 then (Some Closed, errCount, c1, sh1)
                   else (None, errCount, c1, sh1)))"

text \<open>The loop, with what the outside does at each turn; \<open>None\<close> would be a loop that does not end.\<close>

partial_function (option) handle_loop ::
  "(nat \<Rightarrow> 's cmd_env) \<Rightarrow> nat \<Rightarrow> nat \<Rightarrow> Conn \<Rightarrow> 's shared \<Rightarrow> (loop_end \<times> nat \<times> Conn \<times> 's shared) option" where
  "handle_loop envs i errCount c sh =
     (case handle_turn (envs i) errCount c sh of
        (Some e, n, c', sh') \<Rightarrow> Some (e, n, c', sh')
      | (None, n, c', sh') \<Rightarrow> handle_loop envs (Suc i) n c' sh')"

text \<open>
  The start of \<open>Handle\<close>: the TLS handshake of a connection that is wrapped in TLS, the one with the
  proxy, and the greeting. \<open>None\<close> is a handshake that failed, which closes the connection.
\<close>

record start_env =
  st_tls :: "(string, tls_state) result"
  st_ParseIP :: "string \<Rightarrow> string option"
  st_wr :: write_res

definition start_conn :: "start_env \<Rightarrow> Conn \<Rightarrow> Conn option" where
  "start_conn env c =
     (case (if mode_TLS (c_mode c)
            then (case st_tls env of
                    Inl _ \<Rightarrow> None
                  | Inr ts \<Rightarrow>
                      Some (let c' = c\<lparr>tlsConnState := Some ts\<rparr>
                            in if ts_ServerName ts \<noteq> [] then c'\<lparr>hostname := ts_ServerName ts\<rparr> else c'))
            else Some c) of
        None \<Rightarrow> None
      | Some c1 \<Rightarrow>
          (case (if haproxyEnabled c1
                 then (case Handshake (st_ParseIP env) (c_reader c1) of
                         (Inl _, r) \<Rightarrow> None
                       | (Inr (src, dst), r) \<Rightarrow> Some (c1\<lparr>c_reader := r, remoteAddr := src\<rparr>))
                 else Some c1) of
             None \<Rightarrow> None
           | Some c2 \<Rightarrow> Some (printfLine (st_wr env) (''220 '' @ hostname c2 @ '' ESMTP chasquid'') c2)))"

definition Handle ::
  "start_env \<Rightarrow> (nat \<Rightarrow> 's cmd_env) \<Rightarrow> Conn \<Rightarrow> 's shared \<Rightarrow> (loop_end \<times> nat \<times> Conn \<times> 's shared) option" where
  "Handle env envs c sh =
     (case start_conn env c of
        None \<Rightarrow> Some (Closed, 0, c, sh)
      | Some c' \<Rightarrow> handle_loop envs 0 0 c' sh)"

end
