(* ===== verification/ConnSafety.thy ===== *)
theory ConnSafety
  imports Conn
begin

text \<open>
  What an SMTP connection guarantees (\<open>src/internal/smtpsrv/conn.go\<close>): what every command changes, the
  invariant of the connection, what it lets into the queue, and that the loop ends.
\<close>

section \<open>What each command changes\<close>

text \<open>
  Reading and writing only change the reader and the writer, and reading never makes the input
  longer; \<open>DATA\<close> also works on the message.
\<close>

definition io_only :: "Conn \<Rightarrow> Conn \<Rightarrow> bool" where
  "io_only c c' \<longleftrightarrow>
     (\<exists>r out br. c' = c\<lparr>c_reader := r, c_out := out, c_broken := br\<rparr> \<and> length (r_bytes r) \<le> length (r_bytes (c_reader c)))"

definition work_only :: "Conn \<Rightarrow> Conn \<Rightarrow> bool" where
  "work_only c c' \<longleftrightarrow>
     (\<exists>r out br data dk. c' = c\<lparr>c_reader := r, c_out := out, c_broken := br, c_data := data, dkimVerifyResult := dk\<rparr> \<and>
        length (r_bytes r) \<le> length (r_bytes (c_reader c)))"

lemma io_only_refl [simp]: "io_only c c"
  unfolding io_only_def by (intro exI [of _ "c_reader c"] exI [of _ "c_out c"] exI [of _ "c_broken c"]) simp

lemma io_only_trans [trans]: "io_only c c1 \<Longrightarrow> io_only c1 c2 \<Longrightarrow> io_only c c2"
  unfolding io_only_def by (clarsimp, intro exI conjI, rule refl, erule (1) le_trans)

lemma io_only_reader: "length (r_bytes r) \<le> length (r_bytes (c_reader c)) \<Longrightarrow> io_only c (c\<lparr>c_reader := r\<rparr>)"
  unfolding io_only_def by (intro exI [of _ r] exI [of _ "c_out c"] exI [of _ "c_broken c"]) simp

lemma io_only_work: "io_only c c' \<Longrightarrow> work_only c c'"
  unfolding io_only_def work_only_def
  by (elim exE conjE, rule_tac x = r in exI, rule_tac x = out in exI, rule_tac x = br in exI,
      rule exI [of _ "c_data c"], rule exI [of _ "dkimVerifyResult c"]) simp

lemma work_only_trans [trans]: "work_only c c1 \<Longrightarrow> work_only c1 c2 \<Longrightarrow> work_only c c2"
  unfolding work_only_def by (clarsimp, intro exI conjI, rule refl, erule (1) le_trans)

lemma work_only_refl [simp]: "work_only c c"
  by (simp add: io_only_work)

lemma work_only_fields:
  "work_only c c' \<Longrightarrow> mailFrom c' = mailFrom c" "work_only c c' \<Longrightarrow> rcptTo c' = rcptTo c"
  "work_only c c' \<Longrightarrow> maxDataSize c' = maxDataSize c"
  by (auto simp: work_only_def)

lemma work_only_data [simp]: "work_only c (c\<lparr>c_data := d\<rparr>)"
  unfolding work_only_def
  by (intro exI [of _ "c_reader c"] exI [of _ "c_out c"] exI [of _ "c_broken c"] exI [of _ d] exI [of _ "dkimVerifyResult c"]) simp

lemma work_only_dkim [simp]: "work_only c (c\<lparr>dkimVerifyResult := v\<rparr>)"
  unfolding work_only_def
  by (intro exI [of _ "c_reader c"] exI [of _ "c_out c"] exI [of _ "c_broken c"] exI [of _ "c_data c"] exI [of _ v]) simp

lemma w_write_io: "w_write wr s c = (e, c') \<Longrightarrow> io_only c c'"
proof (cases "c_broken c")
  case None
  assume "w_write wr s c = (e, c')"
  then show ?thesis unfolding io_only_def using None
    by (intro exI [of _ "c_reader c"]) (auto simp: w_write_def Let_def)
qed (auto simp: w_write_def)

lemma writeResponse_io: "writeResponse wr code msg c = (e, c') \<Longrightarrow> io_only c c'"
  unfolding writeResponse_def by (rule w_write_io)

lemma writeResponse_io_snd: "io_only c (snd (writeResponse wr code msg c))"
  by (rule writeResponse_io [of wr code msg c "fst (writeResponse wr code msg c)"]) simp

lemma printfLine_io: "io_only c (printfLine wr line c)"
  unfolding printfLine_def by (rule w_write_io [of wr _ c "fst (w_write wr (line @ [CR, LF]) c)"]) simp

lemma ReadLine_le: "length (r_bytes (snd (ReadLine r))) \<le> length (r_bytes r)"
  by (simp add: ReadLine_def Let_def)

lemma discard_rest_le: "length (r_bytes (discard_rest r)) \<le> length (r_bytes r)"
proof (induction r rule: discard_rest.induct)
  case (1 r)
  obtain res r' where rl: "ReadLine r = (res, r')" by fastforce
  then have le: "length (r_bytes r') \<le> length (r_bytes r)" using ReadLine_le [of r] by simp
  show ?case
  proof (cases res)
    case (Inl e)
    then show ?thesis using rl le by (simp add: discard_rest.simps [of r])
  next
    case (Inr p)
    obtain l again where p: "p = (l, again)" by fastforce
    show ?thesis using "1.IH" [OF rl [symmetric] Inr p [symmetric]] rl le Inr p
      by (cases again) (simp_all add: discard_rest.simps [of r])
  qed
qed

lemma readLine_le: "readLine r = (res, r') \<Longrightarrow> length (r_bytes r') \<le> length (r_bytes r)"
  using ReadLine_le [of r] discard_rest_le [of "snd (ReadLine r)"]
  by (auto simp: readLine_def split: prod.splits sum.splits if_splits)

lemma readLine_less: "readLine r = (Ok l, r') \<Longrightarrow> length (r_bytes r') < length (r_bytes r)"
  using ReadLine_consumes [of r] by (auto simp: readLine_def split: prod.splits sum.splits if_splits)

lemma readCommand_le: "readCommand u r = (res, r') \<Longrightarrow> length (r_bytes r') \<le> length (r_bytes r)"
  using readLine_le [of r] by (auto simp: readCommand_def Let_def split: prod.splits sum.splits)

lemma readCommand_less: "readCommand u r = (Ok x, r') \<Longrightarrow> length (r_bytes r') < length (r_bytes r)"
  using readLine_less [of r] by (auto simp: readCommand_def Let_def split: prod.splits sum.splits)

lemma dot_loop_le: "dot_loop e mx st s = (buf, err, rest) \<Longrightarrow> length rest \<le> length s"
  by (induction e mx st s rule: dot_loop.induct) (auto split: if_splits)

lemma readUntilDot_le: "readUntilDot r mx = (buf, err, r') \<Longrightarrow> length (r_bytes r') \<le> length (r_bytes r)"
  by (auto simp: readUntilDot_def dest!: dot_loop_le split: prod.splits)

lemma secLevelCheck_shared:
  "secLevelCheck env c sh addr = (ok, sh') \<Longrightarrow> \<exists>db. sh' = sh\<lparr>sh_dinfo := db\<rparr>"
  by (auto simp: secLevelCheck_def split: if_splits prod.splits intro: exI [of _ "sh_dinfo sh"])

lemma mail_sender_cases:
  assumes "mail_sender env raw c sh = (res, c', sh')" "mailFrom c = []" "spfResult c = []"
  shows "(\<exists>db. sh' = sh\<lparr>sh_dinfo := db\<rparr>) \<and>
    (\<exists>spf err sender. c' = c\<lparr>spfResult := spf, spfError := err, mailFrom := sender\<rparr> \<and> (sender \<noteq> [] \<longrightarrow> spf \<noteq> ''fail''))"
proof -
  have same: "\<exists>spf err sender. c = c\<lparr>spfResult := spf, spfError := err, mailFrom := sender\<rparr> \<and> (sender \<noteq> [] \<longrightarrow> spf \<noteq> ''fail'')"
    using assms(2) by (intro exI [of _ "spfResult c"] exI [of _ "spfError c"] exI [of _ "[]"]) (cases c; simp)
  have only_spf: "\<exists>spf err sender. c\<lparr>spfResult := r, spfError := e\<rparr> = c\<lparr>spfResult := spf, spfError := err, mailFrom := sender\<rparr>
      \<and> (sender \<noteq> [] \<longrightarrow> spf \<noteq> ''fail'')" for r e
    using assms(2) by (intro exI [of _ r] exI [of _ e] exI [of _ "[]"]) (cases c; simp)
  have sh: "\<exists>db. sh = sh\<lparr>sh_dinfo := db\<rparr>" by (rule exI [of _ "sh_dinfo sh"]) simp
  show ?thesis
  proof (cases "ce_ParseAddress env raw")
    case (Inl e)
    then show ?thesis using assms(1) same sh by (simp add: mail_sender_def)
  next
    case (Inr addr)
    show ?thesis
    proof (cases "addr = [] \<or> \<not> Contains addr ''@'' \<or> 256 < length addr")
      case True
      then have "c' = c \<and> sh' = sh" using assms(1) Inr by (auto simp: mail_sender_def split: if_splits)
      then show ?thesis using same sh by simp
    next
      case False
      obtain r e where spf: "checkSPF env c addr = (r, e)" by fastforce
      let ?c1 = "c\<lparr>spfResult := r, spfError := e\<rparr>"
      obtain ok sh1 where sec: "secLevelCheck env ?c1 sh addr = (ok, sh1)" by fastforce
      note secs = secLevelCheck_shared [OF sec]
      show ?thesis
      proof (cases "r = ''fail'' \<or> \<not> ok \<or> snd (DomainToUnicode (ce_text env) addr) \<noteq> None")
        case True
        then have "c' = ?c1 \<and> (sh' = sh \<or> sh' = sh1)"
          using assms(1) Inr False spf sec by (auto simp: mail_sender_def Let_def split: if_splits prod.splits option.splits)
        then show ?thesis using only_spf secs sh by auto
      next
        case fine: False
        then have "c' = ?c1\<lparr>mailFrom := fst (DomainToUnicode (ce_text env) addr)\<rparr> \<and> sh' = sh1"
          using assms(1) Inr False spf sec by (auto simp: mail_sender_def Let_def split: if_splits prod.splits option.splits)
        then show ?thesis using secs fine by auto
      qed
    qed
  qed
qed

lemma MAIL_cases:
  assumes "MAIL env params c sh = (res, c', sh')"
  shows "(\<exists>db. sh' = sh\<lparr>sh_dinfo := db\<rparr>) \<and>
    (c' = c \<or>
     (\<exists>spf err sender. c' = (resetEnvelope c)\<lparr>spfResult := spf, spfError := err, mailFrom := sender\<rparr> \<and>
        (sender \<noteq> [] \<longrightarrow> spf \<noteq> ''fail'') \<and> (IsSubmission (c_mode c) \<longrightarrow> completedAuth c)))"
proof -
  have sh: "\<exists>db. sh = sh\<lparr>sh_dinfo := db\<rparr>" by (rule exI [of _ "sh_dinfo sh"]) simp
  have reset: "mailFrom (resetEnvelope c) = []" "spfResult (resetEnvelope c) = []" by (simp_all add: resetEnvelope_def)
  have null: "\<exists>spf err sender. (resetEnvelope c)\<lparr>mailFrom := ''<>''\<rparr> =
      (resetEnvelope c)\<lparr>spfResult := spf, spfError := err, mailFrom := sender\<rparr> \<and> (sender \<noteq> [] \<longrightarrow> spf \<noteq> ''fail'')"
    by (intro exI [of _ "[]"] exI [of _ None] exI [of _ "''<>''"]) (simp add: resetEnvelope_def)
  consider "c' = c" "sh' = sh"
    | "c' = (resetEnvelope c)\<lparr>mailFrom := ''<>''\<rparr>" "sh' = sh" "IsSubmission (c_mode c) \<longrightarrow> completedAuth c"
    | raw where "mail_sender env raw (resetEnvelope c) sh = (res, c', sh')" "IsSubmission (c_mode c) \<longrightarrow> completedAuth c"
    using assms by (auto simp: MAIL_def Let_def split: if_splits option.splits)
  then show ?thesis
  proof cases
    case 1
    then show ?thesis using sh by simp
  next
    case 2
    then show ?thesis using sh null by simp
  next
    case 3
    then show ?thesis using mail_sender_cases [OF 3(1) reset] by blast
  qed
qed

lemma rcpt_local_cases:
  assumes "rcpt_local env a c = (res, c')"
  shows "c' = c \<or> (\<exists>a'. c' = c\<lparr>rcptTo := rcptTo c @ [a']\<rparr> \<and> Addr (ce_text env) a = (a', None) \<and> localUserExists env c a' = Ok True)"
proof (cases "Addr (ce_text env) a")
  case (Pair a' e)
  then show ?thesis using assms
    by (cases e) (auto simp: rcpt_local_def split: if_splits auth_error.splits sum.splits)
qed

lemma RCPT_cases:
  assumes "RCPT env params c = (res, c')"
  shows "c' = c \<or>
    (\<exists>a. c' = c\<lparr>rcptTo := rcptTo c @ [a]\<rparr> \<and> mailFrom c \<noteq> [] \<and> length (rcptTo c) \<le> 100 \<and>
       (completedAuth c \<or>
        (\<exists>a0. DomainIn a0 (localDomains c) \<and> Addr (ce_text env) a0 = (a, None) \<and> localUserExists env c a = Ok True)))"
proof -
  have "c' = c \<or> mailFrom c \<noteq> [] \<and> length (rcptTo c) \<le> 100 \<and>
      ((\<exists>a. DomainIn a (localDomains c) \<and> rcpt_local env a c = (res, c')) \<or>
       completedAuth c \<and> (\<exists>a. c' = c\<lparr>rcptTo := rcptTo c @ [a]\<rparr>))"
    using assms unfolding RCPT_def
    by (simp split: if_splits option.splits sum.splits prod.splits) auto
  then show ?thesis using rcpt_local_cases [of env _ c res c'] by blast
qed

lemma STARTTLS_cases:
  assumes "STARTTLS env c = (res, c')"
  shows "io_only c c' \<or>
    \<not> onTLS c \<and> (\<exists>r out ts h. ce_handshake env = Ok (r, ts) \<and>
       c' = (resetEnvelope c)\<lparr>c_reader := r, c_out := out, c_broken := None, tlsConnState := Some ts, onTLS := True, hostname := h\<rparr>)"
proof (cases "onTLS c")
  case False
  obtain e c1 where w: "writeResponse (ce_wr env 0) 220 ''2.0.0 You experience a strange sense of peace'' c = (e, c1)" by fastforce
  note io = writeResponse_io [OF w]
  show ?thesis
  proof (cases "e = None \<and> (\<exists>r ts. ce_handshake env = Ok (r, ts))")
    case True
    then obtain r ts where h: "ce_handshake env = Ok (r, ts)" "e = None" by blast
    from io obtain r1 out br where c1: "c1 = c\<lparr>c_reader := r1, c_out := out, c_broken := br\<rparr>" unfolding io_only_def by blast
    have "c' = (resetEnvelope c)\<lparr>c_reader := r, c_out := out, c_broken := None, tlsConnState := Some ts, onTLS := True,
        hostname := (if ts_ServerName ts \<noteq> [] then ts_ServerName ts else hostname c)\<rparr>"
      using assms False w h c1 by (auto simp: STARTTLS_def resetEnvelope_def Let_def)
    then show ?thesis using False h by blast
  next
    case other: False
    then have "io_only c1 c'" using assms False w
      by (auto simp: STARTTLS_def intro: io_only_reader split: option.splits sum.splits)
    then show ?thesis using io_only_trans [OF io] by blast
  qed
qed (use assms in \<open>simp add: STARTTLS_def\<close>)

lemma auth_response_io: "auth_response env sp c = (res, c') \<Longrightarrow> io_only c c'"
  by (auto simp: auth_response_def split: if_splits prod.splits option.splits sum.splits
      intro: io_only_trans io_only_reader dest!: writeResponse_io readLine_le)

lemma AUTH_cases:
  assumes "AUTH env params c = (res, c')"
  shows "io_only c c' \<or>
    onTLS c \<and> \<not> completedAuth c \<and>
      (\<exists>c1 u d p. io_only c c1 \<and> Authenticate (authr c) u d p = Ok True \<and>
         c' = c1\<lparr>authUser := u, authDomain := d, completedAuth := True\<rparr>)"
proof -
  let ?sp = "SplitN2 params '' ''"
  obtain resp c1 where r: "auth_response env ?sp c = (resp, c1)" by fastforce
  note io = auth_response_io [OF r]
  then have a: "authr c1 = authr c" by (auto simp: io_only_def)
  have "c' = c \<or> c' = c1 \<or> onTLS c \<and> \<not> completedAuth c \<and>
      (\<exists>u d p. Authenticate (authr c1) u d p = Ok True \<and> c' = c1\<lparr>authUser := u, authDomain := d, completedAuth := True\<rparr>)"
    using assms r unfolding AUTH_def Let_def
    by (simp split: if_splits sum.splits prod.splits auth_error.splits) auto
  then show ?thesis using io a by auto
qed

section \<open>What a message becomes\<close>

lemma AddHeader_suffix: "\<exists>p. AddHeader d k v = p @ d"
  by (simp add: AddHeader_def Let_def)

lemma sign_loop_suffix: "\<exists>p. snd (sign_loop env signers d) = p @ d"
proof (induction signers arbitrary: d)
  case (Cons signer signers)
  let ?sig = "Sign (tl_unicode (ce_text env)) (ce_dkim env) (ce_sign env) (ce_unix env) signer (StringToCRLF d)"
  show ?case
  proof (cases ?sig)
    case (Inr sig)
    let ?d1 = "AddHeader d ''DKIM-Signature'' (ReplaceAll sig [CR, LF] [LF])"
    obtain p1 p2 where "snd (sign_loop env signers ?d1) = p1 @ ?d1" "?d1 = p2 @ d"
      using Cons.IH [of ?d1] AddHeader_suffix by metis
    then show ?thesis using Inr by (intro exI [of _ "p1 @ p2"]) simp
  qed simp
qed simp

lemma addReceivedHeader_suffix: "\<exists>p. addReceivedHeader env c = c\<lparr>c_data := p @ c_data c\<rparr>"
proof -
  have set_data: "\<exists>p. x = p @ c_data c \<Longrightarrow> \<exists>p. c\<lparr>c_data := x\<rparr> = c\<lparr>c_data := p @ c_data c\<rparr>" for x by auto
  have step: "\<exists>p. (if b then AddHeader x k v else x) = p @ d" if "\<exists>p. x = p @ d" for b x k v d
    using that AddHeader_suffix [of x k v] by (cases b) auto
  show ?thesis unfolding addReceivedHeader_def Let_def
    by (rule set_data, rule step, rule step, rule AddHeader_suffix)
qed

lemma dkimSign_suffix: "dkimSign env c = (res, c') \<Longrightarrow> \<exists>p. c' = c\<lparr>c_data := p @ c_data c\<rparr>"
proof -
  assume h: "dkimSign env c = (res, c')"
  define signers where "signers = (case map_of (dkimSigners c) (DomainOf (mailFrom c)) of None \<Rightarrow> [] | Some ss \<Rightarrow> ss)"
  obtain r d where sl: "sign_loop env signers (c_data c) = (r, d)" by fastforce
  then have "c' = c\<lparr>c_data := d\<rparr>" using h by (simp add: dkimSign_def signers_def)
  then show ?thesis using sign_loop_suffix [of env signers "c_data c"] sl by auto
qed

lemma q_Put_Ok:
  assumes "q_Put cd env q sender to data = (Ok key, q', started)"
  shows "\<exists>item. started = Some item \<and> key = m_ID item \<and> m_From item = sender \<and> m_To item = to \<and> m_Data item = data"
  using assms by (auto simp: q_Put_def Let_def dest!: WriteTo_item split: if_splits sum.splits prod.splits option.splits)

lemma q_Put_Err: "q_Put cd env q sender to data = (Err e, q', started) \<Longrightarrow> q_items q' = q_items q \<and> started = None"
  by (auto simp: q_Put_def Let_def split: if_splits sum.splits prod.splits option.splits)

text \<open>
  What a command does to what is shared: nothing to the queue, but for \<open>DATA\<close>, which puts one item,
  or fails to.
\<close>

definition queue_kept :: "'s shared \<Rightarrow> 's shared \<Rightarrow> bool" where
  "queue_kept sh sh' \<longleftrightarrow> q_items (sh_queue sh') = q_items (sh_queue sh) \<and> sh_started sh' = sh_started sh"

definition queue_added :: "'s cmd_env \<Rightarrow> string \<Rightarrow> Conn \<Rightarrow> 's shared \<Rightarrow> 's shared \<Rightarrow> bool" where
  "queue_added env data c sh sh' \<longleftrightarrow>
     (\<exists>p q item. q_Put (ce_codec env) (ce_queue env) (sh_queue sh) (mailFrom c) (rcptTo c) (p @ data) = (Ok (m_ID item), q, Some item) \<and>
        m_From item = mailFrom c \<and> m_To item = rcptTo c \<and> m_Data item = p @ data \<and>
        sh' = sh\<lparr>sh_queue := q, sh_started := sh_started sh @ [item]\<rparr>)"

definition is_250 :: "outcome \<Rightarrow> bool" where
  "is_250 res \<longleftrightarrow> (case res of Reply code _ \<Rightarrow> code = 250 | Crash \<Rightarrow> False)"

lemma data_queue_cases:
  assumes "data_queue env c sh = (res, c', sh')"
  shows "\<not> is_250 res \<and> queue_kept sh sh' \<and> work_only c c' \<or>
    is_250 res \<and> queue_added env (c_data c) c sh sh' \<and> c' = resetEnvelope c"
proof (cases "runPostDataHook env c")
  case (Inl p)
  then show ?thesis using assms by (cases p) (auto simp: data_queue_def is_250_def queue_kept_def split: if_splits)
next
  case (Inr hookOut)
  obtain r q started where put: "q_Put (ce_codec env) (ce_queue env) (sh_queue sh) (mailFrom c) (rcptTo c) (hookOut @ c_data c)
      = (r, q, started)" by (metis prod_cases3)
  show ?thesis
  proof (cases r)
    case (Inl e)
    then show ?thesis using assms Inr put q_Put_Err [OF put [unfolded Inl]]
      by (auto simp: data_queue_def is_250_def queue_kept_def Let_def)
  next
    case key: (Inr key)
    from q_Put_Ok [OF put [unfolded key]] obtain item where item: "started = Some item" "key = m_ID item"
      "m_From item = mailFrom c" "m_To item = rcptTo c" "m_Data item = hookOut @ c_data c" by blast
    have "is_250 res" "c' = resetEnvelope c" "sh' = sh\<lparr>sh_queue := q, sh_started := sh_started sh @ [item]\<rparr>"
      using assms Inr put key item by (auto simp: data_queue_def Let_def is_250_def resetEnvelope_def)
    then show ?thesis using put key item unfolding queue_added_def by blast
  qed
qed

lemma queue_added_prefix:
  assumes "queue_added env (p @ data) c1 sh sh'" "mailFrom c1 = mailFrom c" "rcptTo c1 = rcptTo c"
  shows "queue_added env data c sh sh'"
proof -
  from assms obtain p1 q item where
    "q_Put (ce_codec env) (ce_queue env) (sh_queue sh) (mailFrom c) (rcptTo c) ((p1 @ p) @ data) = (Ok (m_ID item), q, Some item)"
    "m_From item = mailFrom c" "m_To item = rcptTo c" "m_Data item = (p1 @ p) @ data"
    "sh' = sh\<lparr>sh_queue := q, sh_started := sh_started sh @ [item]\<rparr>"
    unfolding queue_added_def by auto
  then show ?thesis unfolding queue_added_def by blast
qed

lemma queue_kept_refl [simp]: "queue_kept sh sh"
  by (simp add: queue_kept_def)

lemma data_process_cases:
  assumes "data_process env c sh = (res, c', sh')"
  shows "\<not> is_250 res \<and> queue_kept sh sh' \<and> work_only c c' \<or>
    is_250 res \<and> queue_added env (c_data c) c sh sh' \<and> (\<exists>c1. work_only c c1 \<and> c' = resetEnvelope c1)"
proof -
  have queued: ?thesis if q: "data_queue env (addReceivedHeader env c1) sh = (res, c', sh')"
    and c1: "work_only c c1" "\<exists>p. c_data c1 = p @ c_data c" for c1
  proof -
    obtain p where p: "addReceivedHeader env c1 = c1\<lparr>c_data := p @ c_data c1\<rparr>" using addReceivedHeader_suffix by blast
    let ?c2 = "c1\<lparr>c_data := p @ c_data c1\<rparr>"
    have w: "work_only c ?c2" by (rule work_only_trans [OF c1(1)]) simp
    from c1(2) obtain p1 where p1: "c_data ?c2 = (p @ p1) @ c_data c" by auto
    have m: "mailFrom ?c2 = mailFrom c" "rcptTo ?c2 = rcptTo c" using work_only_fields [OF w] by simp_all
    have "queue_added env (c_data ?c2) ?c2 sh sh' \<Longrightarrow> queue_added env (c_data c) c sh sh'"
      unfolding p1 by (rule queue_added_prefix [OF _ m])
    then show ?thesis using data_queue_cases [OF q [unfolded p]] w work_only_trans [OF w] by blast
  qed
  show ?thesis
  proof (cases "checkData env (c_data c)")
    case None
    show ?thesis
    proof (cases "completedAuth c")
      case True
      obtain r c1 where sign: "dkimSign env c = (r, c1)" by fastforce
      then obtain p where c1: "c1 = c\<lparr>c_data := p @ c_data c\<rparr>" using dkimSign_suffix by blast
      then show ?thesis using assms None True sign queued [of c1]
        by (cases r) (simp_all add: data_process_def is_250_def, auto)
    next
      case False
      show ?thesis
      proof (cases "dkimVerify env c")
        case (Some c1)
        then have "work_only c c1" "\<exists>p. c_data c1 = p @ c_data c"
          by (auto simp: dkimVerify_def intro: exI [of _ "[]"] split: option.splits sum.splits)
        moreover have "data_queue env (addReceivedHeader env c1) sh = (res, c', sh')"
          using assms None False Some by (simp add: data_process_def)
        ultimately show ?thesis by (intro queued)
      qed (use assms None False in \<open>auto simp: data_process_def is_250_def\<close>)
    qed
  qed (use assms in \<open>auto simp: data_process_def is_250_def\<close>)
qed

lemma DATA_cases:
  assumes "DATA env c sh = (res, c', sh')"
  shows "\<not> is_250 res \<and> queue_kept sh sh' \<and> work_only c c' \<or>
    is_250 res \<and> ehloDomain c \<noteq> [] \<and> mailFrom c \<noteq> [] \<and> rcptTo c \<noteq> [] \<and>
    (\<exists>buf r. readUntilDot (c_reader c) (maxDataSize c) = (buf, None, r) \<and> queue_added env buf c sh sh') \<and>
    (\<exists>c1. work_only c c1 \<and> c' = resetEnvelope c1)"
proof (cases "ehloDomain c = [] \<or> mailFrom c = [] \<or> rcptTo c = []")
  case True
  then show ?thesis using assms by (auto simp: DATA_def is_250_def split: if_splits)
next
  case False
  obtain e c1 where w: "writeResponse (ce_wr env 0) 354 ''You suddenly realize it is unnaturally quiet'' c = (e, c1)" by fastforce
  note io = writeResponse_io [OF w]
  have r1: "c_reader c1 = c_reader c" using w by (auto simp: writeResponse_def w_write_def Let_def split: option.splits)
  obtain buf err r where rd: "readUntilDot (c_reader c1) (maxDataSize c1) = (buf, err, r)" by (metis prod_cases3)
  define c2 where "c2 = c1\<lparr>c_data := buf, c_reader := r\<rparr>"
  have "io_only c1 (c1\<lparr>c_reader := r\<rparr>)" by (rule io_only_reader [OF readUntilDot_le [OF rd]])
  then have "work_only c (c1\<lparr>c_reader := r\<rparr>)" using io_only_work io_only_trans [OF io] by blast
  have "c2 = c1\<lparr>c_reader := r\<rparr>\<lparr>c_data := buf\<rparr>" by (simp add: c2_def)
  with work_only_trans [OF \<open>work_only c (c1\<lparr>c_reader := r\<rparr>)\<close> work_only_data] have w2: "work_only c c2" by simp
  have m: "mailFrom c2 = mailFrom c" "rcptTo c2 = rcptTo c" "maxDataSize c1 = maxDataSize c"
    using work_only_fields [OF w2] work_only_fields [OF io_only_work [OF io]] by simp_all
  show ?thesis
  proof (cases "e = None \<and> err = None")
    case True
    then have "data_process env c2 sh = (res, c', sh')"
      using assms False w rd by (simp add: DATA_def c2_def)
    from data_process_cases [OF this] show ?thesis
      using False rd True r1 m work_only_trans [OF w2] queue_added_prefix [of env "[]" buf c2 sh sh' c]
      by (auto simp: c2_def)
  next
    case fails: False
    have "io_only c2 (snd (writeResponse wr code msg c2))" for wr code msg by (rule writeResponse_io_snd)
    then have "work_only c (snd (writeResponse wr code msg c2))" for wr code msg
      using io_only_work work_only_trans [OF w2] by blast
    then show ?thesis using assms False w rd fails w2 io_only_work [OF io]
      by (auto simp: DATA_def is_250_def Let_def c2_def split: option.splits dot_error.splits)
  qed
qed

section \<open>The invariant of a connection\<close>

text \<open>
  The history of a connection is the turns it has taken, each with what the outside did and the
  state before it. A recipient was checked if, at one of these turns, it was the normal form of an
  address of a local domain and its user existed; a client has logged in if, at one of them, the
  connection was encrypted and the credentials were right. Neither depends on what the databases
  say later.
\<close>

type_synonym 's history = "('s cmd_env \<times> Conn) set"

definition rcpt_checked :: "'s history \<Rightarrow> string \<Rightarrow> bool" where
  "rcpt_checked hist a \<longleftrightarrow>
     (\<exists>(env, c) \<in> hist. \<exists>a0. DomainIn a0 (localDomains c) \<and> Addr (ce_text env) a0 = (a, None) \<and> localUserExists env c a = Ok True)"

definition logged_in :: "'s history \<Rightarrow> string \<Rightarrow> string \<Rightarrow> bool" where
  "logged_in hist user domain \<longleftrightarrow>
     (\<exists>(env, c) \<in> hist. onTLS c \<and> (\<exists>pw. Authenticate (authr c) user domain pw = Ok True))"

definition conn_ok :: "'s history \<Rightarrow> Conn \<Rightarrow> bool" where
  "conn_ok hist c \<longleftrightarrow>
     (completedAuth c \<longrightarrow> onTLS c \<and> logged_in hist (authUser c) (authDomain c)) \<and>
     (rcptTo c \<noteq> [] \<longrightarrow> mailFrom c \<noteq> []) \<and> length (rcptTo c) \<le> 101 \<and>
     (completedAuth c \<or> (\<forall>a \<in> set (rcptTo c). rcpt_checked hist a)) \<and>
     (mailFrom c \<noteq> [] \<longrightarrow> (IsSubmission (c_mode c) \<longrightarrow> completedAuth c) \<and> spfResult c \<noteq> ''fail'')"

text \<open>What no command changes, and that a client stays logged in.\<close>

definition same_config :: "Conn \<Rightarrow> Conn \<Rightarrow> bool" where
  "same_config c c' \<longleftrightarrow>
     localDomains c' = localDomains c \<and> aliasesR c' = aliasesR c \<and> authr c' = authr c \<and> c_mode c' = c_mode c \<and>
     maxDataSize c' = maxDataSize c \<and> (completedAuth c \<longrightarrow> completedAuth c' \<and> authUser c' = authUser c \<and> authDomain c' = authDomain c)"

lemma same_config_refl [simp]: "same_config c c"
  by (simp add: same_config_def)

lemma same_config_trans: "same_config c c1 \<Longrightarrow> same_config c1 c2 \<Longrightarrow> same_config c c2"
  by (simp add: same_config_def)

lemma rcpt_checked_mono: "rcpt_checked hist a \<Longrightarrow> hist \<subseteq> hist' \<Longrightarrow> rcpt_checked hist' a"
  unfolding rcpt_checked_def by blast

lemma logged_in_mono: "logged_in hist u d \<Longrightarrow> hist \<subseteq> hist' \<Longrightarrow> logged_in hist' u d"
  unfolding logged_in_def by blast

lemma conn_ok_mono: "conn_ok hist c \<Longrightarrow> hist \<subseteq> hist' \<Longrightarrow> conn_ok hist' c"
  unfolding conn_ok_def using rcpt_checked_mono logged_in_mono by blast

lemma work_only_config: "work_only c c' \<Longrightarrow> same_config c c'"
  by (auto simp: work_only_def same_config_def)

lemma conn_ok_work [conn_inv]: "conn_ok hist c \<Longrightarrow> work_only c c' \<Longrightarrow> conn_ok hist c'"
  by (auto simp: work_only_def conn_ok_def)

lemma conn_ok_io [conn_inv]: "conn_ok hist c \<Longrightarrow> io_only c c' \<Longrightarrow> conn_ok hist c'"
  by (auto simp: io_only_def conn_ok_def)

lemma conn_ok_ehlo [conn_inv]:
  "conn_ok hist c \<Longrightarrow> conn_ok hist (c\<lparr>ehloDomain := d\<rparr>)" "conn_ok hist c \<Longrightarrow> conn_ok hist (c\<lparr>ehloDomain := d, isESMTP := b\<rparr>)"
  by (simp_all add: conn_ok_def)

lemma conn_ok_databases [conn_inv]: "conn_ok hist c \<Longrightarrow> conn_ok hist (c\<lparr>authr := a, aliasesR := r\<rparr>)"
  by (simp add: conn_ok_def)

lemma conn_ok_reset [conn_inv]: "conn_ok hist c \<Longrightarrow> conn_ok hist (resetEnvelope c)"
  by (simp add: conn_ok_def resetEnvelope_def)

lemma conn_ok_sender [conn_inv]:
  "conn_ok hist c \<Longrightarrow> (sender \<noteq> [] \<longrightarrow> spf \<noteq> ''fail'') \<Longrightarrow> (IsSubmission (c_mode c) \<longrightarrow> completedAuth c) \<Longrightarrow>
   conn_ok hist ((resetEnvelope c)\<lparr>spfResult := spf, spfError := err, mailFrom := sender\<rparr>)"
  by (simp add: conn_ok_def resetEnvelope_def)

lemma conn_ok_rcpt [conn_inv]:
  assumes "conn_ok hist c" "mailFrom c \<noteq> []" "length (rcptTo c) \<le> 100" "completedAuth c \<or> rcpt_checked hist a"
  shows "conn_ok hist (c\<lparr>rcptTo := rcptTo c @ [a]\<rparr>)"
  using assms by (auto simp: conn_ok_def)

lemma conn_ok_tls [conn_inv]:
  "conn_ok hist c \<Longrightarrow>
   conn_ok hist ((resetEnvelope c)\<lparr>c_reader := r, c_out := out, c_broken := None, tlsConnState := Some ts, onTLS := True, hostname := h\<rparr>)"
  by (simp add: conn_ok_def resetEnvelope_def)

lemma conn_ok_auth [conn_inv]:
  "conn_ok hist c \<Longrightarrow> onTLS c \<Longrightarrow> logged_in hist u d \<Longrightarrow>
   conn_ok hist (c\<lparr>authUser := u, authDomain := d, completedAuth := True\<rparr>)"
  by (auto simp: conn_ok_def)

text \<open>What the connection lets into the queue.\<close>

definition relay_ok :: "'s history \<Rightarrow> Conn \<Rightarrow> Item \<Rightarrow> bool" where
  "relay_ok hist c item \<longleftrightarrow>
     m_From item \<noteq> [] \<and> m_To item \<noteq> [] \<and> length (m_To item) \<le> 101 \<and>
     (completedAuth c \<or> \<not> IsSubmission (c_mode c) \<and> (\<forall>a \<in> set (m_To item). rcpt_checked hist a))"

definition only_adds :: "'s history \<Rightarrow> Conn \<Rightarrow> 's shared \<Rightarrow> 's shared \<Rightarrow> bool" where
  "only_adds hist c sh sh' \<longleftrightarrow>
     queue_kept sh sh' \<or>
     (\<exists>item. relay_ok hist c item \<and> sh_started sh' = sh_started sh @ [item] \<and>
        q_items (sh_queue sh') = AList.update (m_ID item) item (q_items (sh_queue sh)))"

lemma only_adds_kept [simp]: "queue_kept sh sh' \<Longrightarrow> only_adds hist c sh sh'"
  by (simp add: only_adds_def)

lemma queue_kept_dinfo [simp]: "queue_kept sh (sh\<lparr>sh_dinfo := db\<rparr>)"
  by (simp add: queue_kept_def)

lemma q_Put_items:
  "q_Put cd env q sender to data = (Ok key, q', Some item) \<Longrightarrow> q_items q' = AList.update (m_ID item) item (q_items q)"
  by (auto simp: q_Put_def Let_def split: if_splits sum.splits prod.splits option.splits)

lemma DATA_only_adds:
  assumes "conn_ok hist c" "mailFrom c \<noteq> []" "rcptTo c \<noteq> []" "queue_added env buf c sh sh'"
  shows "only_adds hist c sh sh'"
proof -
  from assms(4) obtain p q item where put:
    "q_Put (ce_codec env) (ce_queue env) (sh_queue sh) (mailFrom c) (rcptTo c) (p @ buf) = (Ok (m_ID item), q, Some item)"
    and item: "m_From item = mailFrom c" "m_To item = rcptTo c" "sh' = sh\<lparr>sh_queue := q, sh_started := sh_started sh @ [item]\<rparr>"
    unfolding queue_added_def by blast
  have "relay_ok hist c item" using assms(1-3) item by (auto simp: relay_ok_def conn_ok_def)
  then show ?thesis using q_Put_items [OF put] item by (auto simp: only_adds_def)
qed

definition command_ok :: "'s history \<Rightarrow> Conn \<Rightarrow> 's shared \<Rightarrow> Conn \<Rightarrow> 's shared \<Rightarrow> bool" where
  "command_ok hist c sh c' sh' \<longleftrightarrow> conn_ok hist c' \<and> same_config c c' \<and> only_adds hist c sh sh'"

lemma command_ok_conn: "conn_ok hist c' \<Longrightarrow> same_config c c' \<Longrightarrow> command_ok hist c sh c' sh"
  by (simp add: command_ok_def)

lemma command_ok_io: "conn_ok hist c \<Longrightarrow> io_only c c' \<Longrightarrow> command_ok hist c sh c' sh"
  by (rule command_ok_conn) (auto intro: conn_inv work_only_config io_only_work)

lemma MAIL_ok:
  assumes "conn_ok hist c" "MAIL env params c sh = (res, c', sh')"
  shows "command_ok hist c sh c' sh'"
  using MAIL_cases [OF assms(2)] assms(1) conn_ok_sender [OF assms(1)]
  by (auto simp: command_ok_def same_config_def resetEnvelope_def)

text \<open>The turn of the history in which a command runs has the configuration the command sees.\<close>

lemma RCPT_ok:
  assumes "conn_ok hist c" "RCPT env params c = (res, c')" "(env, c0) \<in> hist" "io_only c0 c"
  shows "command_ok hist c sh c' sh"
proof -
  have "rcpt_checked hist a" if "DomainIn a0 (localDomains c)" "Addr (ce_text env) a0 = (a, None)" "localUserExists env c a = Ok True" for a a0
    using assms(3,4) that unfolding rcpt_checked_def by (intro bexI [of _ "(env, c0)"]) (auto simp: io_only_def localUserExists_def)
  then have "c' = c \<or> (\<exists>a. c' = c\<lparr>rcptTo := rcptTo c @ [a]\<rparr> \<and> mailFrom c \<noteq> [] \<and> length (rcptTo c) \<le> 100 \<and>
      (completedAuth c \<or> rcpt_checked hist a))"
    using RCPT_cases [OF assms(2)] by blast
  then show ?thesis using assms(1) by (auto intro!: command_ok_conn intro: conn_inv simp: same_config_def)
qed

lemma DATA_ok:
  assumes "conn_ok hist c" "DATA env c sh = (res, c', sh')"
  shows "command_ok hist c sh c' sh'"
proof -
  have "work_only c c1 \<Longrightarrow> conn_ok hist (resetEnvelope c1) \<and> same_config c (resetEnvelope c1)" for c1
    using conn_ok_reset [OF conn_ok_work [OF assms(1)]] work_only_config [of c c1]
    by (simp add: same_config_def resetEnvelope_def)
  then show ?thesis unfolding command_ok_def
    using DATA_cases [OF assms(2)] DATA_only_adds [OF assms(1)] conn_ok_work [OF assms(1)] work_only_config
    by (metis only_adds_kept)
qed

lemma STARTTLS_ok:
  assumes "conn_ok hist c" "STARTTLS env c = (res, c')"
  shows "command_ok hist c sh c' sh"
proof (cases "io_only c c'")
  case False
  then obtain r out ts h where "c' = (resetEnvelope c)\<lparr>c_reader := r, c_out := out, c_broken := None, tlsConnState := Some ts, onTLS := True, hostname := h\<rparr>"
    using STARTTLS_cases [OF assms(2)] by blast
  then show ?thesis using conn_ok_tls [OF assms(1)] by (intro command_ok_conn) (simp_all add: same_config_def resetEnvelope_def)
qed (rule command_ok_io [OF assms(1)])

lemma AUTH_ok:
  assumes "conn_ok hist c" "AUTH env params c = (res, c')" "(env, c0) \<in> hist" "io_only c0 c"
  shows "command_ok hist c sh c' sh"
proof (cases "io_only c c'")
  case True
  then show ?thesis by (rule command_ok_io [OF assms(1)])
next
  case False
  then obtain c1 u d p where a: "onTLS c" "\<not> completedAuth c" "io_only c c1" "Authenticate (authr c) u d p = Ok True"
      "c' = c1\<lparr>authUser := u, authDomain := d, completedAuth := True\<rparr>"
    using AUTH_cases [OF assms(2)] by blast
  have "logged_in hist u d"
    using assms(3,4) a(1,4) unfolding logged_in_def by (intro bexI [of _ "(env, c0)"]) (auto simp: io_only_def)
  moreover have "onTLS c1" using a by (auto simp: io_only_def)
  ultimately have "conn_ok hist c'" using conn_ok_auth [OF conn_ok_io [OF assms(1) a(3)]] a by simp
  moreover have "same_config c c'" using work_only_config [OF io_only_work [OF a(3)]] a(2,5) by (simp add: same_config_def)
  ultimately show ?thesis by (rule command_ok_conn)
qed

lemma run_command_ok:
  assumes "conn_ok hist c" "run_command env verb params c sh = (res, c', sh')" "(env, c0) \<in> hist" "io_only c0 c"
  shows "command_ok hist c sh c' sh'"
proof -
  have same: "command_ok hist c sh c sh" using assms(1) by (simp add: command_ok_def)
  have ehlo: "command_ok hist c sh (c\<lparr>ehloDomain := d\<rparr>) sh" "command_ok hist c sh (c\<lparr>ehloDomain := d, isESMTP := b\<rparr>) sh" for d b
    using assms(1) by (auto intro!: command_ok_conn intro: conn_inv simp: same_config_def)
  have reset: "command_ok hist c sh (resetEnvelope c) sh"
    using assms(1) by (auto intro!: command_ok_conn intro: conn_inv simp: same_config_def resetEnvelope_def)
  consider "verb = ''HELO''" | "verb = ''EHLO''" | "verb = ''RSET''" | "verb = ''MAIL''" | "verb = ''RCPT''" | "verb = ''DATA''"
    | "verb = ''STARTTLS''" | "verb = ''AUTH''"
    | "verb \<noteq> ''HELO''" "verb \<noteq> ''EHLO''" "verb \<noteq> ''RSET''" "verb \<noteq> ''MAIL''" "verb \<noteq> ''RCPT''" "verb \<noteq> ''DATA''"
      "verb \<noteq> ''STARTTLS''" "verb \<noteq> ''AUTH''" by argo
  then show ?thesis
  proof cases
    case 1
    then show ?thesis using assms(2) same ehlo(1) by (auto simp: run_command_def HELO_def split: if_splits)
  next
    case 2
    then show ?thesis using assms(2) same ehlo(2) by (auto simp: run_command_def EHLO_def split: if_splits)
  next
    case 3
    then show ?thesis using assms(2) reset by (simp add: run_command_def RSET_def)
  next
    case 4
    then show ?thesis using assms(2) by (intro MAIL_ok [OF assms(1)]) (simp add: run_command_def)
  next
    case 5
    then have "RCPT env params c = (res, c')" "sh' = sh" using assms(2) by (simp_all add: run_command_def split: prod.splits)
    then show ?thesis using RCPT_ok [OF assms(1) _ assms(3,4)] by simp
  next
    case 6
    then show ?thesis using assms(2) by (intro DATA_ok [OF assms(1)]) (simp add: run_command_def)
  next
    case 7
    then have "STARTTLS env c = (res, c')" "sh' = sh" using assms(2) by (simp_all add: run_command_def split: prod.splits)
    then show ?thesis using STARTTLS_ok [OF assms(1)] by simp
  next
    case 8
    then have "AUTH env params c = (res, c')" "sh' = sh" using assms(2) by (simp_all add: run_command_def split: prod.splits)
    then show ?thesis using AUTH_ok [OF assms(1) _ assms(3,4)] by simp
  next
    case 9
    then have "c' = c \<and> sh' = sh" using assms(2) unfolding run_command_def by (metis Pair_inject)
    then show ?thesis using same by simp
  qed
qed

lemma relay_ok_io: "io_only c c' \<Longrightarrow> relay_ok hist c' item = relay_ok hist c item"
  by (auto simp: io_only_def relay_ok_def)

lemma command_ok_around:
  assumes "io_only c c0" "command_ok hist c0 sh c1 sh'" "io_only c1 c'"
  shows "command_ok hist c sh c' sh'"
proof -
  have "same_config c c'"
    using assms same_config_trans work_only_config [OF io_only_work] by (metis command_ok_def)
  moreover have "only_adds hist c sh sh'"
    using assms(2) relay_ok_io [OF assms(1)] by (auto simp: command_ok_def only_adds_def)
  moreover have "conn_ok hist c'" using assms(2,3) by (auto simp: command_ok_def intro: conn_inv)
  ultimately show ?thesis by (simp add: command_ok_def)
qed

text \<open>Every turn: what was read, the command if there was one, and what was written.\<close>

lemma handle_turn_cases:
  assumes "handle_turn env n c sh = (e, n', c', sh')"
  obtains (idle) "io_only c c'" "sh' = sh" "e = Some Closed" "n' = n"
  | (command) verb params r c1 res where
      "readCommand (tl_unicode (ce_text env)) (c_reader c) = (Ok (verb, params), r)"
      "run_command env verb params (c\<lparr>c_reader := r\<rparr>) sh = (res, c1, sh')" "io_only c1 c'"
      "n' \<le> Suc n" "e = None \<longrightarrow> n' < 3 \<or> n' = n"
proof (cases "0 < ce_now env - c_deadline c")
  case True
  then show ?thesis using assms by (intro idle) (auto simp: handle_turn_def)
next
  case False
  obtain res r where rd: "readCommand (tl_unicode (ce_text env)) (c_reader c) = (res, r)" by fastforce
  have io: "io_only c (c\<lparr>c_reader := r\<rparr>)" by (rule io_only_reader [OF readCommand_le [OF rd]])
  show ?thesis
  proof (cases res)
    case (Inl er)
    then show ?thesis using assms False rd io_only_trans [OF io printfLine_io] by (intro idle) (auto simp: handle_turn_def)
  next
    case (Inr vp)
    obtain verb params where vp: "vp = (verb, params)" by fastforce
    show ?thesis
    proof (cases "verb \<in> {''QUIT'', ''GET'', ''POST'', ''CONNECT''}")
      case True
      then show ?thesis using assms False rd Inr vp io_only_trans [OF io writeResponse_io_snd]
        by (intro idle) (auto simp: handle_turn_def Let_def)
    next
      case verb: False
      obtain out c1 sh1 where rc: "run_command env verb params (c\<lparr>c_reader := r\<rparr>) sh = (out, c1, sh1)" by (metis prod_cases3)
      have "io_only c1 c' \<and> sh1 = sh' \<and> n' \<le> Suc n \<and> (e = None \<longrightarrow> n' < 3 \<or> n' = n)"
        using assms False rd Inr vp verb rc writeResponse_io writeResponse_io_snd
        by (cases out) (auto simp: handle_turn_def Let_def split: if_splits prod.splits option.splits)
      then show ?thesis using rd Inr vp rc by (intro command) auto
    qed
  qed
qed

lemma handle_turn_ok:
  assumes "conn_ok hist c" "handle_turn env n c sh = (e, n', c', sh')" "(env, c) \<in> hist"
  shows "command_ok hist c sh c' sh'"
  using assms(2)
proof (cases rule: handle_turn_cases)
  case idle
  then show ?thesis using command_ok_io [OF assms(1)] by simp
next
  case (command verb params r c1 res)
  have io: "io_only c (c\<lparr>c_reader := r\<rparr>)" by (rule io_only_reader [OF readCommand_le [OF command(1)]])
  have "command_ok hist (c\<lparr>c_reader := r\<rparr>) sh c1 sh'"
    by (rule run_command_ok [OF conn_ok_io [OF assms(1) io] command(2) assms(3) io])
  then show ?thesis by (rule command_ok_around [OF io _ command(3)])
qed

section \<open>The loop ends\<close>

text \<open>A command never gives input back, unless it starts TLS, which it does once.\<close>

definition advances :: "Conn \<Rightarrow> Conn \<Rightarrow> bool" where
  "advances c c' \<longleftrightarrow>
     onTLS c' = onTLS c \<and> length (r_bytes (c_reader c')) \<le> length (r_bytes (c_reader c)) \<or> \<not> onTLS c \<and> onTLS c'"

lemma work_only_advances: "work_only c c' \<Longrightarrow> advances c c'"
  by (auto simp: work_only_def advances_def)

lemma run_command_advances:
  assumes "run_command env verb params c sh = (res, c', sh')"
  shows "advances c c'"
proof -
  have same: "advances c c" by (simp add: work_only_advances)
  have reset: "advances c (resetEnvelope c1)" if "work_only c c1" for c1
    using work_only_advances [OF that] by (simp add: advances_def resetEnvelope_def)
  have "advances c c'" if "MAIL env params c sh = (res, c', sh')"
    using MAIL_cases [OF that] by (auto simp: advances_def resetEnvelope_def)
  moreover have "advances c c'" if "RCPT env params c = (res, c')"
    using RCPT_cases [OF that] by (auto simp: advances_def)
  moreover have "advances c c'" if "DATA env c sh = (res, c', sh')"
    using DATA_cases [OF that] work_only_advances reset by blast
  moreover have "advances c c'" if "STARTTLS env c = (res, c')"
    using STARTTLS_cases [OF that] work_only_advances [OF io_only_work] by (auto simp: advances_def)
  moreover have "advances c c'" if "AUTH env params c = (res, c')"
    using AUTH_cases [OF that] work_only_advances [OF io_only_work] by (auto simp: advances_def io_only_def)
  moreover have "advances c c'" if "HELO env params c = (res, c') \<or> EHLO params c = (res, c')"
    using that same by (auto simp: HELO_def EHLO_def advances_def split: if_splits)
  moreover have "advances c c'" if "RSET env c = (res, c')"
    using that reset [OF work_only_refl] by (simp add: RSET_def)
  ultimately show ?thesis using assms same unfolding run_command_def Let_def
    by (simp split: if_splits prod.splits)
qed

lemma handle_turn_decreases:
  assumes "handle_turn env n c sh = (None, n', c', sh')"
  shows "((if onTLS c' then 0 else Suc 0, length (r_bytes (c_reader c'))), (if onTLS c then 0 else Suc 0, length (r_bytes (c_reader c))))
    \<in> less_than <*lex*> less_than"
  using assms
proof (cases rule: handle_turn_cases)
  case (command verb params r c1 res)
  have "advances (c\<lparr>c_reader := r\<rparr>) c1" by (rule run_command_advances [OF command(2)])
  moreover have "advances c1 c'" "onTLS c' = onTLS c1"
    using work_only_advances [OF io_only_work [OF command(3)]] command(3) by (auto simp: io_only_def)
  ultimately show ?thesis using readCommand_less [OF command(1)] by (auto simp: advances_def)
qed simp

lemma handle_turn_count:
  "handle_turn env n c sh = (e, n', c', sh') \<Longrightarrow> n < 3 \<Longrightarrow> n' \<le> 3 \<and> (e = None \<longrightarrow> n' < 3)"
  by (erule handle_turn_cases) auto

lemma handle_loop_ends: "n < 3 \<Longrightarrow> \<exists>e n' c' sh'. handle_loop envs i n c sh = Some (e, n', c', sh') \<and> n' \<le> 3"
proof (induction "(if onTLS c then 0 else Suc 0, length (r_bytes (c_reader c)))" arbitrary: i n c sh
    rule: wf_induct_rule [OF wf_lex_prod [OF wf_less_than wf_less_than]])
  case 1
  obtain e n1 c1 sh1 where t: "handle_turn (envs i) n c sh = (e, n1, c1, sh1)" by (metis prod_cases4)
  note count = handle_turn_count [OF t \<open>n < 3\<close>]
  show ?case
  proof (cases e)
    case None
    then show ?thesis using "1.hyps" [OF handle_turn_decreases [OF t [unfolded None]]] count t
      by (simp add: handle_loop.simps [of envs i])
  next
    case (Some x)
    then show ?thesis using count t by (simp add: handle_loop.simps [of envs i])
  qed
qed


section \<open>Accepting a message\<close>

text \<open>
  C2. \<open>DATA\<close> answers 250 exactly when it put an item in the queue. The item is then on disk and reads
  back from there, its sender and recipients are those of the envelope, and its data ends with the
  message as it was read up to the final dot; the envelope is empty again. With any other outcome
  the queue has the same items and the envelope is kept.
\<close>

theorem DATA_accepts:
  assumes "codec_ok (ce_codec env)" "DATA env c sh = (res, c', sh')"
  shows "case res of
      Reply code _ \<Rightarrow>
        if code = 250 then
          ehloDomain c \<noteq> [] \<and> mailFrom c' = [] \<and> rcptTo c' = [] \<and>
          (\<exists>buf r item p. readUntilDot (c_reader c) (maxDataSize c) = (buf, None, r) \<and>
             sh_started sh' = sh_started sh @ [item] \<and>
             map_of (q_items (sh_queue sh')) (m_ID item) = Some item \<and>
             ItemFromFile (ce_codec env) (q_disk (sh_queue sh')) (item_path (q_path (sh_queue sh)) (m_ID item)) = Ok item \<and>
             m_From item = mailFrom c \<and> m_To item = rcptTo c \<and> m_To item \<noteq> [] \<and> m_Data item = p @ buf)
        else sh_started sh' = sh_started sh \<and> q_items (sh_queue sh') = q_items (sh_queue sh) \<and>
             mailFrom c' = mailFrom c \<and> rcptTo c' = rcptTo c
    | Crash \<Rightarrow> sh_started sh' = sh_started sh \<and> q_items (sh_queue sh') = q_items (sh_queue sh)"
proof (cases "is_250 res")
  case True
  then obtain buf r c1 where d: "ehloDomain c \<noteq> []" "rcptTo c \<noteq> []" "c' = resetEnvelope c1"
      "readUntilDot (c_reader c) (maxDataSize c) = (buf, None, r)" "queue_added env buf c sh sh'"
    using DATA_cases [OF assms(2)] by blast
  then obtain p q item where put:
    "q_Put (ce_codec env) (ce_queue env) (sh_queue sh) (mailFrom c) (rcptTo c) (p @ buf) = (Ok (m_ID item), q, Some item)"
    and item: "m_From item = mailFrom c" "m_To item = rcptTo c" "m_Data item = p @ buf"
      "sh' = sh\<lparr>sh_queue := q, sh_started := sh_started sh @ [item]\<rparr>"
    unfolding queue_added_def by blast
  have "map_of (q_items q) (m_ID item) = Some item \<and>
      ItemFromFile (ce_codec env) (q_disk q) (item_path (q_path (sh_queue sh)) (m_ID item)) = Ok item"
    using q_Put_outcome_aux [OF assms(1) put] by auto
  then show ?thesis using True d item by (auto simp: is_250_def resetEnvelope_def split: outcome.splits)
next
  case False
  then show ?thesis using DATA_cases [OF assms(2)] work_only_fields [of c c']
    by (auto simp: is_250_def queue_kept_def split: outcome.splits)
qed

section \<open>Starting TLS\<close>


section \<open>Examples\<close>

definition ex_cmd :: "unit cmd_env" where
  "ex_cmd =
     \<lparr>ce_now = 0, ce_text = ascii_text, ce_rand = 0, ce_wr = (\<lambda>_. \<lparr>wr_mid = None, wr_flush = None\<rparr>), ce_scan_err = [],
      ce_ParseAddress = (\<lambda>a. Ok (filter (\<lambda>ch. ch \<notin> {CHR ''<'', CHR ''>''}) a)), ce_spf = (\<lambda>_ _ _. ([], None)), ce_spf_off = False,
      ce_levels = (\<lambda>s _ _. (None, s)), ce_hook = (\<lambda>_. HookNotExist), ce_alias_text = (\<lambda>_. []),
      ce_handshake = Ok (\<lparr>r_bytes = ''EHLO c'' @ [CR, LF], r_end = EOF\<rparr>, \<lparr>ts_ServerName = [], ts_CipherSuite = 0, ts_Version = 0\<rparr>),
      ce_ReadMessage = (\<lambda>_. Ok 0), ce_maxReceived = 50, ce_dkim = ex_dkim, ce_sign = (\<lambda>_ _. Ok []), ce_unix = 0, ce_date = ''now'',
      ce_dkim_text = (\<lambda>_. []), ce_post_missing = True, ce_post = (\<lambda>_ _ _. PostOK []), ce_getenv = (\<lambda>_. []),
      ce_codec = ex_msg_codec (message_of ex_put_item), ce_queue = ex_put\<rparr>"

definition ex_conn :: Conn where
  "ex_conn =
     \<lparr>hostname = ''h'', maxDataSize = 1000, postDataHook = ''hook'', c_mode = \<lparr>IsSubmission = False, mode_TLS = False\<rparr>,
      tlsConnState = None, remoteAddr = OtherAddr ''r'', c_reader = \<lparr>r_bytes = [], r_end = EOF\<rparr>, c_out = [], c_broken = None,
      ehloDomain = [], mailFrom = [], rcptTo = [], c_data = [], spfResult = [], spfError = None, dkimVerifyResult = None,
      onTLS = False, isESMTP = False, authr = NewAuthenticator, localDomains = None, aliasesR = NewResolver (\<lambda>_ _. Ok True),
      dkimSigners = [], completedAuth = False, authUser = [], authDomain = [], c_deadline = 100, haproxyEnabled = False\<rparr>"

definition ex_shared :: "unit shared" where
  "ex_shared = \<lparr>sh_dinfo = \<lparr>di_store = (), di_info = []\<rparr>, sh_queue = ex_queue, sh_started = []\<rparr>"


definition ex_data_conn :: Conn where
  "ex_data_conn =
     ex_conn\<lparr>ehloDomain := ''c'', mailFrom := ''<>'', rcptTo := [''a@d''], onTLS := True, completedAuth := True,
       c_reader := \<lparr>r_bytes = ''x'' @ [CR, LF] @ ''.'' @ [CR, LF], r_end = EOF\<rparr>\<rparr>"

definition ex_read_conn :: Conn where
  "ex_read_conn =
     ex_data_conn\<lparr>c_out := [response_text 354 ''You suddenly realize it is unnaturally quiet''], c_data := ''x'' @ [LF],
       c_reader := \<lparr>r_bytes = [], r_end = EOF\<rparr>\<rparr>"

definition ex_message :: string where
  "ex_message = c_data (addReceivedHeader ex_cmd ex_read_conn)"

definition ex_data_cmd :: "unit cmd_env" where
  "ex_data_cmd = ex_cmd\<lparr>ce_codec := ex_msg_codec (message_of (ex_dsn_item ex_message))\<rparr>"

lemma ex_data_cmd_fields:
  "ce_codec ex_data_cmd = ex_msg_codec (message_of (ex_dsn_item ex_message))" "ce_queue ex_data_cmd = ex_put"
  "ce_post_missing ex_data_cmd" "checkData ex_data_cmd d = None"
  by (simp_all add: ex_data_cmd_def ex_cmd_def checkData_def)

lemma addReceivedHeader_codec: "addReceivedHeader ex_data_cmd c = addReceivedHeader ex_cmd c"
  by (simp add: ex_data_cmd_def addReceivedHeader_def received_header_def cong: option.case_cong)

lemma ex_DATA: "\<exists>c' sh' t. DATA ex_data_cmd ex_data_conn ex_shared = (Reply 250 t, c', sh') \<and> sh_started sh' = [ex_dsn_item ex_message]"
proof -
  have w: "writeResponse (ce_wr ex_data_cmd 0) 354 ''You suddenly realize it is unnaturally quiet'' ex_data_conn
      = (None, ex_data_conn\<lparr>c_out := [response_text 354 ''You suddenly realize it is unnaturally quiet'']\<rparr>)"
    by (simp add: writeResponse_def w_write_def ex_data_cmd_def ex_cmd_def ex_data_conn_def ex_conn_def Let_def)
  have r: "readUntilDot \<lparr>r_bytes = ''x'' @ [CR, LF] @ ''.'' @ [CR, LF], r_end = EOF\<rparr> 1000
      = (''x'' @ [LF], None, \<lparr>r_bytes = [], r_end = EOF\<rparr>)"
    using readUntilDot_wire [of "[''x'']" 1000 "[]" EOF] by (simp add: wire_line_def plain_byte_def wire_def unwire_def unstuff_def)
  have d: "DATA ex_data_cmd ex_data_conn ex_shared = data_process ex_data_cmd ex_read_conn ex_shared"
    using w r by (simp add: DATA_def ex_read_conn_def) (simp add: ex_data_conn_def ex_conn_def)
  obtain p where p: "addReceivedHeader ex_cmd ex_read_conn = ex_read_conn\<lparr>c_data := p\<rparr>" using addReceivedHeader_suffix by metis
  have s: "dkimSign ex_data_cmd ex_read_conn = (Ok (), ex_read_conn)" "completedAuth ex_read_conn"
    "mailFrom ex_read_conn = ''<>''" "rcptTo ex_read_conn = [''a@d'']"
    by (simp_all add: dkimSign_def ex_read_conn_def ex_data_conn_def ex_conn_def)
  obtain q' where q: "q_Put (ex_msg_codec (message_of (ex_dsn_item p))) ex_put ex_queue ''<>'' [''a@d''] p
     = (Ok ''k'', q', Some (ex_dsn_item p))" using ex_dsn_put by blast
  have m: "ex_message = p" by (simp add: ex_message_def p)
  show ?thesis unfolding d
    using s q m p by (simp add: data_process_def ex_data_cmd_fields addReceivedHeader_codec data_queue_def runPostDataHook_def Let_def ex_shared_def)
qed

theorem DATA_accepts_witness:
  "\<exists>c' sh' t item. DATA ex_data_cmd ex_data_conn ex_shared = (Reply 250 t, c', sh') \<and> sh_started sh' = [item] \<and>
     ItemFromFile (ce_codec ex_data_cmd) (q_disk (sh_queue sh')) (item_path ''q'' (m_ID item)) = Ok item \<and> m_To item = [''a@d'']"
proof -
  obtain c' sh' t where d: "DATA ex_data_cmd ex_data_conn ex_shared = (Reply 250 t, c', sh')" using ex_DATA by blast
  have cd: "codec_ok (ce_codec ex_data_cmd)" by (simp add: ex_data_cmd_fields ex_msg_codec_ok)
  have f: "sh_started ex_shared = []" "q_path (sh_queue ex_shared) = ''q''" "rcptTo ex_data_conn = [''a@d'']"
    by (simp_all add: ex_shared_def ex_queue_fields ex_data_conn_def)
  from DATA_accepts [OF cd d] d f show ?thesis by auto
qed

end
