(* ===== verification/Userdb.thy ===== *)
theory Userdb
  imports Auth Protoio
begin

text \<open>
  \<open>src/internal/userdb/userdb.go\<close>: the database of the users of a domain and of their passwords.
  The key derivation \<open>scrypt.Key\<close> is a parameter, and so is the source of random salts. A
  derivation that fails while a password is checked is a panic of the server.
\<close>

record Scrypt =
  LogN :: nat
  sc_R :: int
  sc_P :: int
  KeyLen :: int
  Salt :: string
  Encrypted :: string

datatype Password = NoScheme | Password_Scrypt Scrypt | Password_Plain string | Password_Denied

record userdb =
  ud_fname :: string
  Users :: "(string \<times> Password) list"

text \<open>Arguments of the derivation: password, salt, N, r, p and the length of the key.\<close>

type_synonym kdf = "string \<Rightarrow> string \<Rightarrow> int \<Rightarrow> int \<Rightarrow> int \<Rightarrow> int \<Rightarrow> (string, string) result"

text \<open>\<open>1 << n\<close> in a 64-bit \<open>int\<close>.\<close>

definition shl1 :: "nat \<Rightarrow> int" where
  "shl1 n = (if n < 63 then 2 ^ n else if n = 63 then - (2 ^ 63) else 0)"

definition scrypt_key :: "kdf \<Rightarrow> Scrypt \<Rightarrow> string \<Rightarrow> (string, string) result" where
  "scrypt_key kdf s plain = kdf plain (Salt s) (shl1 (LogN s)) (sc_R s) (sc_P s) (KeyLen s)"

definition Scrypt_PasswordMatches :: "kdf \<Rightarrow> Scrypt \<Rightarrow> string \<Rightarrow> (auth_error, bool) result" where
  "Scrypt_PasswordMatches kdf s plain =
     (case scrypt_key kdf s plain of
        Inl e \<Rightarrow> Err (AuthPanic (''scrypt failed: '' @ e))
      | Inr dk \<Rightarrow> Ok (dk = Encrypted s))"

definition PasswordMatches :: "kdf \<Rightarrow> Password \<Rightarrow> string \<Rightarrow> (auth_error, bool) result" where
  "PasswordMatches kdf p plain =
     (case p of
        NoScheme \<Rightarrow> Ok False
      | Password_Scrypt s \<Rightarrow> Scrypt_PasswordMatches kdf s plain
      | Password_Plain pw \<Rightarrow> Ok (plain = pw)
      | Password_Denied \<Rightarrow> Ok False)"

definition ud_Authenticate :: "kdf \<Rightarrow> userdb \<Rightarrow> string \<Rightarrow> string \<Rightarrow> (auth_error, bool) result" where
  "ud_Authenticate kdf db name plain =
     (case map_of (Users db) name of
        None \<Rightarrow> Ok False
      | Some passwd \<Rightarrow> PasswordMatches kdf passwd plain)"

definition ud_Exists :: "userdb \<Rightarrow> string \<Rightarrow> bool" where
  "ud_Exists db name \<longleftrightarrow> map_of (Users db) name \<noteq> None"

definition ud_Len :: "userdb \<Rightarrow> nat" where
  "ud_Len db = length (Users db)"

text \<open>Only a normalized name may be added. The salt comes from the random source.\<close>

definition name_ok :: "textlib \<Rightarrow> string \<Rightarrow> bool" where
  "name_ok tx name \<longleftrightarrow> (case User tx name of (n, err) \<Rightarrow> err = None \<and> name = n)"

definition AddUser ::
  "textlib \<Rightarrow> kdf \<Rightarrow> (string, string) result \<Rightarrow> userdb \<Rightarrow> string \<Rightarrow> string \<Rightarrow> userdb \<times> string option" where
  "AddUser tx kdf rand db name plain =
     (if \<not> name_ok tx name then (db, Some ''invalid username'')
      else case rand of
          Inl e \<Rightarrow> (db, Some (''failed to get salt - '' @ e))
        | Inr salt \<Rightarrow>
            if length salt \<noteq> 16 then (db, Some ''failed to get salt'')
            else
              (let s = \<lparr>LogN = 14, sc_R = 8, sc_P = 1, KeyLen = 32, Salt = salt, Encrypted = []\<rparr> in
               case scrypt_key kdf s plain of
                 Inl e \<Rightarrow> (db, Some (''scrypt failed: '' @ e))
               | Inr key \<Rightarrow>
                   (db\<lparr>Users := AList.update name (Password_Scrypt (s\<lparr>Encrypted := key\<rparr>)) (Users db)\<rparr>, None)))"

definition AddDeniedUser :: "textlib \<Rightarrow> userdb \<Rightarrow> string \<Rightarrow> userdb \<times> string option" where
  "AddDeniedUser tx db name =
     (if \<not> name_ok tx name then (db, Some ''invalid username'')
      else (db\<lparr>Users := AList.update name Password_Denied (Users db)\<rparr>, None))"

definition RemoveUser :: "userdb \<Rightarrow> string \<Rightarrow> userdb \<times> bool" where
  "RemoveUser db name =
     (db\<lparr>Users := AList.delete name (Users db)\<rparr>, map_of (Users db) name \<noteq> None)"

text \<open>Loading and writing; the message of the file is the map of the users.\<close>

definition ud_New :: "string \<Rightarrow> userdb" where
  "ud_New fname = \<lparr>ud_fname = fname, Users = []\<rparr>"

definition ud_Load :: "(string \<times> Password) list codec \<Rightarrow> file_system \<Rightarrow> string \<Rightarrow> userdb \<times> string option" where
  "ud_Load cd fs fname =
     (case ReadTextMessage cd fs fname of
        Inl IsNotExist \<Rightarrow> (ud_New fname, None)
      | Inl (ReadErr e) \<Rightarrow> (ud_New fname, Some e)
      | Inr us \<Rightarrow> ((ud_New fname)\<lparr>Users := us\<rparr>, None))"

definition ud_Reload :: "(string \<times> Password) list codec \<Rightarrow> file_system \<Rightarrow> userdb \<Rightarrow> userdb \<times> string option" where
  "ud_Reload cd fs db =
     (case ud_Load cd fs (ud_fname db) of
        (newdb, Some e) \<Rightarrow> (db, Some e)
      | (newdb, None) \<Rightarrow> (db\<lparr>Users := Users newdb\<rparr>, None))"

definition ud_Write ::
  "(string \<times> Password) list codec \<Rightarrow> write_env \<Rightarrow> file_system \<Rightarrow> userdb \<Rightarrow> string option \<times> file_system list" where
  "ud_Write cd env fs db = WriteTextMessage cd env fs (ud_fname db) (Users db) 432 []"

section \<open>The database as a backend\<close>

definition userdb_backend :: "kdf \<Rightarrow> userdb \<Rightarrow> Backend" where
  "userdb_backend kdf db =
     \<lparr>be_Authenticate = ud_Authenticate kdf db, be_Exists = (\<lambda>u. Ok (ud_Exists db u)), be_Reload = None\<rparr>"

lemma ud_Authenticate_Exists: "ud_Authenticate kdf db u p = Ok True \<Longrightarrow> ud_Exists db u"
  by (auto simp: ud_Authenticate_def ud_Exists_def split: option.splits)

interpretation userdb: auth_backend "userdb_backend kdf db" for kdf db
  by unfold_locales (auto simp: userdb_backend_def ud_Authenticate_Exists)

section \<open>What the operations do\<close>

lemma ud_Write_Load:
  assumes "codec_ok cd" "ud_Write cd env fs db = (None, tr)"
  shows "ud_Load cd (last tr) (ud_fname db) = (db, None)"
proof -
  obtain out where out: "marshal cd (Users db) = Ok out" "WriteFile env fs (ud_fname db) out 432 [] = (None, tr)"
    using assms(2) by (auto simp: ud_Write_def WriteTextMessage_def split: sum.splits)
  then obtain f where f: "map_of (last tr) (ud_fname db) = Some f" "f_data f = out" using WriteFile_last(1) [of "[]"] by fastforce
  have "unmarshal cd out = Ok (Users db)" using assms(1) out(1) by (simp add: codec_ok_def)
  then show ?thesis using f by (cases db) (simp add: ud_Load_def ReadTextMessage_def ud_New_def)
qed

lemma AddUser_authenticates:
  assumes "AddUser tx kdf rand db name plain = (db', None)"
  shows "ud_Authenticate kdf db' name plain = Ok True" "ud_fname db' = ud_fname db"
    "u \<noteq> name \<Longrightarrow> map_of (Users db') u = map_of (Users db) u"
  using assms by (auto simp: AddUser_def ud_Authenticate_def PasswordMatches_def Scrypt_PasswordMatches_def scrypt_key_def Let_def update_conv'
      split: if_splits sum.splits)

text \<open>
  C35. Adding a user makes exactly the passwords with the same derived key authenticate, and the
  given password is one of them; other users are unaffected. A removed user does not exist
  and cannot authenticate; a denied user exists but cannot authenticate with any password.
  Names that are not normalized are refused, so no two spellings of a user are two users.
\<close>

theorem userdb_correct:
  assumes "AddUser tx kdf rand db name plain = (db', None)"
  shows "(\<exists>n. User tx name = (n, None) \<and> n = name) \<and>
    ud_Authenticate kdf db' name plain = Ok True \<and> ud_Exists db' name \<and>
    (\<forall>pw. ud_Authenticate kdf db' name pw = Ok True \<longleftrightarrow>
       (\<exists>s. scrypt_key kdf s pw = scrypt_key kdf s plain \<and> is_ok (scrypt_key kdf s pw) \<and>
            LogN s = 14 \<and> sc_R s = 8 \<and> sc_P s = 1 \<and> KeyLen s = 32 \<and> rand = Ok (Salt s))) \<and>
    (\<forall>u pw. u \<noteq> name \<longrightarrow> ud_Authenticate kdf db' u pw = ud_Authenticate kdf db u pw \<and>
                         ud_Exists db' u = ud_Exists db u) \<and>
    (\<forall>pw. ud_Authenticate kdf (fst (RemoveUser db' name)) name pw = Ok False) \<and>
    \<not> ud_Exists (fst (RemoveUser db' name)) name \<and>
    (\<forall>pw. ud_Authenticate kdf (fst (AddDeniedUser tx db' name)) name pw = Ok False) \<and>
    ud_Exists (fst (AddDeniedUser tx db' name)) name"
proof -
  obtain salt key where salt: "rand = Ok salt" "length salt = 16" and nm: "name_ok tx name"
    and key: "kdf plain salt (2 ^ 14) 8 1 32 = Ok key"
    and db': "db' = db\<lparr>Users := AList.update name (Password_Scrypt \<lparr>LogN = 14, sc_R = 8, sc_P = 1, KeyLen = 32,
               Salt = salt, Encrypted = key\<rparr>) (Users db)\<rparr>"
    using assms by (auto simp: AddUser_def Let_def scrypt_key_def shl1_def split: if_splits sum.splits)
  have auth: "ud_Authenticate kdf db' name pw = Ok True \<longleftrightarrow> kdf pw salt (2 ^ 14) 8 1 32 = Ok key" for pw
    by (auto simp: ud_Authenticate_def db' update_conv' PasswordMatches_def Scrypt_PasswordMatches_def
        scrypt_key_def shl1_def split: sum.splits)
  have same: "(\<exists>s. scrypt_key kdf s pw = scrypt_key kdf s plain \<and> is_ok (scrypt_key kdf s pw) \<and>
            LogN s = 14 \<and> sc_R s = 8 \<and> sc_P s = 1 \<and> KeyLen s = 32 \<and> rand = Ok (Salt s))
          \<longleftrightarrow> kdf pw salt (2 ^ 14) 8 1 32 = Ok key" (is "?L \<longleftrightarrow> ?R") for pw
  proof
    assume ?R
    then show ?L
      using salt key
      by (intro exI [of _ "\<lparr>LogN = 14, sc_R = 8, sc_P = 1, KeyLen = 32, Salt = salt, Encrypted = key\<rparr>"])
        (simp add: scrypt_key_def shl1_def)
  qed (use salt key in \<open>auto simp: scrypt_key_def shl1_def\<close>)
  have other: "u \<noteq> name \<Longrightarrow> ud_Authenticate kdf db' u pw = ud_Authenticate kdf db u pw \<and> ud_Exists db' u = ud_Exists db u" for u pw
    by (simp add: db' ud_Authenticate_def ud_Exists_def update_conv')
  have rem: "ud_Authenticate kdf (fst (RemoveUser db' name)) name pw = Ok False"
    "\<not> ud_Exists (fst (RemoveUser db' name)) name" for pw
    by (simp_all add: RemoveUser_def ud_Authenticate_def ud_Exists_def delete_conv')
  have den: "ud_Authenticate kdf (fst (AddDeniedUser tx db' name)) name pw = Ok False"
    "ud_Exists (fst (AddDeniedUser tx db' name)) name" for pw
    using nm by (simp_all add: AddDeniedUser_def ud_Authenticate_def ud_Exists_def update_conv' PasswordMatches_def)
  have "\<exists>n. User tx name = (n, None) \<and> n = name" using nm by (auto simp: name_ok_def split: prod.splits)
  moreover have "ud_Exists db' name" by (simp add: db' ud_Exists_def update_conv')
  ultimately show ?thesis using auth key same other rem den by simp
qed

definition ex_kdf :: kdf where
  "ex_kdf pw salt n r p len = Ok (pw @ salt)"

lemma userdb_correct_witness:
  "let db = fst (AddUser ascii_text ex_kdf (Ok (replicate 16 NUL)) (ud_New ''f'') ''ana'' ''pw'')
   in ud_Authenticate ex_kdf db ''ana'' ''pw'' = Ok True \<and>
      ud_Authenticate ex_kdf (fst (RemoveUser db ''ana'')) ''ana'' ''pw'' = Ok False"
proof -
  let ?r = "AddUser ascii_text ex_kdf (Ok (replicate 16 NUL)) (ud_New ''f'') ''ana'' ''pw''"
  have "snd ?r = None"
    by (simp add: AddUser_def name_ok_def go_eval scrypt_key_def ex_kdf_def Let_def)
  then obtain db where r: "?r = (db, None)" by (cases ?r) simp
  from userdb_correct [OF r] show ?thesis unfolding r Let_def by simp
qed

end
