(* ===== verification/Localrpc.thy ===== *)
theory Localrpc
  imports Protoio GoIO
begin

text \<open>
  \<open>src/internal/localrpc/localrpc.go\<close>: requests of one line to the running daemon, with values in
  the encoding of URL queries. The connection is what each side has written; handlers work on a
  state of their own.
\<close>

section \<open>Values\<close>

text \<open>\<open>url.Values\<close>, a map from strings to lists of strings. \<open>Encode\<close> goes through the keys in order.\<close>

type_synonym url_values = "(string \<times> string list) list"

definition values_of :: "url_values \<Rightarrow> string \<Rightarrow> string list" where
  "values_of v k = (case map_of v k of None \<Rightarrow> [] | Some vs \<Rightarrow> vs)"

definition Values_Get :: "url_values \<Rightarrow> string \<Rightarrow> string" where
  "Values_Get v k = (case values_of v k of [] \<Rightarrow> [] | x # _ \<Rightarrow> x)"

definition Values_Set :: "url_values \<Rightarrow> string \<Rightarrow> string \<Rightarrow> url_values" where
  "Values_Set v k x = AList.update k [x] v"

definition Values_Add :: "url_values \<Rightarrow> string \<Rightarrow> string \<Rightarrow> url_values" where
  "Values_Add v k x = AList.update k (values_of v k @ [x]) v"

definition encode_pair :: "string \<Rightarrow> string \<Rightarrow> string" where
  "encode_pair k x = QueryEscape k @ ''='' @ QueryEscape x"

definition Values_Encode :: "url_values \<Rightarrow> string" where
  "Values_Encode v =
     Join (concat (map (\<lambda>k. map (encode_pair k) (values_of v k)) (sort (remdups (map fst v))))) ''&''"

text \<open>
  \<open>url.ParseQuery\<close>: the loop over the pieces between ampersands, with the values and the first error
  so far. A piece with an error is skipped, but a semicolon replaces the error.
\<close>

fun parse_pieces :: "string list \<Rightarrow> url_values \<Rightarrow> string option \<Rightarrow> url_values \<times> string option" where
  "parse_pieces [] v err = (v, err)"
| "parse_pieces (piece # ps) v err =
     (if Contains piece '';'' then parse_pieces ps v (Some ''invalid semicolon separator in query'')
      else if piece = [] then parse_pieces ps v err
      else
        (let (k, x, _) = Cut piece ''='' in
         case QueryUnescape k of
           Inl e \<Rightarrow> parse_pieces ps v (case err of None \<Rightarrow> Some e | Some _ \<Rightarrow> err)
         | Inr key \<Rightarrow>
             (case QueryUnescape x of
                Inl e \<Rightarrow> parse_pieces ps v (case err of None \<Rightarrow> Some e | Some _ \<Rightarrow> err)
              | Inr val \<Rightarrow> parse_pieces ps (Values_Add v key val) err)))"

definition ParseQuery :: "string \<Rightarrow> url_values \<times> string option" where
  "ParseQuery query = parse_pieces (Split query ''&'') [] None"

section \<open>The server\<close>

type_synonym 's rpc_handler = "'s \<Rightarrow> url_values \<Rightarrow> (string, url_values) result \<times> 's"
type_synonym 's rpc_server = "(string \<times> 's rpc_handler) list"

definition rpc_NewServer :: "'s rpc_server" where
  "rpc_NewServer = []"

definition rpc_Register :: "'s rpc_server \<Rightarrow> string \<Rightarrow> 's rpc_handler \<Rightarrow> 's rpc_server" where
  "rpc_Register s name handler = AList.update name handler s"

definition readRequest :: "reader \<Rightarrow> (io_error, string \<times> string) result \<times> reader" where
  "readRequest r =
     (case tp_ReadLine r of
        (Inl e, r') \<Rightarrow> (Err e, r')
      | (Inr line, r') \<Rightarrow>
          (let sp = SplitN2 line '' '' in
           (Ok (if length sp = 1 then (sp ! 0, []) else (sp ! 0, sp ! 1)), r')))"

definition writeError :: "string \<Rightarrow> string" where
  "writeError err = ''500 '' @ err @ [CR, LF]"

text \<open>What the server writes in reply to what it reads, and the state the handler leaves.\<close>

definition handleConn :: "'s rpc_server \<Rightarrow> 's \<Rightarrow> reader \<Rightarrow> string \<times> 's" where
  "handleConn s st r =
     (case fst (readRequest r) of
        Inl _ \<Rightarrow> ([], st)
      | Inr (name, inS) \<Rightarrow>
          (case map_of s name of
             None \<Rightarrow> (writeError ''unknown method'', st)
           | Some handler \<Rightarrow>
               (case ParseQuery inS of
                  (_, Some e) \<Rightarrow> (writeError e, st)
                | (inV, None) \<Rightarrow>
                    (case handler st inV of
                       (Inl e, st') \<Rightarrow> (writeError e, st')
                     | (Inr outV, st') \<Rightarrow> (''200 '' @ Values_Encode outV @ [CR, LF], st')))))"

text \<open>
  The loop of the server over the connections it accepts, here in the order their handlers run: the error it returns
  with, or \<open>None\<close> while it waits for more, and what it replied on each.
\<close>

fun accept_loop :: "'s rpc_server \<Rightarrow> (string, reader) result list \<Rightarrow> 's \<Rightarrow> string option \<times> string list \<times> 's" where
  "accept_loop s [] st = (None, [], st)"
| "accept_loop s (Inl e # accepts) st = (Some e, [], st)"
| "accept_loop s (Inr conn # accepts) st =
     (let (out, st1) = handleConn s st conn; (err, outs, st2) = accept_loop s accepts st1 in (err, out # outs, st2))"

definition rpc_ListenAndServe ::
  "'s rpc_server \<Rightarrow> string option \<Rightarrow> (string, reader) result list \<Rightarrow> 's \<Rightarrow> string option \<times> string list \<times> 's" where
  "rpc_ListenAndServe s listen accepts st =
     (case listen of Some e \<Rightarrow> (Some e, [], st) | None \<Rightarrow> accept_loop s accepts st)"

text \<open>A connection is served whatever came on the ones before it.\<close>

lemma accept_loop_append:
  "list_all is_ok as \<Longrightarrow> accept_loop s as st = (None, outs, st1) \<Longrightarrow>
   accept_loop s (as @ bs) st = (let (err, outs', st2) = accept_loop s bs st1 in (err, outs @ outs', st2))"
proof (induction s as st arbitrary: outs rule: accept_loop.induct)
  case (3 s conn accepts st)
  obtain out st2 where h: "handleConn s st conn = (out, st2)" by fastforce
  with "3.prems" obtain outs' where l: "accept_loop s accepts st2 = (None, outs', st1)" "outs = out # outs'"
    by (auto split: prod.splits)
  show ?case using "3.IH" [OF h [symmetric] refl _ l(1)] "3.prems"(1) h l(2) by (simp split: prod.splits)
qed (auto split: prod.splits)

section \<open>The client\<close>

text \<open>
  \<open>(*textproto.Reader).ReadCodeLine(0)\<close>: a code of three characters, a space or a dash, and the text.
\<close>

definition ReadCodeLine :: "reader \<Rightarrow> (string, int \<times> string) result" where
  "ReadCodeLine r =
     (case fst (tp_ReadLine r) of
        Inl _ \<Rightarrow> Err ''read error''
      | Inr line \<Rightarrow>
          if length line < 4 \<or> line ! 3 \<noteq> SP \<and> line ! 3 \<noteq> CHR ''-'' then Err (''short response: '' @ line)
          else case ParseInt64 (take 3 line) of
              Inl _ \<Rightarrow> Err (''invalid response code: '' @ line)
            | Inr code \<Rightarrow>
                if code < 100 then Err (''invalid response code: '' @ line)
                else if line ! 3 = CHR ''-'' then Err (''unexpected multi-line response: '' @ drop 4 line)
                else Ok (code, drop 4 line))"

text \<open>The connection of a client: an error on connecting or on writing, and what the peer replies.\<close>

record 's rpc_net =
  rn_dial :: "string option"
  rn_write :: "string option"
  rn_peer :: "'s \<Rightarrow> string \<Rightarrow> reader \<times> 's"

definition rpc_request :: "string \<Rightarrow> url_values \<Rightarrow> string" where
  "rpc_request name input = name @ '' '' @ Values_Encode input @ [CR, LF]"

definition CallWithValues :: "'s rpc_net \<Rightarrow> 's \<Rightarrow> string \<Rightarrow> url_values \<Rightarrow> (string, url_values) result \<times> 's" where
  "CallWithValues net st name input =
     (case rn_dial net of
        Some e \<Rightarrow> (Err e, st)
      | None \<Rightarrow>
          (case rn_write net of
             Some e \<Rightarrow> (Err e, st)
           | None \<Rightarrow>
               (let (r, st') = rn_peer net st (rpc_request name input) in
                (case ReadCodeLine r of
                   Inl e \<Rightarrow> Err e
                 | Inr (code, msg) \<Rightarrow>
                     if code \<noteq> 200 then Err msg
                     else (case ParseQuery msg of (_, Some e) \<Rightarrow> Err e | (v, None) \<Rightarrow> Ok v),
                 st'))))"

text \<open>The arguments of \<open>Call\<close> come in pairs; \<open>None\<close> is the panic on an odd number of them.\<close>

fun set_args :: "string list \<Rightarrow> url_values \<Rightarrow> url_values option" where
  "set_args [] v = Some v"
| "set_args [k] v = None"
| "set_args (k # x # args) v = set_args args (Values_Set v k x)"

definition Call :: "'s rpc_net \<Rightarrow> 's \<Rightarrow> string \<Rightarrow> string list \<Rightarrow> ((string, url_values) result \<times> 's) option" where
  "Call net st name args = map_option (CallWithValues net st name) (set_args args [])"

text \<open>A client that talks to a server, with nothing in between.\<close>

definition rpc_connected :: "'s rpc_server \<Rightarrow> 's rpc_net" where
  "rpc_connected s =
     \<lparr>rn_dial = None, rn_write = None,
      rn_peer = (\<lambda>st req. (let (out, st') = handleConn s st \<lparr>r_bytes = req, r_end = EOF\<rparr>
                           in (\<lparr>r_bytes = out, r_end = EOF\<rparr>, st')))\<rparr>"

section \<open>Values survive the encoding\<close>

text \<open>Values in the form the map has when read back: keys in order, none without values.\<close>

definition canonical_values :: "url_values \<Rightarrow> bool" where
  "canonical_values v \<longleftrightarrow> sorted (map fst v) \<and> distinct (map fst v) \<and> (\<forall>(k, vs) \<in> set v. vs \<noteq> [])"

lemma unhex_unreserved: "unhex c = Some n \<Longrightarrow> unreserved c"
proof -
  have "byte (CHR ''f'') \<le> byte (CHR ''z'')" "byte (CHR ''F'') \<le> byte (CHR ''Z'')" by simp_all
  then show "unhex c = Some n \<Longrightarrow> unreserved c"
    unfolding unhex_def unreserved_def in_range_def by (simp split: if_splits)
qed

lemma hex_digit_unreserved: "n < 16 \<Longrightarrow> unreserved (hex_digit n)"
  using unhex_hex_digit unhex_unreserved by blast

lemma QueryEscape_chars: "c \<in> set (QueryEscape s) \<Longrightarrow> unreserved c \<or> c = CHR ''+'' \<or> c = CHR ''%''"
proof -
  have "byte x div 16 < 16" for x using nat_of_char_less_256 [of x] by (simp add: less_mult_imp_div_less)
  then have "c \<in> set (escape_byte x) \<Longrightarrow> unreserved c \<or> c = CHR ''+'' \<or> c = CHR ''%''" for x
    using hex_digit_unreserved [of "byte x div 16"] hex_digit_unreserved [of "byte x mod 16"]
    by (simp add: escape_byte_def split: if_splits) blast
  then show "c \<in> set (QueryEscape s) \<Longrightarrow> unreserved c \<or> c = CHR ''+'' \<or> c = CHR ''%''"
    unfolding QueryEscape_def by auto
qed

lemma QueryEscape_plain:
  "CHR ''&'' \<notin> set (QueryEscape s)" "CHR '';'' \<notin> set (QueryEscape s)" "CHR ''='' \<notin> set (QueryEscape s)"
  "LF \<notin> set (QueryEscape s)" "CR \<notin> set (QueryEscape s)"
proof -
  have "\<not> unreserved (CHR ''&'')" "\<not> unreserved (CHR '';'')" "\<not> unreserved (CHR ''='')" "\<not> unreserved LF" "\<not> unreserved CR"
    by (simp_all add: unreserved_def in_range_def)
  then show "CHR ''&'' \<notin> set (QueryEscape s)" "CHR '';'' \<notin> set (QueryEscape s)" "CHR ''='' \<notin> set (QueryEscape s)"
    "LF \<notin> set (QueryEscape s)" "CR \<notin> set (QueryEscape s)"
    using QueryEscape_chars [of _ s] by fastforce+
qed

definition pieces :: "url_values \<Rightarrow> string list" where
  "pieces v = concat (map (\<lambda>(k, vs). map (encode_pair k) vs) v)"

lemma encode_pair_plain:
  "CHR ''&'' \<notin> set (encode_pair k x)" "CHR '';'' \<notin> set (encode_pair k x)" "LF \<notin> set (encode_pair k x)" "CR \<notin> set (encode_pair k x)"
  using QueryEscape_plain by (simp_all add: encode_pair_def)

lemma Values_Encode_pieces:
  assumes "canonical_values v"
  shows "Values_Encode v = Join (pieces v) ''&''"
proof -
  have "map (encode_pair k) (values_of v k) = map (encode_pair k) vs" if "(k, vs) \<in> set v" for k vs
    using that assms by (simp add: values_of_def canonical_values_def)
  then have eq: "map ((\<lambda>k. map (encode_pair k) (values_of v k)) \<circ> fst) v = map (\<lambda>(k, vs). map (encode_pair k) vs) v"
    by auto
  have "sort (remdups (map fst v)) = map fst v"
    using assms by (simp add: canonical_values_def sorted_sort_id distinct_remdups_id)
  then show ?thesis by (simp only: Values_Encode_def pieces_def map_map eq)
qed

lemma Values_Add_last: "k \<notin> fst ` set acc \<Longrightarrow> Values_Add (acc @ [(k, ys)]) k x = acc @ [(k, ys @ [x])]"
proof -
  assume k: "k \<notin> fst ` set acc"
  have "AList.update k z (acc @ [(k, ys)]) = acc @ [(k, z)]" for z using k by (induction acc) auto
  moreover have "map_of acc k = None" using k by (simp add: map_of_None_iff)
  then have "values_of (acc @ [(k, ys)]) k = ys" by (simp add: values_of_def map_add_def)
  ultimately show ?thesis by (simp add: Values_Add_def)
qed

lemma Values_Add_new: "k \<notin> fst ` set acc \<Longrightarrow> Values_Add acc k x = acc @ [(k, [x])]"
proof -
  assume k: "k \<notin> fst ` set acc"
  have "AList.update k z acc = acc @ [(k, z)]" for z using k by (induction acc) auto
  moreover have "map_of acc k = None" using k by (simp add: map_of_None_iff)
  ultimately show ?thesis by (simp add: Values_Add_def values_of_def)
qed

lemma parse_piece: "parse_pieces (encode_pair k x # ps) v err = parse_pieces ps (Values_Add v k x) err"
  using encode_pair_plain [of k x] QueryEscape_plain [of k]
  by (simp add: parse_pieces.simps(2) encode_pair_def go_str QueryUnescape_QueryEscape)

declare parse_pieces.simps(2) [simp del]

lemma parse_values_more:
  "k \<notin> fst ` set acc \<Longrightarrow> parse_pieces (map (encode_pair k) xs @ ps) (acc @ [(k, ys)]) err = parse_pieces ps (acc @ [(k, ys @ xs)]) err"
  by (induction xs arbitrary: ys) (simp_all add: parse_piece Values_Add_last)

lemma parse_values: "\<lbrakk>k \<notin> fst ` set acc; xs \<noteq> []\<rbrakk> \<Longrightarrow>
    parse_pieces (map (encode_pair k) xs @ ps) acc err = parse_pieces ps (acc @ [(k, xs)]) err"
  by (cases xs) (simp_all add: parse_piece Values_Add_new parse_values_more)

lemma parse_all: "\<lbrakk>distinct (map fst (acc @ v)); \<forall>(k, vs) \<in> set v. vs \<noteq> []\<rbrakk> \<Longrightarrow>
    parse_pieces (pieces v) acc err = (acc @ v, err)"
proof (induction v arbitrary: acc)
  case (Cons kv v)
  obtain k vs where kv: "kv = (k, vs)" by fastforce
  have "pieces (kv # v) = map (encode_pair k) vs @ pieces v" by (simp add: pieces_def kv)
  then show ?case using Cons.prems Cons.IH [of "acc @ [(k, vs)]"] by (simp add: kv parse_values)
qed (simp add: pieces_def)

lemma ParseQuery_Encode: "canonical_values v \<Longrightarrow> ParseQuery (Values_Encode v) = (v, None)"
proof -
  assume v: "canonical_values v"
  have amp: "\<forall>p \<in> set (pieces v). CHR ''&'' \<notin> set p"
    using encode_pair_plain by (auto simp: pieces_def)
  show ?thesis
  proof (cases "pieces v = []")
    case True
    then have "v = []" using v by (cases v) (auto simp: pieces_def canonical_values_def)
    then show ?thesis by (simp add: ParseQuery_def Values_Encode_def go_str parse_pieces.simps(2))
  next
    case False
    then have "Split (Join (pieces v) ''&'') ''&'' = pieces v" using amp by (simp add: Split_Join_char)
    then show ?thesis using parse_all [of "[]" v None] v
      by (simp add: ParseQuery_def Values_Encode_pieces canonical_values_def)
  qed
qed

lemma set_Join_char: "c \<in> set (Join ps ''&'') \<Longrightarrow> c = CHR ''&'' \<or> (\<exists>p \<in> set ps. c \<in> set p)"
  by (induction ps "''&''" rule: Join.induct) auto

lemma Values_Encode_plain: "canonical_values v \<Longrightarrow> LF \<notin> set (Values_Encode v) \<and> CR \<notin> set (Values_Encode v)"
  using encode_pair_plain by (fastforce simp: Values_Encode_pieces pieces_def dest: set_Join_char)

section \<open>A call is a call\<close>

lemma tp_ReadLine_crlf: "LF \<notin> set l \<Longrightarrow> fst (tp_ReadLine \<lparr>r_bytes = l @ [CR, LF], r_end = e\<rparr>) = Ok l"
proof -
  assume l: "LF \<notin> set l"
  then have "\<forall>c \<in> set (l @ [CR]). c \<noteq> LF" by auto
  from takeWhile_append_hit [OF this, of LF "[]"] have "takeWhile (\<lambda>c. c \<noteq> LF) (l @ [CR, LF]) = l @ [CR]" by simp
  then show ?thesis by (simp only: tp_ReadLine_def drop_cr_def Let_def reader.simps) simp
qed

text \<open>
  C29. A call through the socket is a call of the handler: the values arrive as they were sent, whatever
  bytes they have, and the caller gets the values or the error the handler returned, for every
  handler whose errors are single lines.
\<close>

theorem CallWithValues_transparent:
  assumes "map_of s name = Some handler" "SP \<notin> set name" "LF \<notin> set name" "canonical_values input"
    and "handler st input = (res, st')"
    and "case res of Inl e \<Rightarrow> LF \<notin> set e | Inr out \<Rightarrow> canonical_values out"
  shows "CallWithValues (rpc_connected s) st name input = (res, st')"
proof -
  note enc = Values_Encode_plain [OF assms(4)]
  have "fst (readRequest \<lparr>r_bytes = rpc_request name input, r_end = EOF\<rparr>) = Ok (name, Values_Encode input)"
    using assms(2,3) enc tp_ReadLine_crlf [of "name @ '' '' @ Values_Encode input" EOF]
    by (auto simp: readRequest_def rpc_request_def go_str split: prod.splits)
  then have h: "handleConn s st \<lparr>r_bytes = rpc_request name input, r_end = EOF\<rparr> =
      ((case res of Inl e \<Rightarrow> writeError e | Inr out \<Rightarrow> ''200 '' @ Values_Encode out @ [CR, LF]), st')"
    using assms(1,5) ParseQuery_Encode [OF assms(4)] by (simp add: handleConn_def split: sum.split)
  show ?thesis
  proof (cases res)
    case (Inl e)
    then have "ReadCodeLine \<lparr>r_bytes = writeError e, r_end = EOF\<rparr> = Ok (500, e)"
      using assms(6) tp_ReadLine_crlf [of "''500 '' @ e" EOF]
      by (simp add: ReadCodeLine_def writeError_def ParseInt64_def is_digit_def in_range_def digits_value_def)
    then show ?thesis using h Inl by (simp add: CallWithValues_def rpc_connected_def)
  next
    case (Inr out)
    note enc' = Values_Encode_plain [of out]
    have "ReadCodeLine \<lparr>r_bytes = ''200 '' @ Values_Encode out @ [CR, LF], r_end = EOF\<rparr> = Ok (200, Values_Encode out)"
      using assms(6) Inr enc' tp_ReadLine_crlf [of "''200 '' @ Values_Encode out" EOF]
      by (simp add: ReadCodeLine_def ParseInt64_def is_digit_def in_range_def digits_value_def)
    then show ?thesis using h Inr assms(6) ParseQuery_Encode [of out] by (simp add: CallWithValues_def rpc_connected_def)
  qed
qed

theorem CallWithValues_transparent_witness:
  "CallWithValues (rpc_connected [(''Echo'', \<lambda>n v. (Ok v, Suc n))]) (0 :: nat) ''Echo'' [(''Address'', [''a&b=c; d'' @ [LF]])]
     = (Ok [(''Address'', [''a&b=c; d'' @ [LF]])], 1)"
  by (rule CallWithValues_transparent [where handler = "\<lambda>n v. (Ok v, Suc n)"]) (simp_all add: canonical_values_def)

end
