(* ===== verification/GoPath.thy ===== *)
theory GoPath
  imports GoStrings
begin

text \<open>The parts of Go's \<open>path\<close> package that the server puts the names of its files together with.\<close>

text \<open>The elements of a cleaned path, as a stack of those kept so far.\<close>

fun clean_elems :: "bool \<Rightarrow> string list \<Rightarrow> string list \<Rightarrow> string list" where
  "clean_elems rooted st [] = rev st"
| "clean_elems rooted st (e # es) =
     (if e = [] \<or> e = ''.'' then clean_elems rooted st es
      else if e = ''..'' then
        (case st of
           [] \<Rightarrow> clean_elems rooted (if rooted then [] else [''..'']) es
         | x # st' \<Rightarrow> clean_elems rooted (if x = ''..'' then ''..'' # st else st') es)
      else clean_elems rooted (e # st) es)"

definition path_Clean :: "string \<Rightarrow> string" where
  "path_Clean p =
     (let rooted = HasPrefix p ''/'';
          r = Join (clean_elems rooted [] (Split p ''/'')) ''/''
      in if rooted then ''/'' @ r else if r = [] then ''.'' else r)"

definition path_Join :: "string list \<Rightarrow> string" where
  "path_Join elems =
     (case filter (\<lambda>e. e \<noteq> []) elems of [] \<Rightarrow> [] | es \<Rightarrow> path_Clean (Join es ''/''))"

text \<open>The last element of a path, after its trailing slashes.\<close>

definition path_Base :: "string \<Rightarrow> string" where
  "path_Base p =
     (if p = [] then ''.''
      else
        (let q = rev (dropWhile (\<lambda>c. c = CHR ''/'') (rev p)) in
         if q = [] then ''/'' else rev (takeWhile (\<lambda>c. c \<noteq> CHR ''/'') (rev q))))"

lemma path_Join_hook: "path_Join [''hooks/'', name] = ''hooks/'' @ name"
  if "name \<notin> {[], ''.'', ''..''}" "CHR ''/'' \<notin> set name"
proof -
  have "Split (''hooks//'' @ name) ''/'' = [''hooks'', [], name]"
    using that Split_char_append [of "CHR ''/''" "''hooks''" "''/'' @ name"] Split_char_append [of "CHR ''/''" "[]" name]
    by (simp add: Split_char_none)
  then show ?thesis using that by (simp add: path_Join_def path_Clean_def HasPrefix_def Let_def)
qed

end
