(* ===== verification/Server.thy ===== *)
theory Server
  imports ConnSafety Userdb Localrpc GoPath
begin

text \<open>
  \<open>src/internal/smtpsrv/server.go\<close>: the server. It owns the authenticator, the aliases, the queue and
  the database of levels, and gives every connection pointers to them. Connections, reloads, calls
  of the local RPC and the loops of the queue run side by side; here they are a sequence of events in
  any order.
\<close>

section \<open>The server\<close>

record Server =
  sv_Hostname :: string
  sv_MaxDataSize :: int
  sv_addrs :: "(SocketMode \<times> string list) list"
  sv_listeners :: "(SocketMode \<times> string list) list"
  sv_certs :: "string list"
  sv_HAProxyEnabled :: bool
  sv_localDomains :: String
  sv_authr :: Authenticator
  sv_userdbs :: "(string \<times> userdb) list"
  sv_aliasesR :: Resolver
  sv_dkimSigners :: "(string \<times> Signer list) list"
  sv_connTimeout :: int
  sv_commandTimeout :: int
  sv_HookPath :: string

text \<open>
  The resolver asks the authenticator whether a user exists, through a method value: it sees every
  later change. Everything that changes the authenticator goes through \<open>set_authr\<close>. The backends of
  the domains are the databases, which the server keeps pointers to.
\<close>

definition user_exists :: "Authenticator \<Rightarrow> string \<Rightarrow> string \<Rightarrow> (string, bool) result" where
  "user_exists a user domain =
     (case auth_Exists a user domain of
        Inr ok \<Rightarrow> Ok ok
      | Inl (AuthErr e) \<Rightarrow> Err e
      | Inl (AuthPanic e) \<Rightarrow> Err e)"

definition set_authr :: "Authenticator \<Rightarrow> Server \<Rightarrow> Server" where
  "set_authr a s = s\<lparr>sv_authr := a, sv_aliasesR := (sv_aliasesR s)\<lparr>userExistsInDB := user_exists a\<rparr>\<rparr>"

definition NewServer :: Server where
  "NewServer =
     \<lparr>sv_Hostname = [], sv_MaxDataSize = 0, sv_addrs = [], sv_listeners = [], sv_certs = [], sv_HAProxyEnabled = False,
      sv_localDomains = \<lparr>str_m = None\<rparr>, sv_authr = NewAuthenticator, sv_userdbs = [],
      sv_aliasesR = NewResolver (user_exists NewAuthenticator), sv_dkimSigners = [],
      sv_connTimeout = 20 * minute, sv_commandTimeout = minute, sv_HookPath = []\<rparr>"

definition AddCerts :: "(string, string) result \<Rightarrow> Server \<Rightarrow> string option \<times> Server" where
  "AddCerts pair s =
     (case pair of
        Inl e \<Rightarrow> (Some e, s)
      | Inr cert \<Rightarrow> (None, s\<lparr>sv_certs := sv_certs s @ [cert]\<rparr>))"

definition mode_list :: "(SocketMode \<times> string list) list \<Rightarrow> SocketMode \<Rightarrow> string list" where
  "mode_list xs m = (case map_of xs m of None \<Rightarrow> [] | Some as \<Rightarrow> as)"

definition AddAddr :: "string \<Rightarrow> SocketMode \<Rightarrow> Server \<Rightarrow> Server" where
  "AddAddr a m s = s\<lparr>sv_addrs := AList.update m (mode_list (sv_addrs s) m @ [a]) (sv_addrs s)\<rparr>"

definition AddListeners :: "string list \<Rightarrow> SocketMode \<Rightarrow> Server \<Rightarrow> Server" where
  "AddListeners ls m s = s\<lparr>sv_listeners := AList.update m (mode_list (sv_listeners s) m @ ls) (sv_listeners s)\<rparr>"

definition srv_AddDomain :: "string \<Rightarrow> Server \<Rightarrow> Server" where
  "srv_AddDomain d s =
     s\<lparr>sv_localDomains := Add (sv_localDomains s) [d], sv_aliasesR := AddDomain (sv_aliasesR s) d\<rparr>"

text \<open>The database is registered even if it could not be loaded, so that a reload can repair it.\<close>

type_synonym userdb_codec = "(string \<times> Password) list codec"

definition AddUserDB ::
  "kdf \<Rightarrow> userdb_codec \<Rightarrow> file_system \<Rightarrow> string \<Rightarrow> string \<Rightarrow> Server \<Rightarrow> (nat \<times> string option) \<times> Server" where
  "AddUserDB kdf cd fs domain f s =
     (let (udb, err) = ud_Load cd fs f in
      ((ud_Len udb, err),
       set_authr (Register (sv_authr s) domain (userdb_backend kdf udb)) (s\<lparr>sv_userdbs := AList.update domain udb (sv_userdbs s)\<rparr>)))"

definition srv_AddAliasesFile ::
  "textlib \<Rightarrow> (string \<Rightarrow> open_result) \<Rightarrow> string \<Rightarrow> string \<Rightarrow> Server \<Rightarrow> (alias_error, nat) result \<times> Server" where
  "srv_AddAliasesFile tx fs domain f s =
     (let (v, res) = AddAliasesFile tx fs (sv_aliasesR s) domain f in (res, s\<lparr>sv_aliasesR := v\<rparr>))"

text \<open>The reading of the key, of its PEM block and of its contents are parameters.\<close>

record key_env =
  ke_ReadFile :: "string \<Rightarrow> (string, string) result"
  ke_pem :: "string \<Rightarrow> (string \<times> string) option"
  ke_ParsePKCS8 :: "string \<Rightarrow> (string, private_key) result"

datatype key_error = KeyError string | errDecodingPEMBlock | errUnsupportedBlockType string | errUnsupportedSignerKey

definition AddDKIMSigner :: "unicode \<Rightarrow> key_env \<Rightarrow> string \<Rightarrow> string \<Rightarrow> string \<Rightarrow> Server \<Rightarrow> key_error option \<times> Server" where
  "AddDKIMSigner u env domain selector keyPath s =
     (case ke_ReadFile env keyPath of
        Inl e \<Rightarrow> (Some (KeyError e), s)
      | Inr key \<Rightarrow>
          (case ke_pem env key of
             None \<Rightarrow> (Some errDecodingPEMBlock, s)
           | Some (type, contents) \<Rightarrow>
               if ToUpper u type \<noteq> ''PRIVATE KEY'' then (Some (errUnsupportedBlockType type), s)
               else case ke_ParsePKCS8 env contents of
                   Inl e \<Rightarrow> (Some (KeyError e), s)
                 | Inr OtherPrivateKey \<Rightarrow> (Some errUnsupportedSignerKey, s)
                 | Inr k \<Rightarrow>
                     (let old = (case map_of (sv_dkimSigners s) domain of None \<Rightarrow> [] | Some ss \<Rightarrow> ss);
                          signer = \<lparr>sg_Domain = domain, sg_Selector = selector, sg_Signer = k\<rparr>
                      in (None, s\<lparr>sv_dkimSigners := AList.update domain (old @ [signer]) (sv_dkimSigners s)\<rparr>))))"

definition SetAuthFallback :: "Backend \<Rightarrow> Server \<Rightarrow> Server" where
  "SetAuthFallback be s = set_authr ((sv_authr s)\<lparr>Fallback := Some be\<rparr>) s"

definition SetAliasesConfig :: "string \<Rightarrow> string \<Rightarrow> Server \<Rightarrow> Server" where
  "SetAliasesConfig suffixSep dropChars s =
     s\<lparr>sv_aliasesR := (sv_aliasesR s)\<lparr>SuffixSep := suffixSep, DropChars := dropChars,
         ResolveHook := path_Join [sv_HookPath s, ''alias-resolve'']\<rparr>\<rparr>"

text \<open>The limits of the queue; a zero leaves the default.\<close>

definition SetQueueLimits :: "nat \<Rightarrow> int \<Rightarrow> Queue \<Rightarrow> Queue" where
  "SetQueueLimits maxItems giveUpAfter q =
     (let q1 = (if 0 < maxItems then q\<lparr>q_MaxItems := int maxItems\<rparr> else q)
      in if 0 < giveUpAfter then q1\<lparr>q_GiveUpAfter := giveUpAfter\<rparr> else q1)"

text \<open>A new queue on the directory, loaded; or the message the program exits with.\<close>

definition InitQueue ::
  "Message codec \<Rightarrow> string option \<Rightarrow> string \<Rightarrow> file_system \<Rightarrow> Server \<Rightarrow> (string, Queue \<times> Item list) result" where
  "InitQueue cd mkdir path fs s =
     (case mkdir of
        Some e \<Rightarrow> Err (''Error initializing queue: '' @ e)
      | None \<Rightarrow> Ok (q_Load cd (q_New path (Some (sv_localDomains s)) (sv_aliasesR s) fs)))"

section \<open>Calls of the local RPC\<close>

fun rtype_string :: "RType \<Rightarrow> string" where
  "rtype_string EMAIL = ''(email)''"
| "rtype_string PIPE = ''(pipe)''"
| "rtype_string FORWARD = ''(forward)''"

definition aliasResolveRPC ::
  "textlib \<Rightarrow> (string \<Rightarrow> hook_outcome) \<Rightarrow> (alias_error \<Rightarrow> string) \<Rightarrow> Server \<Rightarrow> url_values \<Rightarrow> (string, url_values) result" where
  "aliasResolveRPC tx hook err_string s req =
     (case Resolve tx hook (sv_aliasesR s) (Values_Get req ''Address'') of
        Inl e \<Rightarrow> Err (err_string e)
      | Inr rcpts \<Rightarrow> Ok (fold (\<lambda>r v. Values_Add v (rtype_string (r_Type r)) (r_Addr r)) rcpts []))"

definition dinfoClearRPC :: "'s put_fn \<Rightarrow> 's domain_db \<Rightarrow> url_values \<Rightarrow> (string, url_values) result \<times> 's domain_db" where
  "dinfoClearRPC put db req =
     (let (exists, db') = Clear put db (Values_Get req ''Domain'') in
      (if \<not> exists then Err ''does not exist'' else Ok [], db'))"

section \<open>Reloading\<close>

record reload_env =
  re_text :: textlib
  re_open :: "string \<Rightarrow> open_result"
  re_kdf :: kdf
  re_codec :: userdb_codec
  re_fs :: file_system

text \<open>Every database is reloaded, whatever the others do; what it answers is the outcome of its \<open>Reload\<close>.\<close>

definition reload_userdbs :: "reload_env \<Rightarrow> (string \<times> userdb) list \<Rightarrow> (string \<times> userdb \<times> string option) list" where
  "reload_userdbs env = map (\<lambda>(domain, db). (domain, ud_Reload (re_codec env) (re_fs env) db))"

text \<open>An error is fatal: \<open>Inl\<close> is the message the program exits with.\<close>

definition srv_Reload :: "reload_env \<Rightarrow> (alias_error \<Rightarrow> string) \<Rightarrow> Server \<Rightarrow> (string, Server) result" where
  "srv_Reload env err_string s =
     (case Reload (re_text env) (re_open env) (sv_aliasesR s) of
        (_, Inl e) \<Rightarrow> Err (''Error reloading aliases: '' @ err_string e)
      | (v, Inr _) \<Rightarrow>
          (let dbs = reload_userdbs env (sv_userdbs s);
               a = fold (\<lambda>(d, db, err) a. Register a d ((userdb_backend (re_kdf env) db)\<lparr>be_Reload := err\<rparr>)) dbs (sv_authr s);
               msgs = auth_Reload (tl_unicode (re_text env)) a
           in if msgs \<noteq> [] then Err (''Error reloading authenticators: '' @ Join msgs '' ; '')
              else Ok (set_authr a (s\<lparr>sv_aliasesR := v, sv_userdbs := map (\<lambda>(d, db, _). (d, db)) dbs\<rparr>))))"

section \<open>Connections\<close>

text \<open>\<open>serve\<close>: the connection made for what a listener accepted.\<close>

definition serve_conn :: "Server \<Rightarrow> SocketMode \<Rightarrow> int \<Rightarrow> net_addr \<Rightarrow> reader \<Rightarrow> Conn" where
  "serve_conn s mode now addr r =
     \<lparr>hostname = sv_Hostname s, maxDataSize = sv_MaxDataSize s, postDataHook = path_Join [sv_HookPath s, ''post-data''],
      c_mode = mode, tlsConnState = None, remoteAddr = addr, c_reader = r, c_out = [], c_broken = None,
      ehloDomain = [], mailFrom = [], rcptTo = [], c_data = [], spfResult = [], spfError = None, dkimVerifyResult = None,
      onTLS = mode_TLS mode, isESMTP = False, authr = sv_authr s, localDomains = Some (sv_localDomains s),
      aliasesR = sv_aliasesR s, dkimSigners = sv_dkimSigners s, completedAuth = False, authUser = [], authDomain = [],
      c_deadline = now + sv_connTimeout s, haproxyEnabled = sv_HAProxyEnabled s\<rparr>"

text \<open>
  \<open>ListenAndServe\<close>: where the server listens, or the message it exits with. \<open>listen\<close> is the outcome of
  \<open>net.Listen\<close>.
\<close>

fun listen_all :: "(string \<Rightarrow> string option) \<Rightarrow> (SocketMode \<times> string) list \<Rightarrow> (string, (SocketMode \<times> string) list) result" where
  "listen_all listen [] = Ok []"
| "listen_all listen ((m, a) # rest) =
     (case listen a of
        Some e \<Rightarrow> Err (''Error listening: '' @ e)
      | None \<Rightarrow> and_then (listen_all listen rest) (\<lambda>ls. Ok ((m, a) # ls)))"

definition flat :: "(SocketMode \<times> string list) list \<Rightarrow> (SocketMode \<times> string) list" where
  "flat xs = concat (map (\<lambda>(m, as). map (\<lambda>a. (m, a)) as) xs)"

definition ListenAndServe :: "(string \<Rightarrow> string option) \<Rightarrow> Server \<Rightarrow> (string, (SocketMode \<times> string) list) result" where
  "ListenAndServe listen s =
     (if sv_certs s = [] then Err ''At least one valid certificate is needed''
      else and_then (listen_all listen (flat (sv_addrs s))) (\<lambda>ls. Ok (ls @ flat (sv_listeners s))))"

section \<open>Everything at once\<close>

text \<open>
  A connection of the running server: its state, the errors counted, how it ended if it has, and the
  turns it has taken, which no code keeps.
\<close>

record 's slot =
  sl_conn :: Conn
  sl_errs :: nat
  sl_end :: "loop_end option"
  sl_turns :: "('s cmd_env \<times> Conn) list"

record 's running =
  rs_server :: Server
  rs_shared :: "'s shared"
  rs_slots :: "'s slot list"
  rs_down :: bool

text \<open>
  The events: a connection is accepted; the loop of one takes a turn; the periodic reload; a call that
  clears the levels of a domain; a signal; and anything the loops of the queue do to the queue and the
  levels.
\<close>

datatype go_signal = SIGHUP | SIGTERM | SIGINT

record 's signal_env =
  si_log :: "string option"
  si_maillog :: "string option"
  si_get :: "'s get_fn"
  si_ids :: "'s \<Rightarrow> string list"
  si_reload :: reload_env
  si_alias_text :: "alias_error \<Rightarrow> string"

datatype 's event =
    Accepted SocketMode int net_addr reader start_env
  | Turn nat "'s cmd_env"
  | Reloaded reload_env "alias_error \<Rightarrow> string"
  | Cleared "'s put_fn" url_values
  | Signalled "'s signal_env" go_signal
  | Sent "'s domain_db" Queue

definition accept_slot :: "Server \<Rightarrow> SocketMode \<Rightarrow> int \<Rightarrow> net_addr \<Rightarrow> reader \<Rightarrow> start_env \<Rightarrow> 's slot" where
  "accept_slot s mode now addr r env =
     (let c = serve_conn s mode now addr r in
      case start_conn env c of
        None \<Rightarrow> \<lparr>sl_conn = c, sl_errs = 0, sl_end = Some Closed, sl_turns = []\<rparr>
      | Some c' \<Rightarrow> \<lparr>sl_conn = c', sl_errs = 0, sl_end = None, sl_turns = []\<rparr>)"

text \<open>A panic takes the whole process down.\<close>

definition take_turn :: "nat \<Rightarrow> 's cmd_env \<Rightarrow> 's running \<Rightarrow> 's running" where
  "take_turn i env st =
     (if length (rs_slots st) \<le> i then st
      else
        (let sl = rs_slots st ! i in
         if sl_end sl \<noteq> None then st
         else
           (let (e, n, c, sh) = handle_turn env (sl_errs sl) (sl_conn sl) (rs_shared st);
                sl' = \<lparr>sl_conn = c, sl_errs = n, sl_end = e, sl_turns = sl_turns sl @ [(env, sl_conn sl)]\<rparr>
            in st\<lparr>rs_shared := sh, rs_slots := (rs_slots st)[i := sl'], rs_down := (e = Some Panicked)\<rparr>)))"

text \<open>Reloading changes what all connections and the queue see, as they share the pointers.\<close>

definition apply_reload :: "Server \<Rightarrow> 's running \<Rightarrow> 's running" where
  "apply_reload s st =
     st\<lparr>rs_server := s,
        rs_shared := (rs_shared st)\<lparr>sh_queue := (sh_queue (rs_shared st))\<lparr>q_aliases := sv_aliasesR s\<rparr>\<rparr>,
        rs_slots := map (\<lambda>sl. sl\<lparr>sl_conn := (sl_conn sl)\<lparr>authr := sv_authr s, aliasesR := sv_aliasesR s\<rparr>\<rparr>) (rs_slots st)\<rparr>"

text \<open>
  \<open>signalHandler\<close> of \<open>src/chasquid.go\<close>: SIGHUP reopens the logs, and reloads the levels and the server;
  every error is fatal. The other two signals make the program exit.
\<close>

fun signalHandler :: "'s signal_env \<Rightarrow> go_signal \<Rightarrow> 's running \<Rightarrow> 's running" where
  "signalHandler env SIGHUP st =
     (if si_log env \<noteq> None then st\<lparr>rs_down := True\<rparr>
      else if si_maillog env \<noteq> None then st\<lparr>rs_down := True\<rparr>
      else case di_Reload (si_get env) (si_ids env) (sh_dinfo (rs_shared st)) of
          (_, Some e) \<Rightarrow> st\<lparr>rs_down := True\<rparr>
        | (db, None) \<Rightarrow>
            (let st1 = st\<lparr>rs_shared := (rs_shared st)\<lparr>sh_dinfo := db\<rparr>\<rparr> in
             case srv_Reload (si_reload env) (si_alias_text env) (rs_server st1) of
               Inl _ \<Rightarrow> st1\<lparr>rs_down := True\<rparr>
             | Inr s \<Rightarrow> apply_reload s st1))"
| "signalHandler env SIGTERM st = st\<lparr>rs_down := True\<rparr>"
| "signalHandler env SIGINT st = st\<lparr>rs_down := True\<rparr>"

fun server_step :: "'s event \<Rightarrow> 's running \<Rightarrow> 's running" where
  "server_step ev st =
     (if rs_down st then st
      else case ev of
          Accepted mode now addr r env \<Rightarrow> st\<lparr>rs_slots := rs_slots st @ [accept_slot (rs_server st) mode now addr r env]\<rparr>
        | Turn i env \<Rightarrow> take_turn i env st
        | Reloaded env err_string \<Rightarrow>
            (case srv_Reload env err_string (rs_server st) of
               Inl _ \<Rightarrow> st\<lparr>rs_down := True\<rparr>
             | Inr s \<Rightarrow> apply_reload s st)
        | Cleared put req \<Rightarrow>
            st\<lparr>rs_shared := (rs_shared st)\<lparr>sh_dinfo := snd (dinfoClearRPC put (sh_dinfo (rs_shared st)) req)\<rparr>\<rparr>
        | Signalled env sig \<Rightarrow> signalHandler env sig st
        | Sent db q \<Rightarrow> st\<lparr>rs_shared := (rs_shared st)\<lparr>sh_dinfo := db, sh_queue := q\<rparr>\<rparr>)"

definition server_run :: "'s event list \<Rightarrow> 's running \<Rightarrow> 's running" where
  "server_run evs st = fold server_step evs st"

definition started_server :: "Server \<Rightarrow> 's domain_db \<Rightarrow> Queue \<Rightarrow> 's running" where
  "started_server s db q =
     \<lparr>rs_server = s, rs_shared = \<lparr>sh_dinfo = db, sh_queue = q, sh_started = []\<rparr>, rs_slots = [], rs_down = False\<rparr>"

section \<open>What holds whatever happens\<close>

lemma same_config_relay: "relay_ok hist c item \<Longrightarrow> same_config c c' \<Longrightarrow> hist \<subseteq> hist' \<Longrightarrow> relay_ok hist' c' item"
  unfolding relay_ok_def same_config_def using rcpt_checked_mono by (metis (no_types, lifting))

lemma same_config_local: "same_config c c' \<Longrightarrow> localDomains c' = localDomains c" "same_config c c' \<Longrightarrow> c_mode c' = c_mode c"
  by (simp_all add: same_config_def)

text \<open>The invariant of a connection in the server, with its history, for the given local domains.\<close>

definition slot_ok :: "String \<Rightarrow> 's slot \<Rightarrow> bool" where
  "slot_ok doms sl \<longleftrightarrow>
     conn_ok (set (sl_turns sl)) (sl_conn sl) \<and> localDomains (sl_conn sl) = Some doms \<and>
     (\<forall>(env, c) \<in> set (sl_turns sl). localDomains c = Some doms)"

definition running_ok :: "String \<Rightarrow> 's running \<Rightarrow> bool" where
  "running_ok doms st \<longleftrightarrow>
     sv_localDomains (rs_server st) = doms \<and> (\<forall>sl \<in> set (rs_slots st). slot_ok doms sl) \<and>
     (\<forall>item \<in> set (sh_started (rs_shared st)). \<exists>sl \<in> set (rs_slots st). relay_ok (set (sl_turns sl)) (sl_conn sl) item)"

lemma start_conn_fresh:
  "start_conn env (serve_conn s mode now addr r) = Some c \<Longrightarrow> conn_ok {} c \<and> localDomains c = Some (sv_localDomains s)"
  by (auto simp: start_conn_def serve_conn_def conn_ok_def printfLine_def w_write_def Let_def
      split: if_splits sum.splits prod.splits option.splits)

lemma accept_slot_ok: "slot_ok (sv_localDomains s) (accept_slot s mode now addr r env)"
  using start_conn_fresh [of env s mode now addr r]
  by (auto simp: accept_slot_def slot_ok_def Let_def serve_conn_def conn_ok_def split: option.splits)

lemma relay_ok_updated:
  assumes "\<exists>x \<in> set sls. relay_ok (set (sl_turns x)) (sl_conn x) item" "i < length sls"
    and "same_config (sl_conn (sls ! i)) (sl_conn sl')" "set (sl_turns (sls ! i)) \<subseteq> set (sl_turns sl')"
  shows "\<exists>x \<in> set (sls[i := sl']). relay_ok (set (sl_turns x)) (sl_conn x) item"
proof -
  from assms(1) obtain j where j: "j < length sls" "relay_ok (set (sl_turns (sls ! j))) (sl_conn (sls ! j)) item"
    by (auto simp: in_set_conv_nth)
  show ?thesis
  proof (cases "j = i")
    case True
    then show ?thesis using j same_config_relay [OF _ assms(3,4)] assms(2) by (meson set_update_memI)
  next
    case False
    then show ?thesis using j by (intro bexI [of _ "sls ! j"]) (auto simp: in_set_conv_nth intro!: exI [of _ j])
  qed
qed

lemma take_turn_ok:
  assumes ok: "running_ok doms st"
  shows "running_ok doms (take_turn i env st)"
proof (cases "i < length (rs_slots st) \<and> sl_end (rs_slots st ! i) = None")
  case True
  then have inb: "i < length (rs_slots st)" by simp
  define sl where "sl = rs_slots st ! i"
  obtain e n c sh where t: "handle_turn env (sl_errs sl) (sl_conn sl) (rs_shared st) = (e, n, c, sh)" by (metis prod_cases4)
  define sl' where "sl' = \<lparr>sl_conn = c, sl_errs = n, sl_end = e, sl_turns = sl_turns sl @ [(env, sl_conn sl)]\<rparr>"
  have turn: "take_turn i env st = st\<lparr>rs_shared := sh, rs_slots := (rs_slots st)[i := sl'], rs_down := (e = Some Panicked)\<rparr>"
    using True t by (simp add: take_turn_def sl_def sl'_def Let_def)
  let ?h = "set (sl_turns sl)" and ?h' = "set (sl_turns sl')"
  have sub: "?h \<subseteq> ?h'" and mem: "(env, sl_conn sl) \<in> ?h'" by (auto simp: sl'_def)
  have old: "slot_ok doms sl" using ok True by (simp add: running_ok_def sl_def)
  then have "conn_ok ?h' (sl_conn sl)" using conn_ok_mono sub by (auto simp: slot_ok_def)
  from handle_turn_ok [OF this t mem] have cmd: "command_ok ?h' (sl_conn sl) (rs_shared st) c sh" .
  have cfg: "same_config (sl_conn sl) (sl_conn sl')" using cmd by (simp add: command_ok_def sl'_def)
  have new: "slot_ok doms sl'"
    using old cmd same_config_local [OF cfg] by (auto simp: slot_ok_def command_ok_def sl'_def)
  have mem': "sl' \<in> set ((rs_slots st)[i := sl'])" using True by (meson set_update_memI)
  have "\<exists>x \<in> set ((rs_slots st)[i := sl']). relay_ok (set (sl_turns x)) (sl_conn x) item" if "item \<in> set (sh_started sh)" for item
  proof (cases "item \<in> set (sh_started (rs_shared st))")
    case True
    then show ?thesis using ok relay_ok_updated [OF _ _ cfg [unfolded sl_def] sub [unfolded sl_def]] inb by (auto simp: running_ok_def)
  next
    case False
    then have "relay_ok ?h' (sl_conn sl) item" using cmd that by (auto simp: command_ok_def only_adds_def queue_kept_def)
    then show ?thesis using same_config_relay [OF _ cfg subset_refl] mem' by blast
  qed
  then show ?thesis unfolding turn using ok new by (auto simp: running_ok_def dest: subsetD [OF set_update_subset_insert])
qed (use ok in \<open>auto simp: take_turn_def Let_def\<close>)

lemma srv_Reload_domains: "srv_Reload env es s = Ok s' \<Longrightarrow> sv_localDomains s' = sv_localDomains s"
  by (auto simp: srv_Reload_def set_authr_def Let_def split: prod.splits sum.splits if_splits)

lemma apply_reload_ok:
  assumes "running_ok doms st" "sv_localDomains s = doms"
  shows "running_ok doms (apply_reload s st)"
  using assms unfolding running_ok_def slot_ok_def apply_reload_def
  by (auto intro: conn_inv simp: relay_ok_def)

lemma signalHandler_ok:
  assumes "running_ok doms st"
  shows "running_ok doms (signalHandler env sig st)"
proof (cases sig)
  case SIGHUP
  have "running_ok doms (st\<lparr>rs_shared := (rs_shared st)\<lparr>sh_dinfo := db\<rparr>\<rparr>)" "running_ok doms (st\<lparr>rs_down := True\<rparr>)" for db
    using assms by (auto simp: running_ok_def)
  then show ?thesis using SIGHUP assms srv_Reload_domains [of "si_reload env" "si_alias_text env" "rs_server st"]
    by (auto simp: running_ok_def Let_def intro!: apply_reload_ok [unfolded running_ok_def] split: prod.split option.split sum.split)
qed (use assms in \<open>auto simp: running_ok_def\<close>)

lemma server_step_ok: "running_ok doms st \<Longrightarrow> running_ok doms (server_step ev st)"
proof (cases ev)
  case (Accepted mode now addr r env)
  moreover assume "running_ok doms st"
  ultimately show ?thesis using accept_slot_ok [of "rs_server st" mode now addr r env] by (auto simp: running_ok_def)
next
  case (Turn i env)
  moreover assume "running_ok doms st"
  ultimately show ?thesis using take_turn_ok [of doms st i env] by simp
next
  case (Reloaded env es)
  moreover assume "running_ok doms st"
  ultimately show ?thesis using apply_reload_ok [of doms st] srv_Reload_domains [of env es "rs_server st"]
    by (auto simp: running_ok_def split: sum.split)
next
  case (Signalled env sig)
  moreover assume "running_ok doms st"
  ultimately show ?thesis using signalHandler_ok [of doms st env sig] by simp
qed (auto simp: running_ok_def)

lemma server_run_ok: "running_ok doms st \<Longrightarrow> running_ok doms (server_run evs st)"
  unfolding server_run_def by (induction evs arbitrary: st) (simp_all del: server_step.simps add: server_step_ok)

lemma started_server_ok: "running_ok (sv_localDomains s) (started_server s db q)"
  by (simp add: running_ok_def started_server_def)



section \<open>An example session\<close>

text \<open>A turn that answers without an error, when nothing fails to be written.\<close>

lemma handle_turn_reply:
  assumes "ce_now env \<le> c_deadline c" "readCommand (tl_unicode (ce_text env)) (c_reader c) = (Ok (verb, params), r)"
    and "verb \<notin> {''QUIT'', ''GET'', ''POST'', ''CONNECT''}"
    and "run_command env verb params (c\<lparr>c_reader := r\<rparr>) sh = (Reply code msg, c1, sh1)"
    and "0 < code" "code < 400" "c_broken c1 = None" "ce_wr env 2 = \<lparr>wr_mid = None, wr_flush = None\<rparr>"
  shows "handle_turn env n c sh = (None, n, c1\<lparr>c_out := c_out c1 @ [response_text code msg], c_broken := None\<rparr>, sh1)"
  using assms by (simp add: handle_turn_def Let_def writeResponse_def w_write_def)

lemma char_of_nat_eq2: "c = char_of (numeral k :: nat) \<longleftrightarrow> numeral k mod 256 = byte c"
  using char_of_nat_eq by metis

lemma ex_scan: "scan_word ''<>'' = Some ''<>''" "scan_word ''<a@d>'' = Some ''<a@d>''"
  by (simp_all add: scan_word_def runes_ascii is_ascii_def is_ascii_byte_def IsSpace_def encode_rune_def go_eval)

lemma ex_trim: "TrimSpace ''c'' = ''c''" "Fields ''c'' = [''c'']"
  by (simp_all add: go_eval Fields_def chunks_ascii is_ascii_def is_ascii_byte_def)

lemma ex_prefix:
  "HasPrefix (ToLower (tl_unicode ascii_text) ''FROM:<>'') ''from:''" "HasPrefix (ToLower (tl_unicode ascii_text) ''TO:<a@d>'') ''to:''"
  by (simp_all add: go_eval char_of_nat_eq2)

lemma ex_addr: "DomainToUnicode ascii_text ''a@d'' = (''a@d'', None)"  "Addr ascii_text ''a@d'' = (''a@d'', None)"
  by (simp_all add: go_eval)

lemma ex_verify: "\<exists>v. dkimVerify ex_cmd (c\<lparr>c_data := ''x'' @ [LF]\<rparr>) = Some (c\<lparr>c_data := ''x'' @ [LF], dkimVerifyResult := v\<rparr>)"
proof -
  have "ToCRLF (''x'' @ [LF]) = ''x'' @ [CR, LF]" by (simp add: ToCRLF_def go_eval)
  moreover have "\<exists>e. parseMessage (''x'' @ [CR, LF]) = Err e" by (simp add: parseMessage_def parseHeader_def is_cont_def go_eval Let_def)
  ultimately show ?thesis by (auto simp: dkimVerify_def VerifyMessage_def) 
qed

definition ex_backend :: Backend where
  "ex_backend = \<lparr>be_Authenticate = (\<lambda>_ _. Ok False), be_Exists = (\<lambda>_. Ok True), be_Reload = None\<rparr>"

definition ex_server :: Server where
  "ex_server = set_authr (Register NewAuthenticator ''d'' ex_backend) (srv_AddDomain ''d'' (NewServer\<lparr>sv_MaxDataSize := 1000\<rparr>))"

lemma ex_local:
  assumes "authr c = sv_authr ex_server" "aliasesR c = sv_aliasesR ex_server"
  shows "localUserExists ex_cmd c ''a@d'' = Ok True"
proof -
  have r: "SuffixSep (aliasesR c) = []" "DropChars (aliasesR c) = []" "ResolveHook (aliasesR c) = []" "al_aliases (aliasesR c) = []"
    using assms(2) by (simp_all add: ex_server_def set_authr_def srv_AddDomain_def AddDomain_def NewServer_def NewResolver_def)
  have "RemoveDropsAndSuffix ascii_text (aliasesR c) ''a@d'' = ''a@d''"
    using r by (simp add: RemoveDropsAndSuffix_def go_eval removeAllAfter_def removeChars_def explode_runes_def Let_def)
  moreover have "\<not> Exists ascii_text h (aliasesR c) ''a@d''" for h
    using r by (simp add: Exists_def lookup_def runResolveHook_def found_def Let_def)
  moreover have "auth_Exists (authr c) ''a'' ''d'' = Ok True"
    using assms(1) by (simp add: auth_Exists_def ask_def ex_server_def set_authr_def Register_def ex_backend_def NewAuthenticator_def)
  ultimately show ?thesis by (simp add: localUserExists_def ex_cmd_def go_eval)
qed

definition ex_input :: string where
  "ex_input = ''EHLO c'' @ [CR, LF] @ ''MAIL FROM:<>'' @ [CR, LF] @ ''RCPT TO:<a@d>'' @ [CR, LF] @ ''DATA'' @ [CR, LF] @ ''x'' @ [CR, LF] @ ''.'' @ [CR, LF]"

definition rest_of :: "nat \<Rightarrow> reader" where
  "rest_of n = \<lparr>r_bytes = drop n ex_input, r_end = EOF\<rparr>"

lemma ex_read:
  "readCommand (tl_unicode ascii_text) (rest_of 0) = (Ok (''EHLO'', ''c''), rest_of 8)"
  "readCommand (tl_unicode ascii_text) (rest_of 8) = (Ok (''MAIL'', ''FROM:<>''), rest_of 22)"
  "readCommand (tl_unicode ascii_text) (rest_of 22) = (Ok (''RCPT'', ''TO:<a@d>''), rest_of 37)"
  "readCommand (tl_unicode ascii_text) (rest_of 37) = (Ok (''DATA'', []), rest_of 43)"
  by (simp_all add: rest_of_def ex_input_def readCommand_def readLine_def ReadLine_def bufio_size_def go_eval drop_cr_def Let_def)

lemma ex_EHLO: "run_command ex_cmd ''EHLO'' ''c'' c sh = (case EHLO ''c'' c of (res, c') \<Rightarrow> (res, c', sh))"
  "\<exists>msg. EHLO ''c'' c = (Reply 250 msg, c\<lparr>ehloDomain := ''c'', isESMTP := True\<rparr>)"
  by (simp_all add: run_command_def EHLO_def ex_trim)

lemma ex_MAIL:
  assumes "\<not> IsSubmission (c_mode c)"
  shows "\<exists>msg. run_command ex_cmd ''MAIL'' ''FROM:<>'' c sh = (Reply 250 msg, (resetEnvelope c)\<lparr>mailFrom := ''<>''\<rparr>, sh)"
proof -
  have "ce_text ex_cmd = ascii_text" by (simp add: ex_cmd_def)
  moreover have "ReplaceAll ''<>'' '' '' [] = ''<>''" by (simp add: go_eval ReplaceAll_def)
  ultimately show ?thesis using assms ex_prefix(1) ex_scan(1) by (simp add: run_command_def MAIL_def Let_def)
qed

lemma ex_RCPT:
  assumes "authr c = sv_authr ex_server" "aliasesR c = sv_aliasesR ex_server" "localDomains c = Some (sv_localDomains ex_server)"
    and "mailFrom c = ''<>''" "rcptTo c = []"
  shows "\<exists>msg. run_command ex_cmd ''RCPT'' ''TO:<a@d>'' c sh = (Reply 250 msg, c\<lparr>rcptTo := [''a@d'']\<rparr>, sh)"
proof -
  have t: "ce_text ex_cmd = ascii_text" "ce_ParseAddress ex_cmd ''<a@d>'' = Ok ''a@d''" by (simp_all add: ex_cmd_def)
  have "DomainIn ''a@d'' (localDomains c)"
    using assms(3) by (simp add: ex_server_def set_authr_def srv_AddDomain_def NewServer_def DomainIn_def go_eval)
  then show ?thesis using assms t ex_prefix(2) ex_scan(2) ex_addr ex_local [OF assms(1,2)]
    by (simp add: run_command_def RCPT_def rcpt_local_def)
qed

definition ex_cmd_for :: "string \<Rightarrow> unit cmd_env" where
  "ex_cmd_for p = ex_cmd\<lparr>ce_codec := ex_msg_codec (message_of (ex_dsn_item p))\<rparr>"

lemma ex_cmd_for_fields:
  "ce_codec (ex_cmd_for p) = ex_msg_codec (message_of (ex_dsn_item p))" "ce_queue (ex_cmd_for p) = ex_put"
  "ce_post_missing (ex_cmd_for p)" "checkData (ex_cmd_for p) d = None" "ce_wr (ex_cmd_for p) k = \<lparr>wr_mid = None, wr_flush = None\<rparr>"
  "ce_text (ex_cmd_for p) = ascii_text" "ce_now (ex_cmd_for p) = 0"
  by (simp_all add: ex_cmd_for_def ex_cmd_def checkData_def)

lemma ex_cmd_for_same:
  "addReceivedHeader (ex_cmd_for p) c = addReceivedHeader ex_cmd c" "dkimVerify (ex_cmd_for p) c = dkimVerify ex_cmd c"
  by (simp_all add: ex_cmd_for_def addReceivedHeader_def received_header_def dkimVerify_def cong: option.case_cong)

lemma ex_DATA_turn:
  assumes "ehloDomain c \<noteq> []" "mailFrom c = ''<>''" "rcptTo c = [''a@d'']" "\<not> completedAuth c" "c_broken c = None"
    and "c_reader c = rest_of 43" "maxDataSize c = 1000" "sh_queue sh = ex_queue"
  shows "\<exists>p msg c' q'. run_command (ex_cmd_for p) ''DATA'' [] c sh
      = (Reply 250 msg, c', sh\<lparr>sh_queue := q', sh_started := sh_started sh @ [ex_dsn_item p]\<rparr>) \<and> c_broken c' = None"
proof -
  define c1 where "c1 = c\<lparr>c_out := c_out c @ [response_text 354 ''You suddenly realize it is unnaturally quiet''], c_broken := None\<rparr>"
  define c2 where "c2 = c1\<lparr>c_reader := \<lparr>r_bytes = [], r_end = EOF\<rparr>\<rparr>"
  have w: "writeResponse (ce_wr (ex_cmd_for p) 0) 354 ''You suddenly realize it is unnaturally quiet'' c = (None, c1)" for p
    using assms(5) by (simp add: writeResponse_def w_write_def ex_cmd_for_fields Let_def c1_def)
  have "readUntilDot \<lparr>r_bytes = ''x'' @ [CR, LF] @ ''.'' @ [CR, LF], r_end = EOF\<rparr> 1000 = (''x'' @ [LF], None, \<lparr>r_bytes = [], r_end = EOF\<rparr>)"
    using readUntilDot_wire [of "[''x'']" 1000 "[]" EOF] by (simp add: wire_line_def plain_byte_def wire_def unwire_def unstuff_def)
  then have r: "readUntilDot (c_reader c1) (maxDataSize c1) = (''x'' @ [LF], None, \<lparr>r_bytes = [], r_end = EOF\<rparr>)"
    using assms(6,7) by (simp add: c1_def rest_of_def ex_input_def)
  obtain v where v: "dkimVerify ex_cmd (c2\<lparr>c_data := ''x'' @ [LF]\<rparr>) = Some (c2\<lparr>c_data := ''x'' @ [LF], dkimVerifyResult := v\<rparr>)"
    using ex_verify by blast
  let ?c3 = "c2\<lparr>c_data := ''x'' @ [LF], dkimVerifyResult := v\<rparr>"
  obtain p where p: "addReceivedHeader ex_cmd ?c3 = ?c3\<lparr>c_data := p\<rparr>" using addReceivedHeader_suffix by metis
  obtain q' where q: "q_Put (ex_msg_codec (message_of (ex_dsn_item p))) ex_put ex_queue ''<>'' [''a@d''] p
     = (Ok ''k'', q', Some (ex_dsn_item p))" using ex_dsn_put by blast
  have m: "mailFrom ?c3 = ''<>''" "rcptTo ?c3 = [''a@d'']" "\<not> completedAuth c2" "c_broken ?c3 = None"
    using assms by (simp_all add: c2_def c1_def)
  have d: "DATA (ex_cmd_for p) c sh = data_process (ex_cmd_for p) (c2\<lparr>c_data := ''x'' @ [LF]\<rparr>) sh"
    using w [of p] r assms(1-3) by (simp add: DATA_def c2_def) (cases c1, simp)
  have "\<exists>msg c'. data_process (ex_cmd_for p) (c2\<lparr>c_data := ''x'' @ [LF]\<rparr>) sh
      = (Reply 250 msg, c', sh\<lparr>sh_queue := q', sh_started := sh_started sh @ [ex_dsn_item p]\<rparr>) \<and> c_broken c' = None"
    using m p q v assms(8) by (simp add: data_process_def ex_cmd_for_fields ex_cmd_for_same data_queue_def runPostDataHook_def Let_def resetEnvelope_def)
  moreover have "run_command (ex_cmd_for p) ''DATA'' [] c sh = DATA (ex_cmd_for p) c sh" by (simp add: run_command_def)
  ultimately show ?thesis unfolding d [symmetric] by metis
qed

definition ex_running :: "unit running" where
  "ex_running = started_server ex_server \<lparr>di_store = (), di_info = []\<rparr> ex_queue"

definition ex_accept :: "unit event" where
  "ex_accept = Accepted \<lparr>IsSubmission = False, mode_TLS = False\<rparr> 0 (OtherAddr ''r'') (rest_of 0)
     \<lparr>st_tls = Err [], st_ParseIP = (\<lambda>_. None), st_wr = \<lparr>wr_mid = None, wr_flush = None\<rparr>\<rparr>"

lemma ex_turn:
  assumes "rs_slots st = [\<lparr>sl_conn = c, sl_errs = n, sl_end = None, sl_turns = ts\<rparr>]" "\<not> rs_down st"
    and "handle_turn env n c (rs_shared st) = (None, n, c', sh')"
  shows "server_step (Turn 0 env) st =
    st\<lparr>rs_shared := sh', rs_slots := [\<lparr>sl_conn = c', sl_errs = n, sl_end = None, sl_turns = ts @ [(env, c)]\<rparr>], rs_down := False\<rparr>"
  using assms by (simp add: take_turn_def)

definition ex_ready :: "nat \<Rightarrow> Conn \<Rightarrow> bool" where
  "ex_ready n c \<longleftrightarrow>
     authr c = sv_authr ex_server \<and> aliasesR c = sv_aliasesR ex_server \<and> localDomains c = Some (sv_localDomains ex_server) \<and>
     \<not> completedAuth c \<and> c_broken c = None \<and> c_reader c = rest_of n \<and> maxDataSize c = 1000 \<and> 0 \<le> c_deadline c \<and>
     \<not> IsSubmission (c_mode c)"

lemma ex_cmd_fields: "ce_text ex_cmd = ascii_text" "ce_now ex_cmd = 0" "ce_wr ex_cmd k = \<lparr>wr_mid = None, wr_flush = None\<rparr>"
  by (simp_all add: ex_cmd_def)

lemma ex_turns:
  "ex_ready 0 c \<Longrightarrow> \<exists>c'. handle_turn ex_cmd 0 c sh = (None, 0, c', sh) \<and> ex_ready 8 c' \<and> ehloDomain c' = ''c''"
  "ex_ready 8 c \<Longrightarrow> \<exists>c'. handle_turn ex_cmd 0 c sh = (None, 0, c', sh) \<and> ex_ready 22 c' \<and> ehloDomain c' = ehloDomain c \<and>
     mailFrom c' = ''<>'' \<and> rcptTo c' = []"
  "\<lbrakk>ex_ready 22 c; mailFrom c = ''<>''; rcptTo c = []\<rbrakk> \<Longrightarrow>
     \<exists>c'. handle_turn ex_cmd 0 c sh = (None, 0, c', sh) \<and> ex_ready 37 c' \<and> ehloDomain c' = ehloDomain c \<and> mailFrom c' = ''<>'' \<and> rcptTo c' = [''a@d'']"
proof -
  assume r: "ex_ready 0 c"
  obtain m where e: "EHLO ''c'' (c\<lparr>c_reader := rest_of 8\<rparr>) = (Reply 250 m, c\<lparr>c_reader := rest_of 8, ehloDomain := ''c'', isESMTP := True\<rparr>)"
    using ex_EHLO(2) [of "c\<lparr>c_reader := rest_of 8\<rparr>"] by auto
  have "run_command ex_cmd ''EHLO'' ''c'' (c\<lparr>c_reader := rest_of 8\<rparr>) sh = (Reply 250 m, c\<lparr>c_reader := rest_of 8, ehloDomain := ''c'', isESMTP := True\<rparr>, sh)"
    unfolding ex_EHLO(1) e by simp
  from handle_turn_reply [OF _ _ _ this, where n = 0] show "\<exists>c'. handle_turn ex_cmd 0 c sh = (None, 0, c', sh) \<and> ex_ready 8 c' \<and> ehloDomain c' = ''c''"
    using r ex_read(1) by (simp add: ex_ready_def ex_cmd_fields)
next
  assume r: "ex_ready 8 c"
  then obtain m where "run_command ex_cmd ''MAIL'' ''FROM:<>'' (c\<lparr>c_reader := rest_of 22\<rparr>) sh
      = (Reply 250 m, (resetEnvelope (c\<lparr>c_reader := rest_of 22\<rparr>))\<lparr>mailFrom := ''<>''\<rparr>, sh)"
    using ex_MAIL [of "c\<lparr>c_reader := rest_of 22\<rparr>" sh] by (auto simp: ex_ready_def)
  from handle_turn_reply [OF _ _ _ this, where n = 0] show "\<exists>c'. handle_turn ex_cmd 0 c sh = (None, 0, c', sh) \<and> ex_ready 22 c' \<and>
      ehloDomain c' = ehloDomain c \<and> mailFrom c' = ''<>'' \<and> rcptTo c' = []"
    using r ex_read(2) by (simp add: ex_ready_def ex_cmd_fields resetEnvelope_def)
next
  assume r: "ex_ready 22 c" "mailFrom c = ''<>''" "rcptTo c = []"
  then obtain m where "run_command ex_cmd ''RCPT'' ''TO:<a@d>'' (c\<lparr>c_reader := rest_of 37\<rparr>) sh
      = (Reply 250 m, c\<lparr>c_reader := rest_of 37, rcptTo := [''a@d'']\<rparr>, sh)"
    using ex_RCPT [of "c\<lparr>c_reader := rest_of 37\<rparr>" sh] by (auto simp: ex_ready_def)
  from handle_turn_reply [OF _ _ _ this, where n = 0] show "\<exists>c'. handle_turn ex_cmd 0 c sh = (None, 0, c', sh) \<and> ex_ready 37 c' \<and>
      ehloDomain c' = ehloDomain c \<and> mailFrom c' = ''<>'' \<and> rcptTo c' = [''a@d'']"
    using r ex_read(3) by (simp add: ex_ready_def ex_cmd_fields)
qed

lemma ex_last_turn:
  assumes "ex_ready 37 c" "ehloDomain c = ''c''" "mailFrom c = ''<>''" "rcptTo c = [''a@d'']" "sh_queue sh = ex_queue"
  shows "\<exists>p c' sh'. handle_turn (ex_cmd_for p) 0 c sh = (None, 0, c', sh') \<and> sh_started sh' = sh_started sh @ [ex_dsn_item p]"
proof -
  obtain p m c1 q' where d: "run_command (ex_cmd_for p) ''DATA'' [] (c\<lparr>c_reader := rest_of 43\<rparr>) sh
      = (Reply 250 m, c1, sh\<lparr>sh_queue := q', sh_started := sh_started sh @ [ex_dsn_item p]\<rparr>)" "c_broken c1 = None"
    using ex_DATA_turn [of "c\<lparr>c_reader := rest_of 43\<rparr>" sh] assms by (auto simp: ex_ready_def)
  from handle_turn_reply [OF _ _ _ d(1), where n = 0] show ?thesis
    using assms(1) ex_read(4) d(2) by (intro exI [of _ p]) (simp add: ex_ready_def ex_cmd_for_fields)
qed

lemma ex_three_turns:
  "\<exists>c ts. server_run [ex_accept, Turn 0 ex_cmd, Turn 0 ex_cmd, Turn 0 ex_cmd] ex_running
       = ex_running\<lparr>rs_slots := [\<lparr>sl_conn = c, sl_errs = 0, sl_end = None, sl_turns = ts\<rparr>]\<rparr> \<and>
     ex_ready 37 c \<and> ehloDomain c = ''c'' \<and> mailFrom c = ''<>'' \<and> rcptTo c = [''a@d'']"
proof -
  define sh where "sh = rs_shared ex_running"
  have "\<exists>c0. server_step ex_accept ex_running = ex_running\<lparr>rs_slots := [\<lparr>sl_conn = c0, sl_errs = 0, sl_end = None, sl_turns = []\<rparr>]\<rparr> \<and> ex_ready 0 c0"
    by (simp add: ex_accept_def ex_running_def started_server_def accept_slot_def serve_conn_def start_conn_def printfLine_def
        w_write_def ex_ready_def Let_def) (simp add: ex_server_def set_authr_def srv_AddDomain_def NewServer_def)
  then obtain c0 where c0: "server_step ex_accept ex_running = ex_running\<lparr>rs_slots := [\<lparr>sl_conn = c0, sl_errs = 0, sl_end = None, sl_turns = []\<rparr>]\<rparr>"
    "ex_ready 0 c0" by blast
  obtain c1 where c1: "handle_turn ex_cmd 0 c0 sh = (None, 0, c1, sh)" "ex_ready 8 c1" "ehloDomain c1 = ''c''"
    using ex_turns(1) [OF c0(2)] by blast
  obtain c2 where c2: "handle_turn ex_cmd 0 c1 sh = (None, 0, c2, sh)" "ex_ready 22 c2" "ehloDomain c2 = ''c''" "mailFrom c2 = ''<>''" "rcptTo c2 = []"
    using ex_turns(2) [OF c1(2)] c1(3) by metis
  obtain c3 where c3: "handle_turn ex_cmd 0 c2 sh = (None, 0, c3, sh)" "ex_ready 37 c3" "ehloDomain c3 = ''c''" "mailFrom c3 = ''<>''" "rcptTo c3 = [''a@d'']"
    using ex_turns(3) [OF c2(2,4,5)] c2(3) by metis
  have same: "ex_running\<lparr>rs_shared := sh, rs_slots := x, rs_down := False\<rparr> = ex_running\<lparr>rs_slots := x\<rparr>" for x
    by (simp add: sh_def ex_running_def started_server_def)
  have "\<not> rs_down ex_running" "rs_shared ex_running = sh" by (simp_all add: sh_def ex_running_def started_server_def)
  then show ?thesis using c0(1) c1(1) c2(1) c3
    by (intro exI [of _ c3] exI [of _ "[(ex_cmd, c0), (ex_cmd, c1), (ex_cmd, c2)]"])
      (simp add: server_run_def ex_turn same del: server_step.simps)
qed

lemma server_run_snoc: "server_run (evs @ [ev]) st = server_step ev (server_run evs st)"
  by (simp add: server_run_def)

lemma ex_session: "\<exists>p. sh_started (rs_shared (server_run
    [ex_accept, Turn 0 ex_cmd, Turn 0 ex_cmd, Turn 0 ex_cmd, Turn 0 (ex_cmd_for p)] ex_running)) = [ex_dsn_item p]"
proof -
  let ?evs = "[ex_accept, Turn 0 ex_cmd, Turn 0 ex_cmd, Turn 0 ex_cmd]"
  obtain c ts where three: "server_run ?evs ex_running = ex_running\<lparr>rs_slots := [\<lparr>sl_conn = c, sl_errs = 0, sl_end = None, sl_turns = ts\<rparr>]\<rparr>"
    "ex_ready 37 c" "ehloDomain c = ''c''" "mailFrom c = ''<>''" "rcptTo c = [''a@d'']"
    using ex_three_turns by blast
  have q: "sh_queue (rs_shared ex_running) = ex_queue" "sh_started (rs_shared ex_running) = []" "\<not> rs_down ex_running"
    by (simp_all add: ex_running_def started_server_def)
  then obtain p c4 sh' where c4: "handle_turn (ex_cmd_for p) 0 c (rs_shared ex_running) = (None, 0, c4, sh')" "sh_started sh' = [ex_dsn_item p]"
    using ex_last_turn [OF three(2-5), of "rs_shared ex_running"] by auto
  have "sh_started (rs_shared (server_run (?evs @ [Turn 0 (ex_cmd_for p)]) ex_running)) = [ex_dsn_item p]"
    unfolding server_run_snoc three(1) using c4 q by (simp add: ex_turn del: server_step.simps)
  then show ?thesis by (intro exI [of _ p]) (simp del: server_step.simps)
qed



end
