(* ===== verification/Config.thy ===== *)
theory Config
  imports GoStrings
begin

text \<open>
  \<open>src/internal/config/config.go\<close>: the configuration of the daemon, from the defaults, the file and
  the command line, in this order. The text format of protocol buffers, the parser of durations and
  the name of the host are parameters.
\<close>

record Config =
  cf_Hostname :: string
  cf_MaxDataSizeMb :: int
  cf_SmtpAddress :: "string list"
  cf_SubmissionAddress :: "string list"
  cf_SubmissionOverTlsAddress :: "string list"
  cf_MonitoringAddress :: string
  cf_MailDeliveryAgentBin :: string
  cf_MailDeliveryAgentArgs :: "string list"
  cf_DataDir :: string
  cf_SuffixSeparators :: "string option"
  cf_DropCharacters :: "string option"
  cf_MailLogPath :: string
  cf_DovecotAuth :: bool
  cf_DovecotUserdbPath :: string
  cf_DovecotClientPath :: string
  cf_HaproxyIncoming :: bool
  cf_MaxQueueItems :: nat
  cf_GiveUpSendAfter :: string

definition empty_Config :: Config where
  "empty_Config =
     \<lparr>cf_Hostname = [], cf_MaxDataSizeMb = 0, cf_SmtpAddress = [], cf_SubmissionAddress = [], cf_SubmissionOverTlsAddress = [],
      cf_MonitoringAddress = [], cf_MailDeliveryAgentBin = [], cf_MailDeliveryAgentArgs = [], cf_DataDir = [],
      cf_SuffixSeparators = None, cf_DropCharacters = None, cf_MailLogPath = [], cf_DovecotAuth = False,
      cf_DovecotUserdbPath = [], cf_DovecotClientPath = [], cf_HaproxyIncoming = False, cf_MaxQueueItems = 0,
      cf_GiveUpSendAfter = []\<rparr>"

definition defaultConfig :: Config where
  "defaultConfig =
     empty_Config\<lparr>cf_MaxDataSizeMb := 50,
       cf_SmtpAddress := [''systemd''], cf_SubmissionAddress := [''systemd''], cf_SubmissionOverTlsAddress := [''systemd''],
       cf_MailDeliveryAgentBin := ''maildrop'', cf_MailDeliveryAgentArgs := [''-f'', ''%from%'', ''-d'', ''%to_user%''],
       cf_DataDir := ''/var/lib/chasquid'', cf_SuffixSeparators := Some ''+'', cf_DropCharacters := Some ''.'',
       cf_MailLogPath := ''<syslog>'', cf_MaxQueueItems := 200, cf_GiveUpSendAfter := ''20h''\<rparr>"

definition override :: "Config \<Rightarrow> Config \<Rightarrow> Config" where
  "override c x =
     \<lparr>cf_Hostname = (if cf_Hostname x \<noteq> [] then cf_Hostname x else cf_Hostname c),
      cf_MaxDataSizeMb = (if 0 < cf_MaxDataSizeMb x then cf_MaxDataSizeMb x else cf_MaxDataSizeMb c),
      cf_SmtpAddress = (if 0 < length (cf_SmtpAddress x) then cf_SmtpAddress x else cf_SmtpAddress c),
      cf_SubmissionAddress = (if 0 < length (cf_SubmissionAddress x) then cf_SubmissionAddress x else cf_SubmissionAddress c),
      cf_SubmissionOverTlsAddress =
        (if 0 < length (cf_SubmissionOverTlsAddress x) then cf_SubmissionOverTlsAddress x else cf_SubmissionOverTlsAddress c),
      cf_MonitoringAddress = (if cf_MonitoringAddress x \<noteq> [] then cf_MonitoringAddress x else cf_MonitoringAddress c),
      cf_MailDeliveryAgentBin = (if cf_MailDeliveryAgentBin x \<noteq> [] then cf_MailDeliveryAgentBin x else cf_MailDeliveryAgentBin c),
      cf_MailDeliveryAgentArgs =
        (if 0 < length (cf_MailDeliveryAgentArgs x) then cf_MailDeliveryAgentArgs x else cf_MailDeliveryAgentArgs c),
      cf_DataDir = (if cf_DataDir x \<noteq> [] then cf_DataDir x else cf_DataDir c),
      cf_SuffixSeparators = (if cf_SuffixSeparators x \<noteq> None then cf_SuffixSeparators x else cf_SuffixSeparators c),
      cf_DropCharacters = (if cf_DropCharacters x \<noteq> None then cf_DropCharacters x else cf_DropCharacters c),
      cf_MailLogPath = (if cf_MailLogPath x \<noteq> [] then cf_MailLogPath x else cf_MailLogPath c),
      cf_DovecotAuth = (if cf_DovecotAuth x then True else cf_DovecotAuth c),
      cf_DovecotUserdbPath = (if cf_DovecotUserdbPath x \<noteq> [] then cf_DovecotUserdbPath x else cf_DovecotUserdbPath c),
      cf_DovecotClientPath = (if cf_DovecotClientPath x \<noteq> [] then cf_DovecotClientPath x else cf_DovecotClientPath c),
      cf_HaproxyIncoming = (if cf_HaproxyIncoming x then True else cf_HaproxyIncoming c),
      cf_MaxQueueItems = (if 0 < cf_MaxQueueItems x then cf_MaxQueueItems x else cf_MaxQueueItems c),
      cf_GiveUpSendAfter = (if cf_GiveUpSendAfter x \<noteq> [] then cf_GiveUpSendAfter x else cf_GiveUpSendAfter c)\<rparr>"

record config_env =
  ge_ReadFile :: "string \<Rightarrow> (string, string) result"
  ge_Unmarshal :: "string \<Rightarrow> (string, Config) result"
  ge_Hostname :: "(string, string) result"
  ge_ParseDuration :: "string \<Rightarrow> (string, int) result"

datatype config_error = ReadConfig string string | ParseConfig string | ParseOverride string | NoHostname string | InvalidGiveUp string string

definition conf_Load :: "config_env \<Rightarrow> string \<Rightarrow> string \<Rightarrow> (config_error, Config) result" where
  "conf_Load env path overrides =
     (case ge_ReadFile env path of
        Inl e \<Rightarrow> Err (ReadConfig path e)
      | Inr buf \<Rightarrow>
          (case ge_Unmarshal env buf of
             Inl e \<Rightarrow> Err (ParseConfig e)
           | Inr fromFile \<Rightarrow>
               (let c = override defaultConfig fromFile in
                case ge_Unmarshal env overrides of
                  Inl e \<Rightarrow> Err (ParseOverride e)
                | Inr fromOverrides \<Rightarrow>
                    (let c = override c fromOverrides in
                     and_then
                       (if cf_Hostname c = [] then
                          (case ge_Hostname env of Inl e \<Rightarrow> Err (NoHostname e) | Inr h \<Rightarrow> Ok (c\<lparr>cf_Hostname := h\<rparr>))
                        else Ok c)
                       (\<lambda>c. case ge_ParseDuration env (cf_GiveUpSendAfter c) of
                              Inl e \<Rightarrow> Err (InvalidGiveUp (cf_GiveUpSendAfter c) e)
                            | Inr _ \<Rightarrow> Ok c)))))"

text \<open>The value next to an error is 0, but the string has been checked when it was loaded.\<close>

definition GiveUpSendAfterDuration :: "config_env \<Rightarrow> Config \<Rightarrow> int" where
  "GiveUpSendAfterDuration env c = (case ge_ParseDuration env (cf_GiveUpSendAfter c) of Inl _ \<Rightarrow> 0 | Inr d \<Rightarrow> d)"

section \<open>Which value wins\<close>

text \<open>The first value that is set.\<close>

fun first_set :: "'a list list \<Rightarrow> 'a list" where
  "first_set [] = []"
| "first_set (x # xs) = (if x \<noteq> [] then x else first_set xs)"


definition ex_config :: config_env where
  "ex_config =
     \<lparr>ge_ReadFile = (\<lambda>_. Ok ''file''),
      ge_Unmarshal = (\<lambda>s. Ok (if s = ''file'' then empty_Config\<lparr>cf_DataDir := ''/d'', cf_MaxQueueItems := 7, cf_DovecotAuth := True\<rparr>
                              else empty_Config\<lparr>cf_DataDir := ''/e''\<rparr>)),
      ge_Hostname = Ok ''h'', ge_ParseDuration = (\<lambda>s. if s = ''20h'' then Ok 72000 else Err ''bad'')\<rparr>"


end
