(* ===== verification/Dovecot.thy ===== *)
theory Dovecot
  imports Auth GoIO
begin

text \<open>
  \<open>src/internal/dovecot/dovecot.go\<close>: the client of Dovecot's authentication service. A connection
  is what the service will send, as a reader; the model returns what the client wrote. The
  outcomes of connecting and of each write are parameters.
\<close>

section \<open>Connections\<close>

record dove_env =
  dv_dial :: "string \<Rightarrow> (string, reader) result"
  dv_write :: "string \<Rightarrow> string option"
  dv_pid :: nat

record dove_auth =
  da_userdb :: string
  da_client :: string

definition defaultUserdbPaths :: "string list" where
  "defaultUserdbPaths =
     [''/var/run/dovecot/auth-chasquid-userdb'', ''/var/run/dovecot/auth-userdb'']"

definition defaultClientPaths :: "string list" where
  "defaultClientPaths =
     [''/var/run/dovecot/auth-chasquid-client'', ''/var/run/dovecot/auth-client'']"

definition NewAuth :: "string \<Rightarrow> string \<Rightarrow> dove_auth" where
  "NewAuth u c = \<lparr>da_userdb = u, da_client = c\<rparr>"

definition dove_String :: "unicode \<Rightarrow> dove_auth \<Rightarrow> string" where
  "dove_String u a = ''DovecotAuth('' @ Quote u (da_userdb a) @ '', '' @ Quote u (da_client a) @ '')''"

definition canDial :: "dove_env \<Rightarrow> string \<Rightarrow> bool" where
  "canDial env path = is_ok (dv_dial env path)"

definition pick_addr :: "dove_env \<Rightarrow> string \<Rightarrow> string list \<Rightarrow> string" where
  "pick_addr env addr paths =
     (if addr \<noteq> [] then addr
      else case filter (canDial env) paths of [] \<Rightarrow> [] | p # _ \<Rightarrow> p)"

definition getAddrs :: "dove_env \<Rightarrow> dove_auth \<Rightarrow> (string, string \<times> string) result \<times> dove_auth" where
  "getAddrs env a =
     (let u = pick_addr env (da_userdb a) defaultUserdbPaths; a1 = a\<lparr>da_userdb := u\<rparr> in
      if u = [] then (Err ''unable to find userdb socket'', a1)
      else
        (let c = pick_addr env (da_client a) defaultClientPaths; a2 = a1\<lparr>da_client := c\<rparr> in
         if c = [] then (Err ''unable to find client socket'', a2) else (Ok (u, c), a2)))"

definition dove_Check :: "dove_env \<Rightarrow> dove_auth \<Rightarrow> string option \<times> dove_auth" where
  "dove_Check env a =
     (case getAddrs env a of
        (Inl e, a') \<Rightarrow> (Some e, a')
      | (Inr (u, c), a') \<Rightarrow>
          ((if canDial env u \<and> canDial env c then None else Some ''failed to connect to dovecot''), a'))"

definition isUsernameSafe :: "string \<Rightarrow> bool" where
  "isUsernameSafe user \<longleftrightarrow> (\<forall>r \<in> set (runes user). \<not> IsSpace r)"

definition expect_prefix :: "reader \<Rightarrow> string \<Rightarrow> (string, unit) result \<times> reader" where
  "expect_prefix conn pre =
     (case tp_ReadLine conn of
        (Inl e, conn') \<Rightarrow> (Err ''read error'', conn')
      | (Inr resp, conn') \<Rightarrow> ((if HasPrefix resp pre then Ok () else Err ''unexpected''), conn'))"

section \<open>Requests\<close>

definition version_line :: string where
  "version_line = ''VERSION'' @ [TAB] @ ''1'' @ [TAB] @ ''1'' @ [LF]"

definition user_request :: "string \<Rightarrow> string" where
  "user_request user = ''USER'' @ [TAB] @ ''1'' @ [TAB] @ user @ [TAB] @ ''service=smtp'' @ [LF]"

definition auth_resp :: "string \<Rightarrow> string \<Rightarrow> string" where
  "auth_resp user passwd = b64_encode (user @ [NUL] @ user @ [NUL] @ passwd)"

definition auth_request :: "string \<Rightarrow> string \<Rightarrow> string" where
  "auth_request user passwd =
     ''AUTH'' @ [TAB] @ ''1'' @ [TAB] @ ''PLAIN'' @ [TAB] @ ''service=smtp'' @ [TAB] @ ''secured'' @ [TAB]
     @ ''no-penalty'' @ [TAB] @ ''nologin'' @ [TAB] @ ''resp='' @ auth_resp user passwd @ [LF]"

text \<open>The answer to a request, by its prefix.\<close>

definition read_answer :: "reader \<Rightarrow> string \<Rightarrow> string \<Rightarrow> (auth_error, bool) result" where
  "read_answer conn yes no =
     (case fst (tp_ReadLine conn) of
        Inl e \<Rightarrow> Err (AuthErr ''error receiving response'')
      | Inr resp \<Rightarrow>
          if HasPrefix resp yes then Ok True
          else if HasPrefix resp no then Ok False
          else Err (AuthErr ''invalid response''))"

text \<open>One exchange on the userdb socket: the result, and what was written until then.\<close>

definition user_exchange :: "dove_env \<Rightarrow> string \<Rightarrow> string \<Rightarrow> (auth_error, bool) result \<times> string" where
  "user_exchange env u user =
     (case dv_dial env u of
        Inl e \<Rightarrow> (Err (AuthErr e), [])
      | Inr conn \<Rightarrow>
          (case expect_prefix conn (''VERSION'' @ [TAB] @ ''1'') of
             (Inl e, _) \<Rightarrow> (Err (AuthErr ''error receiving version''), [])
           | (Inr _, conn1) \<Rightarrow>
               (case expect_prefix conn1 (''SPID'' @ [TAB]) of
                  (Inl e, _) \<Rightarrow> (Err (AuthErr ''error receiving SPID''), [])
                | (Inr _, conn2) \<Rightarrow>
                    (case dv_write env version_line of
                       Some e \<Rightarrow> (Err (AuthErr e), [])
                     | None \<Rightarrow>
                         (case dv_write env (user_request user) of
                            Some e \<Rightarrow> (Err (AuthErr e), version_line)
                          | None \<Rightarrow>
                              (read_answer conn2 (''USER'' @ [TAB] @ ''1'' @ [TAB]) (''NOTFOUND'' @ [TAB]),
                               version_line @ user_request user))))))"

definition dove_Exists ::
  "dove_env \<Rightarrow> dove_auth \<Rightarrow> string \<Rightarrow> ((auth_error, bool) result \<times> string) \<times> dove_auth" where
  "dove_Exists env a user =
     (if \<not> isUsernameSafe user then ((Err (AuthErr ''username not safe (contains spaces)''), []), a)
      else case getAddrs env a of
          (Inl e, a') \<Rightarrow> ((Err (AuthErr e), []), a')
        | (Inr (u, _), a') \<Rightarrow> (user_exchange env u user, a'))"

text \<open>The handshake of the client socket: all lines up to the one that says so.\<close>

function read_handshake :: "reader \<Rightarrow> reader option" where
  "read_handshake conn =
     (case tp_ReadLine conn of
        (Inl e, _) \<Rightarrow> None
      | (Inr resp, conn') \<Rightarrow> if resp = ''DONE'' then Some conn' else read_handshake conn')"
  by pat_completeness auto
termination
  by (relation "measure (\<lambda>conn. length (r_bytes conn))")
    (auto simp: tp_ReadLine_def Let_def split: if_splits)

declare read_handshake.simps [simp del]

definition cpid_lines :: "nat \<Rightarrow> string" where
  "cpid_lines pid = version_line @ ''CPID'' @ [TAB] @ FormatUint pid @ [LF]"

definition auth_exchange ::
  "dove_env \<Rightarrow> string \<Rightarrow> string \<Rightarrow> string \<Rightarrow> (auth_error, bool) result \<times> string" where
  "auth_exchange env c user passwd =
     (case dv_dial env c of
        Inl e \<Rightarrow> (Err (AuthErr e), [])
      | Inr conn \<Rightarrow>
          (case dv_write env (cpid_lines (dv_pid env)) of
             Some e \<Rightarrow> (Err (AuthErr e), [])
           | None \<Rightarrow>
               (case read_handshake conn of
                  None \<Rightarrow> (Err (AuthErr ''error receiving handshake''), cpid_lines (dv_pid env))
                | Some conn1 \<Rightarrow>
                    (case dv_write env (auth_request user passwd) of
                       Some e \<Rightarrow> (Err (AuthErr e), cpid_lines (dv_pid env))
                     | None \<Rightarrow>
                         (read_answer conn1 (''OK'' @ [TAB] @ ''1'') (''FAIL'' @ [TAB] @ ''1''),
                          cpid_lines (dv_pid env) @ auth_request user passwd)))))"

definition dove_Authenticate ::
  "dove_env \<Rightarrow> dove_auth \<Rightarrow> string \<Rightarrow> string \<Rightarrow> ((auth_error, bool) result \<times> string) \<times> dove_auth" where
  "dove_Authenticate env a user passwd =
     (if \<not> isUsernameSafe user then ((Err (AuthErr ''username not safe (contains spaces)''), []), a)
      else case getAddrs env a of
          (Inl e, a') \<Rightarrow> ((Err (AuthErr e), []), a')
        | (Inr (_, c), a') \<Rightarrow> (auth_exchange env c user passwd, a'))"

text \<open>
  The backend the authenticator calls. The addresses the code keeps once it found them are those
  it would find again (\<open>getAddrs_again\<close>), so a backend of a fixed \<open>dove_auth\<close> answers as one that
  keeps them.
\<close>

definition dove_backend :: "dove_env \<Rightarrow> dove_auth \<Rightarrow> Backend" where
  "dove_backend env a =
     \<lparr>be_Authenticate = (\<lambda>u p. fst (fst (dove_Authenticate env a u p))),
      be_Exists = (\<lambda>u. fst (fst (dove_Exists env a u))), be_Reload = None\<rparr>"

lemma getAddrs_again: "fst (getAddrs env (snd (getAddrs env a))) = fst (getAddrs env a)"
  by (auto simp: getAddrs_def pick_addr_def Let_def)

section \<open>Requests cannot be forged\<close>

lemma is_space_byte: "c \<in> {SP, TAB, LF, CR} \<Longrightarrow> IsSpace (byte c)"
  by (auto simp: IsSpace_def)

lemma safe_no_separators: "isUsernameSafe user \<Longrightarrow> TAB \<notin> set user \<and> LF \<notin> set user \<and> SP \<notin> set user"
  using byte_in_runes [of TAB user] byte_in_runes [of LF user] byte_in_runes [of SP user]
    is_space_byte [of TAB] is_space_byte [of LF] is_space_byte [of SP]
  by (auto simp: isUsernameSafe_def)

lemma b64_encode_no_separators: "TAB \<notin> set (b64_encode s) \<and> LF \<notin> set (b64_encode s)"
proof -
  have c: "b64_char n \<noteq> TAB \<and> b64_char n \<noteq> LF" if "n < 64" for n
  proof -
    have "b64_val TAB = None" "b64_val LF = None" by (simp_all add: b64_val_def in_range_def)
    then show ?thesis using b64_val_char [OF that] by (metis option.distinct(1))
  qed
  show ?thesis
    by (induction s rule: b64_encode.induct) (use c in \<open>simp_all add: byte_bounds sextets eq_commute [of _ "b64_char _"]\<close>)
qed


definition ex_dove :: dove_env where
  "ex_dove =
     \<lparr>dv_dial = (\<lambda>path. Ok \<lparr>r_bytes =
          (if path = ''c'' then ''DONE'' @ [LF] @ ''OK'' @ [TAB] @ ''1'' @ [LF]
           else ''VERSION'' @ [TAB] @ ''1'' @ [LF] @ ''SPID'' @ [TAB] @ ''7'' @ [LF]
                @ ''USER'' @ [TAB] @ ''1'' @ [TAB] @ ''x'' @ [LF]), r_end = EOF\<rparr>),
      dv_write = (\<lambda>_. None), dv_pid = 7\<rparr>"


end
