(* ===== verification/Chasquid.thy ===== *)
theory Chasquid
  imports Server Config Dovecot
begin

text \<open>
  \<open>src/chasquid.go\<close>: how the daemon comes up. It loads the configuration, the certificates and the
  domains, opens its databases and the queue, and starts to listen; any error on the way makes it exit
  with a message, which is the \<open>Inl\<close> side here. What the system answers is in one record.
\<close>

section \<open>Loading\<close>

text \<open>An entry of a directory: its name and whether it is a regular file.\<close>

type_synonym dir_entry = "string \<times> bool"

record 's main_env =
  me_config :: config_env
  me_configDir :: string
  me_overrides :: string
  me_chdir :: "string option"
  me_syslog :: "string option"
  me_NewFile :: "string \<Rightarrow> string option"
  me_ReadDir :: "string \<Rightarrow> (string, dir_entry list) result"
  me_Stat :: "string \<Rightarrow> string option"
  me_KeyPair :: "string \<Rightarrow> string \<Rightarrow> (string, string) result"
  me_Glob :: "string \<Rightarrow> (string, string list) result"
  me_MkdirAll :: "string \<Rightarrow> string option"
  me_text :: textlib
  me_kdf :: kdf
  me_users :: userdb_codec
  me_messages :: "Message codec"
  me_fs :: file_system
  me_open :: "string \<Rightarrow> open_result"
  me_alias_text :: "alias_error \<Rightarrow> string"
  me_keys :: key_env
  me_key_text :: "key_error \<Rightarrow> string"
  me_conf_text :: "config_error \<Rightarrow> string"
  me_dovecot :: dove_env
  me_NewStore :: "string \<Rightarrow> (string, 's) result"
  me_get :: "'s get_fn"
  me_ids :: "'s \<Rightarrow> string list"
  me_systemd :: "(string, (string \<times> string list) list) result"
  me_listen :: "string \<Rightarrow> string option"

definition mustReadDir :: "'s main_env \<Rightarrow> string \<Rightarrow> (string, dir_entry list) result" where
  "mustReadDir env path =
     (case me_ReadDir env path of
        Inl e \<Rightarrow> Err (''Error reading '' @ Quote (tl_unicode (me_text env)) path @ '' directory: '' @ e)
      | Inr dirs \<Rightarrow>
          if length dirs = 0 then Err (''No entries found in '' @ Quote (tl_unicode (me_text env)) path)
          else Ok dirs)"

text \<open>The addresses of one mode; \<open>systemd\<close> stands for the listeners that systemd passed.\<close>

fun loadAddresses ::
  "string list \<Rightarrow> string list \<Rightarrow> SocketMode \<Rightarrow> Server \<Rightarrow> (string, nat \<times> Server) result" where
  "loadAddresses [] ls mode s = Ok (0, s)"
| "loadAddresses (addr # addrs) ls mode s =
     (if addr = [] then Err (''If you want to disable '' @ mode_String mode @ '', remove it from the config'')
      else if addr = ''systemd'' then
        and_then (loadAddresses addrs ls mode (AddListeners ls mode s)) (\<lambda>(n, s'). Ok (length ls + n, s'))
      else and_then (loadAddresses addrs ls mode (AddAddr addr mode s)) (\<lambda>(n, s'). Ok (Suc n, s')))"

definition loadCert :: "'s main_env \<Rightarrow> string \<Rightarrow> Server \<Rightarrow> (string, Server) result" where
  "loadCert env dir s =
     (let certPath = path_Join [dir, ''fullchain.pem'']; keyPath = path_Join [dir, ''privkey.pem''] in
      if me_Stat env certPath \<noteq> None then Ok s
      else if me_Stat env keyPath \<noteq> None then Ok s
      else case AddCerts (me_KeyPair env certPath keyPath) s of
          (Some e, _) \<Rightarrow> Err e
        | (None, s') \<Rightarrow> Ok s')"

fun load_keys :: "'s main_env \<Rightarrow> string \<Rightarrow> string list \<Rightarrow> Server \<Rightarrow> (string, Server) result" where
  "load_keys env domain [] s = Ok s"
| "load_keys env domain (pem # pems) s =
     (let selector = TrimSuffix (TrimPrefix (path_Base pem) ''dkim:'') ''.pem'' in
      case AddDKIMSigner (tl_unicode (me_text env)) (me_keys env) domain selector pem s of
        (Some e, _) \<Rightarrow> Err (me_key_text env e)
      | (None, s') \<Rightarrow> load_keys env domain pems s')"

definition loadDKIM :: "'s main_env \<Rightarrow> string \<Rightarrow> string \<Rightarrow> Server \<Rightarrow> (string, nat \<times> Server) result" where
  "loadDKIM env domain dir s =
     and_then (me_Glob env (path_Clean (dir @ ''/dkim:*.pem''))) (\<lambda>pems.
       and_then (load_keys env domain pems s) (\<lambda>s'. Ok (length pems, s')))"

definition loadDomain :: "'s main_env \<Rightarrow> string \<Rightarrow> string \<Rightarrow> Server \<Rightarrow> (string, Server) result" where
  "loadDomain env name dir s =
     (case AddUserDB (me_kdf env) (me_users env) (me_fs env) name (dir @ ''/users'') (srv_AddDomain name s) of
        ((_, Some e), _) \<Rightarrow> Err (''  '' @ name @ '': users file error: '' @ e)
      | ((nusers, None), s1) \<Rightarrow>
          (case srv_AddAliasesFile (me_text env) (me_open env) name (dir @ ''/aliases'') s1 of
             (Inl e, _) \<Rightarrow> Err (''  '' @ name @ '': aliases file error: '' @ me_alias_text env e)
           | (Inr naliases, s2) \<Rightarrow>
               (case loadDKIM env name dir s2 of
                  Inl e \<Rightarrow> Err (''  '' @ name @ '': DKIM loading error: '' @ e)
                | Inr (ndkim, s3) \<Rightarrow> Ok s3)))"

text \<open>The two loops of \<open>main\<close>; a name is normalized before its entry is looked at.\<close>

fun load_certs :: "'s main_env \<Rightarrow> dir_entry list \<Rightarrow> Server \<Rightarrow> (string, Server) result" where
  "load_certs env [] s = Ok s"
| "load_certs env ((name, regular) # infos) s =
     (if regular then load_certs env infos s
      else and_then (loadCert env (path_Join [''certs/'', name]) s) (load_certs env infos))"

fun load_domains :: "'s main_env \<Rightarrow> dir_entry list \<Rightarrow> Server \<Rightarrow> (string, Server) result" where
  "load_domains env [] s = Ok s"
| "load_domains env ((name, regular) # infos) s =
     (case Domain_norm (me_text env) name of
        (_, Some e) \<Rightarrow> Err (''Invalid name '' @ QuoteToASCII (tl_unicode (me_text env)) name @ '': '' @ e)
      | (domain, None) \<Rightarrow>
          if regular then load_domains env infos s
          else and_then (loadDomain env domain (path_Join [''domains'', name]) s) (load_domains env infos))"

definition initMailLog :: "'s main_env \<Rightarrow> string \<Rightarrow> (string, unit) result" where
  "initMailLog env path =
     (let err =
        (if path = ''<syslog>'' then me_syslog env
         else if path = ''<stdout>'' then None
         else if path = ''<stderr>'' then None
         else me_NewFile env path)
      in case err of None \<Rightarrow> Ok () | Some e \<Rightarrow> Err (''Error opening mail log: '' @ e))"

text \<open>That Dovecot does not answer is only a warning, the first result.\<close>

definition loadDovecot :: "dove_env \<Rightarrow> string \<Rightarrow> string \<Rightarrow> Server \<Rightarrow> string option \<times> Server" where
  "loadDovecot env userdb client s =
     (let a = NewAuth userdb client
      in (fst (dove_Check env a), SetAuthFallback (dove_backend env a) s))"

section \<open>The main function\<close>

text \<open>From the configuration to the server with its domains.\<close>

definition configured_server :: "dove_env \<Rightarrow> Config \<Rightarrow> string \<Rightarrow> string \<Rightarrow> Server" where
  "configured_server dove conf sep chars =
     (let s = NewServer\<lparr>sv_Hostname := cf_Hostname conf, sv_MaxDataSize := wrap64 (cf_MaxDataSizeMb conf * 1024 * 1024),
                        sv_HookPath := ''hooks/'', sv_HAProxyEnabled := cf_HaproxyIncoming conf\<rparr>;
          s = SetAliasesConfig sep chars s
      in if cf_DovecotAuth conf then snd (loadDovecot dove (cf_DovecotUserdbPath conf) (cf_DovecotClientPath conf) s) else s)"

definition setup_server :: "'s main_env \<Rightarrow> Config \<Rightarrow> (string, Server) result" where
  "setup_server env conf =
     (case (cf_SuffixSeparators conf, cf_DropCharacters conf) of
        (Some sep, Some chars) \<Rightarrow>
          and_then (mustReadDir env ''certs/'') (\<lambda>certs.
          and_then (load_certs env certs (configured_server (me_dovecot env) conf sep chars)) (\<lambda>s3.
          and_then (mustReadDir env ''domains/'') (\<lambda>doms.
          and_then (load_domains env doms s3) (\<lambda>s4.
          Ok (srv_AddDomain ''localhost'' s4)))))
      | _ \<Rightarrow> Err ''nil pointer dereference'')"

definition systemd_for :: "(string \<times> string list) list \<Rightarrow> string \<Rightarrow> string list" where
  "systemd_for ls name = (case map_of ls name of None \<Rightarrow> [] | Some l \<Rightarrow> l)"

definition setup_addresses :: "'s main_env \<Rightarrow> Config \<Rightarrow> Server \<Rightarrow> (string, Server) result" where
  "setup_addresses env conf s =
     (case me_systemd env of
        Inl e \<Rightarrow> Err (''Error getting systemd listeners: '' @ e)
      | Inr ls \<Rightarrow>
          and_then (loadAddresses (cf_SmtpAddress conf) (systemd_for ls ''smtp'') ModeSMTP s) (\<lambda>(n1, s1).
          and_then (loadAddresses (cf_SubmissionAddress conf) (systemd_for ls ''submission'') ModeSubmission s1) (\<lambda>(n2, s2).
          and_then (loadAddresses (cf_SubmissionOverTlsAddress conf) (systemd_for ls ''submission_tls'') ModeSubmissionTLS s2) (\<lambda>(n3, s3).
          if n1 + n2 + n3 = 0 then Err ''No address to listen on'' else Ok s3))))"

text \<open>
  The whole of \<open>main\<close>: the server with what its connections share, the items of the queue whose loops
  were started, and where it listens.
\<close>

definition open_dinfo :: "'s main_env \<Rightarrow> string \<Rightarrow> (string, 's domain_db) result" where
  "open_dinfo env dir = and_then (me_NewStore env dir) (di_New (me_get env) (me_ids env))"

definition start_daemon ::
  "'s main_env \<Rightarrow> Config \<Rightarrow> Server \<Rightarrow> (string, 's running \<times> Item list \<times> (SocketMode \<times> string) list) result" where
  "start_daemon env conf s =
     (case open_dinfo env (cf_DataDir conf @ ''/domaininfo'') of
        Inl e \<Rightarrow> Err (''Error opening domain info database: '' @ e)
      | Inr dinfo \<Rightarrow>
          (case me_MkdirAll env (cf_DataDir conf @ ''/sts-cache'') of
             Some e \<Rightarrow> Err (''Failed to initialize STS cache: '' @ e)
           | None \<Rightarrow>
               (let qdir = cf_DataDir conf @ ''/queue'' in
                and_then (InitQueue (me_messages env) (me_MkdirAll env qdir) qdir (me_fs env) s) (\<lambda>(q, started).
                let q = SetQueueLimits (cf_MaxQueueItems conf) (GiveUpSendAfterDuration (me_config env) conf) q in
                and_then (setup_addresses env conf s) (\<lambda>s.
                and_then (ListenAndServe (me_listen env) s) (\<lambda>ls.
                Ok (started_server s dinfo q, started, ls)))))))"

definition chasquid_main :: "'s main_env \<Rightarrow> (string, 's running \<times> Item list \<times> (SocketMode \<times> string) list) result" where
  "chasquid_main env =
     (case conf_Load (me_config env) (me_configDir env @ ''/chasquid.conf'') (me_overrides env) of
        Inl e \<Rightarrow> Err (''Error loading config: '' @ me_conf_text env e)
      | Inr conf \<Rightarrow>
          (case me_chdir env of
             Some e \<Rightarrow> Err (''Error changing to config dir '' @ Quote (tl_unicode (me_text env)) (me_configDir env) @ '': '' @ e)
           | None \<Rightarrow>
               and_then (initMailLog env (cf_MailLogPath conf)) (\<lambda>_.
               and_then (setup_server env conf) (start_daemon env conf))))"

section \<open>What the daemon serves\<close>

text \<open>The domains of a directory, and the server that serves the domains of a set from it.\<close>

definition domain_dirs :: "textlib \<Rightarrow> dir_entry list \<Rightarrow> string list" where
  "domain_dirs tx infos = map (\<lambda>(name, _). fst (Domain_norm tx name)) (filter (\<lambda>(_, regular). \<not> regular) infos)"

definition serves :: "string set \<Rightarrow> Server \<Rightarrow> bool" where
  "serves D s \<longleftrightarrow>
     {d. Has (Some (sv_localDomains s)) d} = D \<and> set (al_domains (sv_aliasesR s)) = D \<and>
     fst ` set (backends (sv_authr s)) = D \<and> userExistsInDB (sv_aliasesR s) = user_exists (sv_authr s)"

text \<open>The part of the server that loading certificates and domains leaves alone.\<close>

definition kept_part :: "Server \<Rightarrow> _" where
  "kept_part s = (sv_Hostname s, sv_MaxDataSize s, sv_addrs s, sv_listeners s, sv_HAProxyEnabled s, sv_HookPath s,
     Fallback (sv_authr s), SuffixSep (sv_aliasesR s), DropChars (sv_aliasesR s), ResolveHook (sv_aliasesR s))"

lemma fst_update: "fst ` set (AList.update k v xs) = insert k (fst ` set xs)"
  by (induction xs) auto

lemma serves_updates [simp]:
  "serves D (s\<lparr>sv_certs := x\<rparr>) = serves D s" "serves D (s\<lparr>sv_dkimSigners := y\<rparr>) = serves D s"
  "kept_part (s\<lparr>sv_certs := x\<rparr>) = kept_part s" "kept_part (s\<lparr>sv_dkimSigners := y\<rparr>) = kept_part s"
  by (simp_all add: serves_def kept_part_def)

lemma loadCert_keeps: "loadCert env dir s = Ok s' \<Longrightarrow> s'\<lparr>sv_certs := []\<rparr> = s\<lparr>sv_certs := []\<rparr>"
  by (auto simp: loadCert_def AddCerts_def Let_def split: if_splits sum.splits prod.splits option.splits)

lemma load_certs_keeps: "load_certs env infos s = Ok s' \<Longrightarrow> s'\<lparr>sv_certs := []\<rparr> = s\<lparr>sv_certs := []\<rparr>"
proof (induction env infos s rule: load_certs.induct)
  case (2 env name regular infos s)
  then show ?case by (cases regular) (auto simp: and_then_Ok_iff dest: loadCert_keeps)
qed simp

lemma AddDKIMSigner_keeps: "AddDKIMSigner u env d sel pem s = (r, s') \<Longrightarrow> s'\<lparr>sv_dkimSigners := []\<rparr> = s\<lparr>sv_dkimSigners := []\<rparr>"
  by (auto simp: AddDKIMSigner_def Let_def split: sum.splits option.splits if_splits private_key.splits)

lemma load_keys_keeps: "load_keys env d pems s = Ok s' \<Longrightarrow> s'\<lparr>sv_dkimSigners := []\<rparr> = s\<lparr>sv_dkimSigners := []\<rparr>"
proof (induction env d pems s rule: load_keys.induct)
  case (2 env d pem pems s)
  let ?sel = "TrimSuffix (TrimPrefix (path_Base pem) ''dkim:'') ''.pem''"
  obtain r s1 where a: "AddDKIMSigner (tl_unicode (me_text env)) (me_keys env) d ?sel pem s = (r, s1)" by fastforce
  with 2 have "load_keys env d pems s1 = Ok s'" by (auto simp: Let_def split: option.splits)
  moreover have "r = None" using a 2(2) by (auto simp: Let_def split: option.splits)
  ultimately show ?case using 2(1) [OF refl a [symmetric]] AddDKIMSigner_keeps [OF a] by simp
qed simp

lemma loadDomain_serves:
  assumes "serves D s" "loadDomain env d dir s = Ok s'"
  shows "serves (insert d D) s' \<and> kept_part s' = kept_part s \<and> sv_certs s' = sv_certs s"
proof -
  obtain n s1 k s2 m where u: "AddUserDB (me_kdf env) (me_users env) (me_fs env) d (dir @ ''/users'') (srv_AddDomain d s) = ((n, None), s1)"
    and a: "srv_AddAliasesFile (me_text env) (me_open env) d (dir @ ''/aliases'') s1 = (Ok k, s2)"
    and l: "loadDKIM env d dir s2 = Ok (m, s')"
    using assms(2) by (auto simp: loadDomain_def split: prod.splits option.splits sum.splits)
  from l have s': "s'\<lparr>sv_dkimSigners := []\<rparr> = s2\<lparr>sv_dkimSigners := []\<rparr>"
    by (auto simp: loadDKIM_def and_then_Ok_iff dest: load_keys_keeps)
  obtain udb where s1: "s1 = set_authr (Register (sv_authr s) d (userdb_backend (me_kdf env) udb))
      ((srv_AddDomain d s)\<lparr>sv_userdbs := AList.update d udb (sv_userdbs s)\<rparr>)"
    using u by (auto simp: AddUserDB_def srv_AddDomain_def Let_def split: prod.splits)
  have "{x. Has (Some (sv_localDomains s1)) x} = insert d D"
    using assms(1) unfolding s1 serves_def by (auto simp: set_authr_def srv_AddDomain_def)
  moreover have "fst ` set (backends (sv_authr s1)) = insert d D"
    "set (al_domains (sv_aliasesR s1)) = insert d D" "userExistsInDB (sv_aliasesR s1) = user_exists (sv_authr s1)"
    using assms(1) unfolding s1 serves_def
    by (simp_all add: set_authr_def srv_AddDomain_def Register_def fst_update AddDomain_def)
  ultimately have k1: "serves (insert d D) s1" "kept_part s1 = kept_part s" "sv_certs s1 = sv_certs s"
    by (simp_all add: serves_def) (simp_all add: s1 set_authr_def srv_AddDomain_def Register_def AddDomain_def kept_part_def)
  obtain v where v: "s2 = s1\<lparr>sv_aliasesR := v\<rparr>" "AddAliasesFile (me_text env) (me_open env) (sv_aliasesR s1) d (dir @ ''/aliases'') = (v, Ok k)"
    using a by (auto simp: srv_AddAliasesFile_def split: prod.splits)
  have "set (al_domains v) = insert d (set (al_domains (sv_aliasesR s1)))" "userExistsInDB v = userExistsInDB (sv_aliasesR s1)"
    "SuffixSep v = SuffixSep (sv_aliasesR s1)" "DropChars v = DropChars (sv_aliasesR s1)" "ResolveHook v = ResolveHook (sv_aliasesR s1)"
    using v(2) by (auto simp: AddAliasesFile_def Let_def split: parse_file_result.splits)
  then have "serves (insert d D) s2" "kept_part s2 = kept_part s" "sv_certs s2 = sv_certs s"
    using k1 v(1) by (simp_all add: serves_def kept_part_def)
  then show ?thesis
    using arg_cong [OF s', of "serves (insert d D)"] arg_cong [OF s', of kept_part] arg_cong [OF s', of sv_certs] by simp
qed

lemma load_domains_serves:
  assumes "serves D s" "load_domains env infos s = Ok s'"
  shows "serves (D \<union> set (domain_dirs (me_text env) infos)) s' \<and> kept_part s' = kept_part s \<and> sv_certs s' = sv_certs s \<and>
    (\<forall>(name, _) \<in> set infos. snd (Domain_norm (me_text env) name) = None)"
  using assms
proof (induction infos arbitrary: D s)
  case Nil
  then show ?case by (simp add: domain_dirs_def)
next
  case (Cons x infos)
  obtain name regular where x: "x = (name, regular)" by fastforce
  obtain d where d: "Domain_norm (me_text env) name = (d, None)"
    using Cons.prems(2) x by (auto split: prod.splits option.splits)
  show ?case
  proof (cases regular)
    case True
    then show ?thesis using Cons d x by (auto simp: domain_dirs_def)
  next
    case False
    then obtain s1 where s1: "loadDomain env d (path_Join [''domains'', name]) s = Ok s1" "load_domains env infos s1 = Ok s'"
      using Cons.prems(2) d x by (auto simp: and_then_Ok_iff)
    have "insert d D \<union> set (domain_dirs (me_text env) infos) = D \<union> set (domain_dirs (me_text env) (x # infos))"
      using False d x by (auto simp: domain_dirs_def)
    with Cons.IH [OF _ s1(2), of "insert d D"] loadDomain_serves [OF Cons.prems(1) s1(1)] show ?thesis
      using d x by simp
  qed
qed

subsection \<open>Where it listens\<close>

lemma flat_mode_list: "distinct (map fst xs) \<Longrightarrow> (m, a) \<in> set (flat xs) \<longleftrightarrow> a \<in> set (mode_list xs m)"
  by (auto simp: flat_def mode_list_def map_of_eq_None_iff split: option.split dest: map_of_SomeD)

lemma mode_list_update: "mode_list (AList.update m l xs) m' = (if m' = m then l else mode_list xs m')"
  by (simp add: mode_list_def update_conv')

text \<open>What a list of addresses adds: the plain ones, and the sockets of systemd for each that says so.\<close>

definition plain_addrs :: "string list \<Rightarrow> string list" where
  "plain_addrs addrs = filter (\<lambda>a. a \<noteq> ''systemd'') addrs"

definition systemd_addrs :: "string list \<Rightarrow> string list \<Rightarrow> string list" where
  "systemd_addrs addrs ls = concat (map (\<lambda>a. if a = ''systemd'' then ls else []) addrs)"

definition keyed :: "Server \<Rightarrow> bool" where
  "keyed s \<longleftrightarrow> distinct (map fst (sv_addrs s)) \<and> distinct (map fst (sv_listeners s))"

lemma loadAddresses_adds:
  assumes "loadAddresses addrs ls mode s = Ok (n, s')" "keyed s"
  shows "keyed s' \<and> s'\<lparr>sv_addrs := [], sv_listeners := []\<rparr> = s\<lparr>sv_addrs := [], sv_listeners := []\<rparr> \<and> [] \<notin> set addrs \<and>
    n = length (plain_addrs addrs) + length (systemd_addrs addrs ls) \<and>
    (\<forall>m. mode_list (sv_addrs s') m = mode_list (sv_addrs s) m @ (if m = mode then plain_addrs addrs else []) \<and>
       mode_list (sv_listeners s') m = mode_list (sv_listeners s) m @ (if m = mode then systemd_addrs addrs ls else []))"
  using assms
proof (induction addrs arbitrary: s n)
  case Nil
  then show ?case by (simp add: plain_addrs_def systemd_addrs_def)
next
  case (Cons a addrs)
  define s1 where "s1 = (if a = ''systemd'' then AddListeners ls mode s else AddAddr a mode s)"
  have a: "a \<noteq> []" using Cons.prems(1) by auto
  then obtain k where k: "loadAddresses addrs ls mode s1 = Ok (k, s')" "n = k + (if a = ''systemd'' then length ls else 1)"
    using Cons.prems(1) by (auto simp: s1_def and_then_Ok_iff split: if_splits)
  have s1: "keyed s1" "s1\<lparr>sv_addrs := [], sv_listeners := []\<rparr> = s\<lparr>sv_addrs := [], sv_listeners := []\<rparr>"
    using Cons.prems(2) by (auto simp: s1_def keyed_def AddListeners_def AddAddr_def distinct_update)
  have "mode_list (sv_addrs s1) m = mode_list (sv_addrs s) m @ (if m = mode \<and> a \<noteq> ''systemd'' then [a] else [])"
    "mode_list (sv_listeners s1) m = mode_list (sv_listeners s) m @ (if m = mode \<and> a = ''systemd'' then ls else [])" for m
    by (simp_all add: s1_def AddListeners_def AddAddr_def mode_list_update)
  with Cons.IH [OF k(1) s1(1)] show ?case using a k(2) s1(2)
    by (fastforce simp: plain_addrs_def systemd_addrs_def)
qed

text \<open>The addresses of the configuration for a mode, and the name that systemd's sockets for it have.\<close>

definition mode_addrs :: "Config \<Rightarrow> SocketMode \<Rightarrow> string list" where
  "mode_addrs conf m =
     (if m = ModeSMTP then cf_SmtpAddress conf else if m = ModeSubmission then cf_SubmissionAddress conf
      else if m = ModeSubmissionTLS then cf_SubmissionOverTlsAddress conf else [])"

definition mode_name :: "SocketMode \<Rightarrow> string" where
  "mode_name m = (if m = ModeSMTP then ''smtp'' else if m = ModeSubmission then ''submission'' else ''submission_tls'')"

definition listen_on :: "Config \<Rightarrow> (string \<times> string list) list \<Rightarrow> SocketMode \<Rightarrow> string list" where
  "listen_on conf lsm m = plain_addrs (mode_addrs conf m) @ systemd_addrs (mode_addrs conf m) (systemd_for lsm (mode_name m))"

lemma setup_addresses_listens:
  assumes "setup_addresses env conf s = Ok s'" "sv_addrs s = []" "sv_listeners s = []"
  shows "\<exists>lsm. me_systemd env = Ok lsm \<and> s'\<lparr>sv_addrs := [], sv_listeners := []\<rparr> = s\<lparr>sv_addrs := [], sv_listeners := []\<rparr> \<and>
    flat (sv_addrs s') @ flat (sv_listeners s') \<noteq> [] \<and>
    (\<forall>m a. (m, a) \<in> set (flat (sv_addrs s') @ flat (sv_listeners s')) \<longleftrightarrow> a \<in> set (listen_on conf lsm m))"
proof -
  obtain lsm n1 s1 n2 s2 n3 where l: "me_systemd env = Ok lsm"
    "loadAddresses (cf_SmtpAddress conf) (systemd_for lsm ''smtp'') ModeSMTP s = Ok (n1, s1)"
    "loadAddresses (cf_SubmissionAddress conf) (systemd_for lsm ''submission'') ModeSubmission s1 = Ok (n2, s2)"
    "loadAddresses (cf_SubmissionOverTlsAddress conf) (systemd_for lsm ''submission_tls'') ModeSubmissionTLS s2 = Ok (n3, s')"
    "n1 + n2 + n3 \<noteq> 0"
    using assms(1) by (auto simp: setup_addresses_def and_then_Ok_iff split: sum.splits if_splits prod.splits)
  have k: "keyed s" using assms(2,3) by (simp add: keyed_def)
  note a1 = loadAddresses_adds [OF l(2) k]
  note a2 = loadAddresses_adds [OF l(3) conjunct1 [OF a1]]
  note a3 = loadAddresses_adds [OF l(4) conjunct1 [OF a2]]
  have m: "mode_list (sv_addrs s') m = plain_addrs (mode_addrs conf m)"
    "mode_list (sv_listeners s') m = systemd_addrs (mode_addrs conf m) (systemd_for lsm (mode_name m))" for m
    using a1 a2 a3 assms(2,3) by (simp_all add: mode_addrs_def mode_name_def mode_list_def plain_addrs_def systemd_addrs_def)
  have iff: "(m, a) \<in> set (flat (sv_addrs s') @ flat (sv_listeners s')) \<longleftrightarrow> a \<in> set (listen_on conf lsm m)" for m a
    using a3 flat_mode_list m by (simp add: keyed_def listen_on_def)
  have "\<exists>m. listen_on conf lsm m \<noteq> []"
  proof (rule ccontr)
    assume "\<not> ?thesis"
    then have "listen_on conf lsm ModeSMTP = []" "listen_on conf lsm ModeSubmission = []" "listen_on conf lsm ModeSubmissionTLS = []"
      by blast+
    then show False using l(5) a1 a2 a3 by (simp add: listen_on_def mode_addrs_def mode_name_def)
  qed
  then obtain m a where "a \<in> set (listen_on conf lsm m)" by (metis list.set_intros(1) neq_Nil_conv)
  then have "flat (sv_addrs s') @ flat (sv_listeners s') \<noteq> []" using iff by (metis emptyE set_empty2)
  then show ?thesis using l(1) a1 a2 a3 iff by auto
qed

subsection \<open>The whole start\<close>

lemma configured_server_ok:
  "serves {} (configured_server dove conf sep chars)"
  "kept_part (configured_server dove conf sep chars) =
     (cf_Hostname conf, wrap64 (cf_MaxDataSizeMb conf * 1024 * 1024), [], [], cf_HaproxyIncoming conf, ''hooks/'',
      if cf_DovecotAuth conf then Some (dove_backend dove (NewAuth (cf_DovecotUserdbPath conf) (cf_DovecotClientPath conf))) else None,
      sep, chars, ''hooks/alias-resolve'')"
  by (simp_all add: configured_server_def serves_def kept_part_def loadDovecot_def SetAuthFallback_def set_authr_def SetAliasesConfig_def
      NewServer_def NewResolver_def NewAuthenticator_def Has_def path_Join_hook Let_def)

lemma serves_localhost:
  assumes "serves D s"
  shows "{d. Has (Some (sv_localDomains (srv_AddDomain h s))) d} = insert h D" "set (al_domains (sv_aliasesR (srv_AddDomain h s))) = insert h D"
    "fst ` set (backends (sv_authr (srv_AddDomain h s))) = D"
    "userExistsInDB (sv_aliasesR (srv_AddDomain h s)) = user_exists (sv_authr (srv_AddDomain h s))" "kept_part (srv_AddDomain h s) = kept_part s"
  using assms by (auto simp: serves_def srv_AddDomain_def AddDomain_def kept_part_def)

lemma setup_server_serves:
  assumes "setup_server env conf = Ok s"
  shows "\<exists>dirs sep chars s4. me_ReadDir env ''domains/'' = Ok dirs \<and> cf_SuffixSeparators conf = Some sep \<and> cf_DropCharacters conf = Some chars \<and>
    (\<forall>(name, _) \<in> set dirs. snd (Domain_norm (me_text env) name) = None) \<and>
    serves (set (domain_dirs (me_text env) dirs)) s4 \<and> s = srv_AddDomain ''localhost'' s4 \<and>
    kept_part s = (cf_Hostname conf, wrap64 (cf_MaxDataSizeMb conf * 1024 * 1024), [], [], cf_HaproxyIncoming conf, ''hooks/'',
      if cf_DovecotAuth conf then Some (dove_backend (me_dovecot env) (NewAuth (cf_DovecotUserdbPath conf) (cf_DovecotClientPath conf))) else None,
      sep, chars, ''hooks/alias-resolve'')"
proof -
  obtain sep chars certs s3 dirs s4 where l: "cf_SuffixSeparators conf = Some sep" "cf_DropCharacters conf = Some chars"
    "load_certs env certs (configured_server (me_dovecot env) conf sep chars) = Ok s3"
    "mustReadDir env ''domains/'' = Ok dirs" "load_domains env dirs s3 = Ok s4" "s = srv_AddDomain ''localhost'' s4"
    using assms by (auto simp: setup_server_def and_then_Ok_iff split: option.splits prod.splits)
  let ?s2 = "configured_server (me_dovecot env) conf sep chars"
  note c = load_certs_keeps [OF l(3)]
  have "serves {} s3" "kept_part s3 = kept_part ?s2"
    using configured_server_ok(1) [of "me_dovecot env" conf sep chars] arg_cong [OF c, of "serves {}"] arg_cong [OF c, of kept_part] by simp_all
  with load_domains_serves [OF _ l(5), of "{}"] have d: "serves (set (domain_dirs (me_text env) dirs)) s4" "kept_part s4 = kept_part ?s2"
    "\<forall>(name, _) \<in> set dirs. snd (Domain_norm (me_text env) name) = None" by simp_all
  have "me_ReadDir env ''domains/'' = Ok dirs" using l(4) by (auto simp: mustReadDir_def split: sum.splits if_splits)
  then show ?thesis using l(1,2,6) d serves_localhost(5) [OF d(1), of "''localhost''"]
    by (auto simp: configured_server_ok(2))
qed

lemma listen_all_Ok: "listen_all listen xs = Ok ys \<Longrightarrow> ys = xs"
  by (induction xs arbitrary: ys rule: listen_all.induct) (auto simp: and_then_Ok_iff split: option.splits)

lemma q_Load_fields:
  "q_Load cd q = (q', started) \<Longrightarrow> q_localDomains q' = q_localDomains q \<and> q_aliases q' = q_aliases q \<and> q_MaxItems q' = q_MaxItems q \<and>
     q_GiveUpAfter q' = q_GiveUpAfter q"
proof -
  have "let q' = fst (fold (\<lambda>fname (q, started). case ItemFromFile cd (q_disk q) fname of
          Inl _ \<Rightarrow> (q, started)
        | Inr item \<Rightarrow> (q\<lparr>q_items := AList.update (m_ID item) item (q_items q)\<rparr>, started @ [item])) fs (q, started))
      in q_localDomains q' = q_localDomains q \<and> q_aliases q' = q_aliases q \<and> q_MaxItems q' = q_MaxItems q \<and> q_GiveUpAfter q' = q_GiveUpAfter q"
    for fs q started
    by (induction fs arbitrary: q started) (auto simp: Let_def split: sum.split)
  from this [of "item_files q" q "[]"] show "q_Load cd q = (q', started) \<Longrightarrow> q_localDomains q' = q_localDomains q \<and>
     q_aliases q' = q_aliases q \<and> q_MaxItems q' = q_MaxItems q \<and> q_GiveUpAfter q' = q_GiveUpAfter q"
    by (simp add: q_Load_def Let_def)
qed

lemma start_daemon_Ok:
  assumes "start_daemon env conf s = Ok (st, started, ls)"
  shows "\<exists>s' dinfo q. st = started_server s' dinfo q \<and> setup_addresses env conf s = Ok s' \<and> sv_certs s' \<noteq> [] \<and>
    ls = flat (sv_addrs s') @ flat (sv_listeners s') \<and> q_localDomains q = Some (sv_localDomains s) \<and> q_aliases q = sv_aliasesR s \<and>
    q_MaxItems q = (if 0 < cf_MaxQueueItems conf then int (cf_MaxQueueItems conf) else 100)"
proof -
  obtain dinfo q0 s' where l: "setup_addresses env conf s = Ok s'" "ListenAndServe (me_listen env) s' = Ok ls"
    "q_Load (me_messages env) (q_New (cf_DataDir conf @ ''/queue'') (Some (sv_localDomains s)) (sv_aliasesR s) (me_fs env)) = (q0, started)"
    "st = started_server s' dinfo (SetQueueLimits (cf_MaxQueueItems conf) (GiveUpSendAfterDuration (me_config env) conf) q0)"
    using assms by (auto simp: start_daemon_def InitQueue_def Let_def and_then_Ok_iff split: sum.splits option.splits prod.splits)
  from l(2) have "sv_certs s' \<noteq> []" "ls = flat (sv_addrs s') @ flat (sv_listeners s')"
    by (auto simp: ListenAndServe_def and_then_Ok_iff split: if_splits dest: listen_all_Ok)
  then show ?thesis using l(1,4) q_Load_fields [OF l(3)]
    by (intro exI conjI) (auto simp: SetQueueLimits_def q_New_def Let_def)
qed

text \<open>
  C17. The daemon that comes up serves what its directories say. Its local domains are the normal forms
  of the names of the directories under \<open>domains/\<close>, all of them valid, and \<open>localhost\<close>; the aliases
  resolver knows the same domains, exactly those of the directories have a database of users, and
  Dovecot is asked for the others only if the configuration says so. The aliases and the queue look at
  the same users, aliases and domains as the connections. There is at least one certificate and one
  address, and it listens exactly on the addresses of the configuration and the sockets of systemd for
  each kind of port.
\<close>

theorem main_serves:
  assumes "chasquid_main env = Ok (st, started, ls)" "rs_server st = s" "sh_queue (rs_shared st) = q"
  shows "\<exists>conf dirs lsm. conf_Load (me_config env) (me_configDir env @ ''/chasquid.conf'') (me_overrides env) = Ok conf \<and>
    me_ReadDir env ''domains/'' = Ok dirs \<and> me_systemd env = Ok lsm \<and>
    (\<forall>(name, _) \<in> set dirs. snd (Domain_norm (me_text env) name) = None) \<and>
    {d. Has (Some (sv_localDomains s)) d} = insert ''localhost'' (set (domain_dirs (me_text env) dirs)) \<and>
    set (al_domains (sv_aliasesR s)) = insert ''localhost'' (set (domain_dirs (me_text env) dirs)) \<and>
    fst ` set (backends (sv_authr s)) = set (domain_dirs (me_text env) dirs) \<and>
    (Fallback (sv_authr s) = None \<longleftrightarrow> \<not> cf_DovecotAuth conf) \<and>
    userExistsInDB (sv_aliasesR s) = user_exists (sv_authr s) \<and> q_aliases q = sv_aliasesR s \<and> q_localDomains q = Some (sv_localDomains s) \<and>
    cf_SuffixSeparators conf = Some (SuffixSep (sv_aliasesR s)) \<and> cf_DropCharacters conf = Some (DropChars (sv_aliasesR s)) \<and>
    ResolveHook (sv_aliasesR s) = ''hooks/alias-resolve'' \<and> sv_MaxDataSize s = wrap64 (cf_MaxDataSizeMb conf * 1024 * 1024) \<and>
    0 < q_MaxItems q \<and> sv_certs s \<noteq> [] \<and> ls \<noteq> [] \<and> (\<forall>m a. (m, a) \<in> set ls \<longleftrightarrow> a \<in> set (listen_on conf lsm m))"
proof -
  obtain conf s0 where l: "conf_Load (me_config env) (me_configDir env @ ''/chasquid.conf'') (me_overrides env) = Ok conf"
    "setup_server env conf = Ok s0" "start_daemon env conf s0 = Ok (st, started, ls)"
    using assms(1) by (auto simp: chasquid_main_def and_then_Ok_iff split: sum.splits option.splits)
  obtain dirs sep chars s4 where d: "me_ReadDir env ''domains/'' = Ok dirs" "cf_SuffixSeparators conf = Some sep" "cf_DropCharacters conf = Some chars"
    "\<forall>(name, _) \<in> set dirs. snd (Domain_norm (me_text env) name) = None" "serves (set (domain_dirs (me_text env) dirs)) s4"
    "s0 = srv_AddDomain ''localhost'' s4"
    and k: "kept_part s0 = (cf_Hostname conf, wrap64 (cf_MaxDataSizeMb conf * 1024 * 1024), [], [], cf_HaproxyIncoming conf, ''hooks/'',
      if cf_DovecotAuth conf then Some (dove_backend (me_dovecot env) (NewAuth (cf_DovecotUserdbPath conf) (cf_DovecotClientPath conf))) else None,
      sep, chars, ''hooks/alias-resolve'')"
    using setup_server_serves [OF l(2)] by blast
  obtain s' dinfo q' where r: "st = started_server s' dinfo q'" "setup_addresses env conf s0 = Ok s'" "sv_certs s' \<noteq> []"
    "ls = flat (sv_addrs s') @ flat (sv_listeners s')" "q_localDomains q' = Some (sv_localDomains s0)" "q_aliases q' = sv_aliasesR s0" "0 < q_MaxItems q'"
    using start_daemon_Ok [OF l(3)] by (auto split: if_splits)
  obtain lsm where a: "me_systemd env = Ok lsm" "s'\<lparr>sv_addrs := [], sv_listeners := []\<rparr> = s0\<lparr>sv_addrs := [], sv_listeners := []\<rparr>" "ls \<noteq> []"
    "\<forall>m a. (m, a) \<in> set ls \<longleftrightarrow> a \<in> set (listen_on conf lsm m)"
    using setup_addresses_listens [OF r(2)] k r(4) by (auto simp: kept_part_def)
  have same: "sv_localDomains s' = sv_localDomains s0" "sv_aliasesR s' = sv_aliasesR s0" "sv_authr s' = sv_authr s0" "sv_MaxDataSize s' = sv_MaxDataSize s0"
    using arg_cong [OF a(2), of sv_localDomains] arg_cong [OF a(2), of sv_aliasesR] arg_cong [OF a(2), of sv_authr] arg_cong [OF a(2), of sv_MaxDataSize]
    by simp_all
  have s: "s = s'" "q = q'" using assms(2,3) r(1) by (simp_all add: started_server_def)
  note h = serves_localhost [OF d(5), of "''localhost''", folded d(6)]
  have kk: "SuffixSep (sv_aliasesR s0) = sep" "DropChars (sv_aliasesR s0) = chars" "ResolveHook (sv_aliasesR s0) = ''hooks/alias-resolve''"
    "Fallback (sv_authr s0) = None \<longleftrightarrow> \<not> cf_DovecotAuth conf" "sv_MaxDataSize s0 = wrap64 (cf_MaxDataSizeMb conf * 1024 * 1024)"
    using k by (simp_all add: kept_part_def)
  show ?thesis unfolding s same using l(1) d(1-4) h(1-4) kk a(1,3,4) r(3,5-7) by (intro exI [of _ conf] exI [of _ dirs] exI [of _ lsm]) simp
qed

section \<open>An example\<close>

definition ex_main :: "unit main_env" where
  "ex_main =
     \<lparr>me_config = ex_config, me_configDir = ''/etc'', me_overrides = ''o'', me_chdir = None, me_syslog = None, me_NewFile = (\<lambda>_. None),
      me_ReadDir = (\<lambda>dir. Ok (if dir = ''certs/'' then [(''c'', False)] else [(''README'', True), (''D'', False)])),
      me_Stat = (\<lambda>_. None), me_KeyPair = (\<lambda>_ _. Ok ''cert''), me_Glob = (\<lambda>_. Ok []), me_MkdirAll = (\<lambda>_. None), me_text = ascii_text,
      me_kdf = ex_kdf, me_users = \<lparr>marshal = (\<lambda>_. Err []), unmarshal = (\<lambda>_. Err [])\<rparr>,
      me_messages = \<lparr>marshal = (\<lambda>_. Err []), unmarshal = (\<lambda>_. Err [])\<rparr>, me_fs = [], me_open = (\<lambda>_. NotExist), me_alias_text = (\<lambda>_. []),
      me_keys = \<lparr>ke_ReadFile = (\<lambda>_. Err []), ke_pem = (\<lambda>_. None), ke_ParsePKCS8 = (\<lambda>_. Err [])\<rparr>, me_key_text = (\<lambda>_. []),
      me_conf_text = (\<lambda>_. []), me_dovecot = ex_dove, me_NewStore = (\<lambda>_. Ok ()), me_get = (\<lambda>_ _. Ok None), me_ids = (\<lambda>_. []),
      me_systemd = Ok [(''smtp'', [''fd3''])], me_listen = (\<lambda>_. None)\<rparr>"

lemma ex_main_conf: "\<exists>conf. conf_Load ex_config (me_configDir ex_main @ ''/chasquid.conf'') ''o'' = Ok conf \<and> cf_SmtpAddress conf = [''systemd''] \<and>
   cf_SubmissionAddress conf = [''systemd''] \<and> cf_SubmissionOverTlsAddress conf = [''systemd''] \<and> cf_MailLogPath conf = ''<syslog>'' \<and>
   cf_SuffixSeparators conf = Some ''+'' \<and> cf_DropCharacters conf = Some ''.''"
  by (simp add: conf_Load_def ex_config_def override_def defaultConfig_def empty_Config_def Let_def)

lemma ex_main_names: "Domain_norm ascii_text ''README'' = (''readme'', None)" "Domain_norm ascii_text ''D'' = (''d'', None)"
  by (simp_all add: Domain_norm_def go_eval char_of_nat_eq2)

lemma ex_main_Ok: "\<exists>st started ls. chasquid_main ex_main = Ok (st, started, ls)"
proof -
  obtain conf where c: "conf_Load ex_config (me_configDir ex_main @ ''/chasquid.conf'') ''o'' = Ok conf" "cf_SmtpAddress conf = [''systemd'']"
   "cf_SubmissionAddress conf = [''systemd'']" "cf_SubmissionOverTlsAddress conf = [''systemd'']" "cf_MailLogPath conf = ''<syslog>''"
   "cf_SuffixSeparators conf = Some ''+''" "cf_DropCharacters conf = Some ''.''" using ex_main_conf by blast
  have "\<exists>s. setup_server ex_main conf = Ok s \<and> sv_certs s \<noteq> []"
    using c(6,7) by (simp add: setup_server_def mustReadDir_def ex_main_def loadCert_def AddCerts_def ex_main_names loadDomain_def AddUserDB_def
        ud_Load_def ReadTextMessage_def srv_AddAliasesFile_def AddAliasesFile_def parseFile_def loadDKIM_def srv_AddDomain_def set_authr_def Let_def)
  then obtain s where s: "setup_server ex_main conf = Ok s" "sv_certs s \<noteq> []" by blast
  have "sv_addrs s = []" using setup_server_serves [OF s(1)] by (auto simp: kept_part_def)
  then have "\<exists>r. start_daemon ex_main conf s = Ok r"
    using c(2-4) s(2) by (simp add: start_daemon_def ex_main_def open_dinfo_def di_New_def di_Reload_def InitQueue_def setup_addresses_def
        systemd_for_def AddListeners_def ListenAndServe_def flat_def Let_def split: prod.split)
  then show ?thesis using s(1) c by (simp add: chasquid_main_def ex_main_def initMailLog_def)
qed

theorem main_serves_witness:
  "\<exists>st started ls. chasquid_main ex_main = Ok (st, started, ls) \<and>
     {d. Has (Some (sv_localDomains (rs_server st))) d} = {''localhost'', ''d''} \<and> fst ` set (backends (sv_authr (rs_server st))) = {''d''} \<and>
     set ls = {(ModeSMTP, ''fd3'')}"
proof -
  obtain st started ls where m: "chasquid_main ex_main = Ok (st, started, ls)" using ex_main_Ok by blast
  then obtain conf dirs lsm where l: "conf_Load ex_config (me_configDir ex_main @ ''/chasquid.conf'') ''o'' = Ok conf" "me_ReadDir ex_main ''domains/'' = Ok dirs"
    "me_systemd ex_main = Ok lsm" "{d. Has (Some (sv_localDomains (rs_server st))) d} = insert ''localhost'' (set (domain_dirs ascii_text dirs))"
    "fst ` set (backends (sv_authr (rs_server st))) = set (domain_dirs ascii_text dirs)" "\<forall>m a. (m, a) \<in> set ls \<longleftrightarrow> a \<in> set (listen_on conf lsm m)"
    using main_serves [OF m refl refl] by (auto simp: ex_main_def)
  have "domain_dirs ascii_text dirs = [''d'']" using l(2) by (auto simp: ex_main_def domain_dirs_def ex_main_names)
  moreover have "listen_on conf lsm m = (if m = ModeSMTP then [''fd3''] else [])" for m
    using l(1,3) ex_main_conf
    by (auto simp: ex_main_def listen_on_def mode_addrs_def mode_name_def plain_addrs_def systemd_addrs_def systemd_for_def)
  then have "set ls = {(ModeSMTP, ''fd3'')}" using l(6) by (auto split: if_splits)
  ultimately show ?thesis using m l(4,5) by simp
qed

end
