(* ===== verification/Util.thy ===== *)
theory Util
  imports Server Config
begin

text \<open>
  \<open>src/cmd/chasquid-util\<close>: the command line tool. It edits the databases of users, asks the running
  daemon over the local RPC, and makes and tries DKIM keys. A command gives what it prints and, if it
  failed, the message it exits with; those that write files give the new file system.
\<close>

section \<open>Arguments\<close>

type_synonym arg_map = "(string \<times> string) list"

fun parse_from :: "nat \<Rightarrow> string list \<Rightarrow> arg_map \<Rightarrow> arg_map" where
  "parse_from pos [] args = args"
| "parse_from pos (a # rest) args =
     (if HasPrefix a ''-'' then
        parse_from pos rest
          (case SplitN2 a ''='' of [k, v] \<Rightarrow> AList.update k v args | _ \<Rightarrow> AList.update a [] args)
      else parse_from (Suc pos) rest (AList.update (''$'' @ FormatUint pos) a args))"

definition parseArgs :: "string list \<Rightarrow> arg_map" where
  "parseArgs argv = parse_from 1 argv []"

definition arg :: "arg_map \<Rightarrow> string \<Rightarrow> string" where
  "arg args k = (case map_of args k of None \<Rightarrow> [] | Some v \<Rightarrow> v)"

definition has_arg :: "arg_map \<Rightarrow> string \<Rightarrow> bool" where
  "has_arg args k \<longleftrightarrow> map_of args k \<noteq> None"

text \<open>Where the configuration is; the last of the three options that is given wins.\<close>

definition configDir_of :: "arg_map \<Rightarrow> string" where
  "configDir_of args =
     (case map_of args ''--configdir'' of
        Some d \<Rightarrow> d
      | None \<Rightarrow>
          (case map_of args ''-C'' of
             Some d \<Rightarrow> d
           | None \<Rightarrow> (case map_of args ''--config_dir'' of Some d \<Rightarrow> d | None \<Rightarrow> ''/etc/chasquid'')))"

section \<open>What the commands need\<close>

record 's util_env =
  ue_args :: arg_map
  ue_text :: textlib
  ue_kdf :: kdf
  ue_users :: userdb_codec
  ue_rand :: "(string, string) result"
  ue_write :: write_env
  ue_no_dir :: "string \<Rightarrow> bool"
  ue_mkdir :: "string \<Rightarrow> string option"
  ue_password :: "(string, string) result"
  ue_confirm :: "(string, string) result"
  ue_config :: config_env
  ue_conf_text :: "config_error \<Rightarrow> string"
  ue_Format :: "Config \<Rightarrow> string"
  ue_net :: "string \<Rightarrow> 's rpc_net"
  ue_auth_text :: "auth_error \<Rightarrow> string"
  ue_keys :: key_env
  ue_signer :: "private_key \<Rightarrow> bool"
  ue_Glob :: "string \<Rightarrow> (string, string list) result"
  ue_stdin :: "(string, string) result"
  ue_From :: "string \<Rightarrow> (string, string) result"
  ue_ParseAddress :: "string \<Rightarrow> (string, string) result"
  ue_dkim :: dkim_env
  ue_sign :: crypto_sign
  ue_dkim_text :: "dkim_error \<Rightarrow> string"
  ue_hostname :: string
  ue_now :: int
  ue_today :: string
  ue_rsa_public :: "private_key \<Rightarrow> (string, string) result"
  ue_ed25519_public :: "private_key \<Rightarrow> string"
  ue_generate :: "string \<Rightarrow> (string, private_key) result"
  ue_MarshalPKCS8 :: "private_key \<Rightarrow> (string, string) result"
  ue_create :: "string \<Rightarrow> string option"
  ue_pem :: "string \<Rightarrow> string \<Rightarrow> (string, string) result"

text \<open>What was printed, and the message of \<open>Fatalf\<close> if it was called.\<close>

type_synonym outcome = "string \<times> string option"

abbreviation prints :: "string \<Rightarrow> outcome" where "prints s \<equiv> (s, None)"
abbreviation Fatalf :: "string \<Rightarrow> outcome" where "Fatalf s \<equiv> ([], Some s)"

section \<open>Users\<close>

definition userDBForDomain :: "'s util_env \<Rightarrow> string \<Rightarrow> string" where
  "userDBForDomain env domain =
     (let domain = (if domain = [] then arg (ue_args env) ''$2'' else domain)
      in configDir_of (ue_args env) @ ''/domains/'' @ domain @ ''/users'')"

text \<open>\<open>filepath.Dir\<close>.\<close>

definition filepath_Dir :: "string \<Rightarrow> string" where
  "filepath_Dir p = path_Clean (path_dir p)"

text \<open>The text printed, and the user, the domain and the database, or the fatal message.\<close>

definition userDBFromArgs :: "'s util_env \<Rightarrow> bool \<Rightarrow> file_system \<Rightarrow> string \<times> (string, string \<times> string \<times> userdb) result" where
  "userDBFromArgs env create fs =
     (let (user, domain) = Split_addr (arg (ue_args env) ''$2'') in
      if domain = [] then ([], Err (''Domain missing, username should be of the form '' @ [CHR 0x27] @ ''user@domain'' @ [CHR 0x27]))
      else
        (let dbDir = filepath_Dir (userDBForDomain env domain);
             missing = (create \<and> ue_no_dir env dbDir);
             out = (if missing then ''Creating database'' @ [LF] else [])
         in case (if missing then ue_mkdir env dbDir else None) of
              Some e \<Rightarrow> (out, Err (''Error creating database dir: '' @ e))
            | None \<Rightarrow>
                (case ud_Load (ue_users env) fs (userDBForDomain env domain) of
                   (_, Some e) \<Rightarrow> (out, Err (''Error loading database: '' @ e))
                 | (db, None) \<Rightarrow>
                     (case User (ue_text env) user of
                        (_, Some e) \<Rightarrow> (out, Err (''Error normalizing user: '' @ e))
                      | (user', None) \<Rightarrow> (out, Ok (user', domain, db))))))"

definition checkUserDB :: "'s util_env \<Rightarrow> file_system \<Rightarrow> outcome" where
  "checkUserDB env fs =
     (let path = userDBForDomain env [] in
      if map_of fs path = None then Fatalf (''Error: file '' @ Quote (tl_unicode (ue_text env)) path @ '' does not exist'')
      else case ud_Load (ue_users env) fs path of
          (_, Some e) \<Rightarrow> Fatalf (''Error loading database: '' @ e)
        | (udb, None) \<Rightarrow> prints (''Database loaded ('' @ FormatUint (ud_Len udb) @ '' users)'' @ [LF]))"

text \<open>The password of the option, or one that is typed in twice.\<close>

definition getPassword :: "'s util_env \<Rightarrow> string \<times> (string, string) result" where
  "getPassword env =
     (case map_of (ue_args env) ''--password'' of
        Some password \<Rightarrow> ([], Ok password)
      | None \<Rightarrow>
          (case ue_password env of
             Inl e \<Rightarrow> (''Password: '' @ [LF], Err (''Error reading password: '' @ e @ [LF]))
           | Inr p1 \<Rightarrow>
               (let out = ''Password: '' @ [LF] @ ''Confirm password: '' @ [LF] in
                case ue_confirm env of
                  Inl e \<Rightarrow> (out, Err (''Error reading password: '' @ e))
                | Inr p2 \<Rightarrow>
                    if p1 \<noteq> p2 then (out, Err (''Passwords don'' @ [CHR 0x27] @ ''t match'')) else (out, Ok p1))))"

definition write_users :: "'s util_env \<Rightarrow> string \<Rightarrow> string \<Rightarrow> userdb \<Rightarrow> file_system \<Rightarrow> outcome \<times> file_system" where
  "write_users env out msg db fs =
     (case ud_Write (ue_users env) (ue_write env) fs db of
        (Some e, tr) \<Rightarrow> ((out, Some (''Error writing database: '' @ e)), last tr)
      | (None, tr) \<Rightarrow> (prints (out @ msg @ [LF]), last tr))"

definition userAdd :: "'s util_env \<Rightarrow> file_system \<Rightarrow> outcome \<times> file_system" where
  "userAdd env fs =
     (case userDBFromArgs env True fs of
        (out, Inl e) \<Rightarrow> ((out, Some e), fs)
      | (out, Inr (user, _, db)) \<Rightarrow>
          (let recvOnly = has_arg (ue_args env) ''--receive_only''; hasPassword = has_arg (ue_args env) ''--password'' in
           if recvOnly \<and> hasPassword then ((out, Some ''Cannot specify both --receive_only and --password''), fs)
           else if recvOnly then
             (case AddDeniedUser (ue_text env) db user of
                (_, Some e) \<Rightarrow> ((out, Some (''Error adding user: '' @ e)), fs)
              | (db', None) \<Rightarrow> write_users env out ''Added user'' db' fs)
           else
             (case getPassword env of
                (out2, Inl e) \<Rightarrow> ((out @ out2, Some e), fs)
              | (out2, Inr password) \<Rightarrow>
                  (case AddUser (ue_text env) (ue_kdf env) (ue_rand env) db user password of
                     (_, Some e) \<Rightarrow> ((out @ out2, Some (''Error adding user: '' @ e)), fs)
                   | (db', None) \<Rightarrow> write_users env (out @ out2) ''Added user'' db' fs))))"

text \<open>That a key cannot be derived from what is stored is a panic, which ends the program as well.\<close>

definition util_authenticate :: "'s util_env \<Rightarrow> file_system \<Rightarrow> outcome" where
  "util_authenticate env fs =
     (case userDBFromArgs env False fs of
        (out, Inl e) \<Rightarrow> (out, Some e)
      | (out, Inr (user, _, db)) \<Rightarrow>
          (case getPassword env of
             (out2, Inl e) \<Rightarrow> (out @ out2, Some e)
           | (out2, Inr password) \<Rightarrow>
               (case ud_Authenticate (ue_kdf env) db user password of
                  Inr True \<Rightarrow> prints (out @ out2 @ ''Authentication succeeded'' @ [LF])
                | Inr False \<Rightarrow> (out @ out2, Some ''Authentication failed'')
                | Inl e \<Rightarrow> (out @ out2, Some (ue_auth_text env e)))))"

definition userRemove :: "'s util_env \<Rightarrow> file_system \<Rightarrow> outcome \<times> file_system" where
  "userRemove env fs =
     (case userDBFromArgs env False fs of
        (out, Inl e) \<Rightarrow> ((out, Some e), fs)
      | (out, Inr (user, _, db)) \<Rightarrow>
          (case RemoveUser db user of
             (_, False) \<Rightarrow> ((out, Some ''Unknown user''), fs)
           | (db', True) \<Rightarrow> write_users env out ''Removed user'' db' fs))"

section \<open>Asking the daemon\<close>

definition load_config :: "'s util_env \<Rightarrow> (string, Config) result" where
  "load_config env =
     (case conf_Load (ue_config env) (configDir_of (ue_args env) @ ''/chasquid.conf'') [] of
        Inl e \<Rightarrow> Err (''Error loading config: '' @ ue_conf_text env e)
      | Inr conf \<Rightarrow> Ok conf)"

definition call_daemon :: "'s util_env \<Rightarrow> Config \<Rightarrow> string \<Rightarrow> string \<Rightarrow> 's \<Rightarrow> (string, url_values) result \<times> 's" where
  "call_daemon env conf name key st =
     CallWithValues (ue_net env (cf_DataDir conf @ ''/localrpc-v1'')) st name (Values_Set [] key (arg (ue_args env) ''$2''))"

text \<open>The recipients by their type, with the types in order.\<close>

definition resolved_text :: "url_values \<Rightarrow> string" where
  "resolved_text vs =
     concat (map (\<lambda>t. concat (map (\<lambda>a. t @ ''  '' @ a @ [LF]) (case map_of vs t of None \<Rightarrow> [] | Some as \<Rightarrow> as)))
       (sort (map fst vs)))"

definition aliasesResolve :: "'s util_env \<Rightarrow> 's \<Rightarrow> outcome \<times> 's" where
  "aliasesResolve env st =
     (case load_config env of
        Inl e \<Rightarrow> (Fatalf e, st)
      | Inr conf \<Rightarrow>
          (case call_daemon env conf ''AliasResolve'' ''Address'' st of
             (Inl e, st') \<Rightarrow> (Fatalf (''Error resolving: '' @ e), st')
           | (Inr vs, st') \<Rightarrow> (prints (resolved_text vs), st')))"

definition printConfig :: "'s util_env \<Rightarrow> outcome" where
  "printConfig env = (case load_config env of Inl e \<Rightarrow> Fatalf e | Inr conf \<Rightarrow> prints (ue_Format env conf @ [LF]))"

definition domaininfoRemove :: "'s util_env \<Rightarrow> 's \<Rightarrow> outcome \<times> 's" where
  "domaininfoRemove env st =
     (case load_config env of
        Inl e \<Rightarrow> (Fatalf e, st)
      | Inr conf \<Rightarrow>
          (case call_daemon env conf ''DomaininfoClear'' ''Domain'' st of
             (Inl e, st') \<Rightarrow> (Fatalf (''Error removing domaininfo entry: '' @ e), st')
           | (Inr _, st') \<Rightarrow> (prints [], st')))"

section \<open>DKIM keys\<close>

definition keyPathFor :: "'s util_env \<Rightarrow> string \<Rightarrow> string \<Rightarrow> string" where
  "keyPathFor env domain selector =
     path_Clean (configDir_of (ue_args env) @ ''/domains/'' @ domain @ ''/dkim:'' @ selector @ ''.pem'')"

definition findSelectorForDomain :: "'s util_env \<Rightarrow> string \<Rightarrow> (string, string) result" where
  "findSelectorForDomain env domain =
     (let glob = path_Clean (configDir_of (ue_args env) @ ''/domains/'' @ domain @ ''/dkim:*.pem'') in
      case ue_Glob env glob of
        Inl e \<Rightarrow> Err (''Error finding DKIM keys: '' @ e)
      | Inr [] \<Rightarrow> Err (''No DKIM keys found in '' @ Quote (tl_unicode (ue_text env)) glob)
      | Inr (m # _) \<Rightarrow> Ok (TrimSuffix (TrimPrefix (path_Base m) ''dkim:'') ''.pem''))"

text \<open>That the key has no \<open>crypto.Signer\<close> is a panic.\<close>

definition loadPrivateKey :: "'s util_env \<Rightarrow> string \<Rightarrow> (string, private_key) result" where
  "loadPrivateKey env path =
     (case ke_ReadFile (ue_keys env) path of
        Inl e \<Rightarrow> Err (''Error reading private key from '' @ Quote (tl_unicode (ue_text env)) path @ '': '' @ e)
      | Inr key \<Rightarrow>
          (case ke_pem (ue_keys env) key of
             None \<Rightarrow> Err ''Error decoding PEM block''
           | Some (type, contents) \<Rightarrow>
               if ToUpper (tl_unicode (ue_text env)) type = ''PRIVATE KEY'' then
                 (case ke_ParsePKCS8 (ue_keys env) contents of
                    Inl e \<Rightarrow> Err (''Error parsing private key: '' @ e)
                  | Inr k \<Rightarrow> if ue_signer env k then Ok k else Err ''interface conversion'')
               else Err (''Unsupported key type: '' @ type)))"

definition dnsRecordFor :: "'s util_env \<Rightarrow> string \<Rightarrow> string \<Rightarrow> private_key \<Rightarrow> (string, string) result" where
  "dnsRecordFor env domain selector private =
     (let (algo, pub) =
        (case private of
           RSAPrivateKey _ \<Rightarrow> (''rsa'', ue_rsa_public env private)
         | Ed25519PrivateKey _ \<Rightarrow> (''ed25519'', Ok (ue_ed25519_public env private))
         | OtherPrivateKey \<Rightarrow> ([], Ok []))
      in case pub of
           Inl e \<Rightarrow> Err (''Error marshaling public key: '' @ e)
         | Inr pubBytes \<Rightarrow>
             Ok (selector @ ''._domainkey.'' @ domain @ [TAB] @ ''TXT'' @ [TAB, CHR 0x22] @ ''v=DKIM1; k='' @ algo @ ''; p='' @ b64_encode pubBytes @ [CHR 0x22]))"

text \<open>The selector and the path of the key that a command works on.\<close>

definition selector_and_key :: "'s util_env \<Rightarrow> string \<Rightarrow> (string, string \<times> string) result" where
  "selector_and_key env domain =
     (let selector = arg (ue_args env) ''$3''; keyPath = arg (ue_args env) ''$4'' in
      and_then (if selector = [] then findSelectorForDomain env domain else Ok selector) (\<lambda>selector.
      Ok (selector, if keyPath = [] then keyPathFor env domain selector else keyPath)))"

definition to_outcome :: "(string, string) result \<Rightarrow> outcome" where
  "to_outcome r = (case r of Inl e \<Rightarrow> Fatalf e | Inr out \<Rightarrow> prints out)"

definition dkimDNS :: "'s util_env \<Rightarrow> outcome" where
  "dkimDNS env =
     (let domain = arg (ue_args env) ''$2'' in
      if domain = [] then Fatalf ''Error: missing domain parameter''
      else to_outcome
        (and_then (selector_and_key env domain) (\<lambda>(selector, keyPath).
         and_then (loadPrivateKey env keyPath) (\<lambda>k.
         and_then (dnsRecordFor env domain selector k) (\<lambda>rec. Ok (rec @ [LF]))))))"

definition getDomainFromMsg :: "'s util_env \<Rightarrow> string \<Rightarrow> (string, string) result" where
  "getDomainFromMsg env msg =
     (case ue_From env msg of
        Inl e \<Rightarrow> Err (''Error parsing message: '' @ e)
      | Inr from_value \<Rightarrow>
          (case ue_ParseAddress env from_value of
             Inl e \<Rightarrow> Err (''Error parsing From: header: '' @ e)
           | Inr addr \<Rightarrow> Ok (DomainOf addr)))"

definition util_dkimSign :: "'s util_env \<Rightarrow> outcome" where
  "util_dkimSign env =
     (let domain = arg (ue_args env) ''$2'' in
      to_outcome
        (and_then (ue_stdin env) (\<lambda>msg.
         let msg = ToCRLF msg in
         and_then (if domain = [] then getDomainFromMsg env msg else Ok domain) (\<lambda>domain.
         and_then (selector_and_key env domain) (\<lambda>(selector, keyPath).
         and_then (loadPrivateKey env keyPath) (\<lambda>k.
         case Sign (tl_unicode (ue_text env)) (ue_dkim env) (ue_sign env) (ue_now env)
                \<lparr>sg_Domain = domain, sg_Selector = selector, sg_Signer = k\<rparr> msg of
           Inl e \<Rightarrow> Err (''Error signing message: '' @ ue_dkim_text env e)
         | Inr header \<Rightarrow> Ok (''DKIM-Signature: '' @ ReplaceAll header CRLF (CRLF @ [TAB]) @ CRLF)))))))"

text \<open>\<open>None\<close> is the panic of \<open>VerifyMessage\<close>. A record on the command line takes the place of the DNS.\<close>

definition util_dkimVerify :: "'s util_env \<Rightarrow> outcome option" where
  "util_dkimVerify env =
     (case ue_stdin env of
        Inl e \<Rightarrow> Some (Fatalf e)
      | Inr msg \<Rightarrow>
          (let denv = (case map_of (ue_args env) ''--txt'' of
                         None \<Rightarrow> ue_dkim env
                       | Some record_text \<Rightarrow> (ue_dkim env)\<lparr>lookupTXT := (\<lambda>_. Ok [record_text])\<rparr>)
           in case VerifyMessage (tl_unicode (ue_text env)) denv maxHeaders_default (ToCRLF msg) of
                None \<Rightarrow> None
              | Some (Inl e) \<Rightarrow> Some (Fatalf (''Error verifying message: '' @ ue_dkim_text env e))
              | Some (Inr results) \<Rightarrow>
                  Some (prints (''Authentication-Results: '' @ ue_hostname env @ CRLF @ [TAB]
                    @ ReplaceAll (AuthenticationResults (tl_unicode (ue_text env)) (ue_dkim_text env) results) CRLF (CRLF @ [TAB]) @ [LF]))))"

text \<open>The file of the new key; \<open>O_EXCL\<close> makes creating one that exists an error.\<close>

definition dkimKeygen :: "'s util_env \<Rightarrow> (string \<times> string) list \<Rightarrow> outcome \<times> (string \<times> string) list" where
  "dkimKeygen env key_files =
     (let domain = arg (ue_args env) ''$2''; algo = arg (ue_args env) ''--algo'';
          selector = (if arg (ue_args env) ''$3'' = [] then ue_today env else arg (ue_args env) ''$3'');
          keyPath = (if arg (ue_args env) ''$4'' = [] then keyPathFor env domain selector else arg (ue_args env) ''$4'');
          quoted = Quote (tl_unicode (ue_text env)) keyPath
      in if domain = [] then (Fatalf ''Error: missing domain parameter'', key_files)
         else if map_of key_files keyPath \<noteq> None then (Fatalf (''Error: key already exists at '' @ quoted), key_files)
         else if algo \<notin> {[], ''rsa3072'', ''rsa4096'', ''ed25519''} then
           (Fatalf (''Error: unsupported algorithm '' @ Quote (tl_unicode (ue_text env)) algo), key_files)
         else case ue_generate env (if algo = [] then ''rsa3072'' else algo) of
             Inl e \<Rightarrow> (Fatalf (''Error generating key: '' @ e), key_files)
           | Inr private \<Rightarrow>
               (case ue_MarshalPKCS8 env private of
                  Inl e \<Rightarrow> (Fatalf (''Error marshaling private key: '' @ e), key_files)
                | Inr privB \<Rightarrow>
                    (case ue_create env keyPath of
                       Some e \<Rightarrow> (Fatalf (''Error creating key file '' @ quoted @ '': '' @ e), key_files)
                     | None \<Rightarrow>
                         (case ue_pem env ''PRIVATE KEY'' privB of
                            Inl e \<Rightarrow> (Fatalf (''Error PEM-encoding key: '' @ e), AList.update keyPath [] key_files)
                          | Inr contents \<Rightarrow>
                              (let out = ''Key written to '' @ quoted @ [LF, LF]; key_files = AList.update keyPath contents key_files in
                               case dnsRecordFor env domain selector private of
                                 Inl e \<Rightarrow> ((out, Some e), key_files)
                               | Inr rec \<Rightarrow> (prints (out @ rec @ [LF]), key_files))))))"

section \<open>The tool\<close>

text \<open>The text of the usage, which starts and ends with a line break.\<close>

definition usage :: string where
  "usage = LF # Join [
      ''Usage:'',
      ''  chasquid-util [options] user-add <user@domain> [--password=<password>] [--receive_only]'',
      ''    Add a user to the userdb.'',
      ''  chasquid-util [options] user-remove <user@domain>'',
      ''    Remove a user from the userdb.'',
      ''  chasquid-util [options] authenticate <user@domain> [--password=<password>]'',
      ''    Authenticate a user.'',
      ''  chasquid-util [options] check-userdb <domain>'',
      ''    Check if the userdb for the given domain is accessible.'',
      ''  chasquid-util [options] aliases-resolve <address>'',
      ''    Resolve an address. Talks to the running chasquid.'',
      ''  chasquid-util [options] domaininfo-remove <domain>'',
      ''    Remove domaininfo for the given domain. Talks to the running chasquid.'',
      ''  chasquid-util [options] print-config'',
      ''    Print the current chasquid configuration.'',
      [],
      ''  chasquid-util [options] dkim-keygen <domain> [<selector> <private-key.pem>] [--algo=rsa3072|rsa4096|ed25519]'',
      ''    Generate a new DKIM key pair for the domain.'',
      ''  chasquid-util [options] dkim-dns <domain> [<selector> <private-key.pem>]'',
      ''    Print the DNS TXT record to use for the domain, selector and'',
      ''    private key.'',
      [],
      ''Options:'',
      ''  -C=<path>, --config_dir=<path>  Configuration directory'',
      ''  -v                              Verbose mode''] [LF] @ [LF]"

text \<open>What a command may change: the files of users, those of keys, and the daemon.\<close>

record 's world =
  w_fs :: file_system
  w_keys :: "(string \<times> string) list"
  w_daemon :: 's

text \<open>\<open>None\<close> is a panic. The warning about the deprecated option goes to the error output.\<close>

definition util_main :: "'s util_env \<Rightarrow> 's world \<Rightarrow> (outcome \<times> 's world) option" where
  "util_main env w =
     (let verb = arg (ue_args env) ''$1'';
          on_fs = (\<lambda>(out, fs). Some (out, w\<lparr>w_fs := fs\<rparr>));
          on_daemon = (\<lambda>(out, st). Some (out, w\<lparr>w_daemon := st\<rparr>))
      in if has_arg (ue_args env) ''--help'' then Some (prints usage, w)
         else if verb = ''user-add'' then on_fs (userAdd env (w_fs w))
         else if verb = ''user-remove'' then on_fs (userRemove env (w_fs w))
         else if verb = ''authenticate'' then Some (util_authenticate env (w_fs w), w)
         else if verb = ''check-userdb'' then Some (checkUserDB env (w_fs w), w)
         else if verb = ''aliases-resolve'' then on_daemon (aliasesResolve env (w_daemon w))
         else if verb = ''print-config'' then Some (printConfig env, w)
         else if verb = ''domaininfo-remove'' then on_daemon (domaininfoRemove env (w_daemon w))
         else if verb = ''dkim-keygen'' then (let (out, ks) = dkimKeygen env (w_keys w) in Some (out, w\<lparr>w_keys := ks\<rparr>))
         else if verb = ''dkim-dns'' then Some (dkimDNS env, w)
         else if verb = ''dkim-verify'' then map_option (\<lambda>out. (out, w)) (util_dkimVerify env)
         else if verb = ''dkim-sign'' then Some (util_dkimSign env, w)
         else Some ((''Unknown argument '' @ Quote (tl_unicode (ue_text env)) verb @ [LF], Some usage), w))"

section \<open>What the commands for keys do\<close>

text \<open>
  A generated key can be loaded again, by the tool and by the daemon, when the encodings are inverse to
  each other; no other key is touched, and never one that was there before.
\<close>

lemma dkimKeygen_loads:
  assumes "dkimKeygen env ks = ((out, None), ks')"
    and "\<And>t c s. ue_pem env t c = Ok s \<Longrightarrow> ke_pem (ue_keys env) s = Some (t, c)"
    and "\<And>k b. ue_MarshalPKCS8 env k = Ok b \<Longrightarrow> ke_ParsePKCS8 (ue_keys env) b = Ok k"
    and "\<And>p s. map_of ks' p = Some s \<Longrightarrow> ke_ReadFile (ue_keys env) p = Ok s" "\<And>k. ue_signer env k"
  shows "\<exists>keyPath k. map_of ks keyPath = None \<and> loadPrivateKey env keyPath = Ok k \<and> (\<forall>p. p \<noteq> keyPath \<longrightarrow> map_of ks' p = map_of ks p)"
proof -
  obtain keyPath k b s where k: "map_of ks keyPath = None" "ue_MarshalPKCS8 env k = Ok b" "ue_pem env ''PRIVATE KEY'' b = Ok s"
    "ks' = AList.update keyPath s ks"
    using assms(1) by (auto simp: dkimKeygen_def Let_def split: if_splits sum.splits option.splits)
  have "ToUpper (tl_unicode (ue_text env)) ''PRIVATE KEY'' = ''PRIVATE KEY''"
    by (simp add: ToUpper_def is_ascii_def is_ascii_byte_def upper_byte_def in_range_def)
  moreover have "ke_ReadFile (ue_keys env) keyPath = Ok s" using k(4) assms(4) by (simp add: update_conv')
  ultimately have "loadPrivateKey env keyPath = Ok k"
    using assms(2) [OF k(3)] assms(3) [OF k(2)] assms(5) by (simp add: loadPrivateKey_def)
  then show ?thesis using k by (auto simp: update_conv')
qed

section \<open>What the commands for users do\<close>

lemma userDBFromArgs_Ok:
  assumes "userDBFromArgs env create fs = (out, Ok (user, domain, db))"
  shows "ud_fname db = userDBForDomain env domain" "ud_Load (ue_users env) fs (userDBForDomain env domain) = (db, None)"
    "ud_Load (ue_users env) fs' (userDBForDomain env domain) = (db', None) \<Longrightarrow> userDBFromArgs env False fs' = ([], Ok (user, domain, db'))"
proof -
  show l: "ud_Load (ue_users env) fs (userDBForDomain env domain) = (db, None)"
    using assms by (auto simp: userDBFromArgs_def Let_def split: prod.splits if_splits option.splits)
  then show "ud_fname db = userDBForDomain env domain"
    by (auto simp: ud_Load_def ud_New_def split: sum.splits read_error.splits)
  assume "ud_Load (ue_users env) fs' (userDBForDomain env domain) = (db', None)"
  then show "userDBFromArgs env False fs' = ([], Ok (user, domain, db'))"
    using assms by (auto simp: userDBFromArgs_def Let_def split: prod.splits if_splits option.splits)
qed

lemma write_users_Load:
  assumes "codec_ok (ue_users env)" "write_users env out msg db fs = ((out', None), fs')"
  shows "ud_Load (ue_users env) fs' (ud_fname db) = (db, None)"
  using assms ud_Write_Load [OF assms(1)] by (auto simp: write_users_def split: prod.splits option.splits)

text \<open>
  C28. The tool and the daemon agree about users. When \<open>user-add\<close> succeeds with a password, the database that
  is read back from the disk accepts that password for the normalized user, so \<open>authenticate\<close> with the same
  arguments succeeds; the other users of the domain are as before. When \<open>user-remove\<close> then succeeds,
  \<open>authenticate\<close> fails.
\<close>

theorem user_commands:
  assumes "codec_ok (ue_users env)" "map_of (ue_args env) ''--password'' = Some pw"
    and "userAdd env fs = ((out, None), fs')"
  shows "util_authenticate env fs' = prints (''Authentication succeeded'' @ [LF]) \<and>
    (\<exists>user domain db db'. DomainOf (arg (ue_args env) ''$2'') = domain \<and> fst (User (ue_text env) (UserOf (arg (ue_args env) ''$2''))) = user \<and>
       ud_Load (ue_users env) fs (userDBForDomain env domain) = (db, None) \<and>
       ud_Load (ue_users env) fs' (userDBForDomain env domain) = (db', None) \<and>
       ud_Authenticate (ue_kdf env) db' user pw = Ok True \<and>
       (\<forall>u. u \<noteq> user \<longrightarrow> map_of (Users db') u = map_of (Users db) u)) \<and>
    (\<forall>out2 fs''. userRemove env fs' = ((out2, None), fs'') \<longrightarrow> util_authenticate env fs'' = Fatalf ''Authentication failed'')"
proof -
  obtain o1 user domain db where d: "userDBFromArgs env True fs = (o1, Ok (user, domain, db))"
    using assms(3) by (auto simp: userAdd_def split: prod.splits sum.splits)
  note load = userDBFromArgs_Ok [OF d]
  have nm: "domain = DomainOf (arg (ue_args env) ''$2'')" "user = fst (User (ue_text env) (UserOf (arg (ue_args env) ''$2'')))"
    using d by (auto simp: userDBFromArgs_def DomainOf_def UserOf_def Let_def split: prod.splits if_splits option.splits)
  have pw: "getPassword env = ([], Ok pw)" using assms(2) by (simp add: getPassword_def)
  obtain db' o3 where a: "AddUser (ue_text env) (ue_kdf env) (ue_rand env) db user pw = (db', None)"
    "write_users env o3 ''Added user'' db' fs = ((out, None), fs')"
    using assms(2,3) d pw by (auto simp: userAdd_def has_arg_def Let_def split: if_splits prod.splits option.splits)
  note add = AddUser_authenticates [OF a(1)]
  have l': "ud_Load (ue_users env) fs' (userDBForDomain env domain) = (db', None)"
    using write_users_Load [OF assms(1) a(2)] add(2) load(1) by simp
  note args' = load(3) [OF l']
  have "util_authenticate env fs' = prints (''Authentication succeeded'' @ [LF])"
    using args' pw add(1) by (simp add: util_authenticate_def)
  moreover have "util_authenticate env fs'' = Fatalf ''Authentication failed''" if r: "userRemove env fs' = ((o2, None), fs'')" for o2 fs''
  proof -
    let ?db = "db'\<lparr>Users := AList.delete user (Users db')\<rparr>"
    have w: "write_users env [] ''Removed user'' ?db fs' = ((o2, None), fs'')"
      using r args' by (auto simp: userRemove_def RemoveUser_def split: bool.splits)
    have "ud_Load (ue_users env) fs'' (userDBForDomain env domain) = (?db, None)"
      using write_users_Load [OF assms(1) w] add(2) load(1) by simp
    from load(3) [OF this] show ?thesis using pw by (simp add: util_authenticate_def ud_Authenticate_def delete_conv')
  qed
  ultimately show ?thesis using nm load(2) l' add(1,3) by blast
qed

section \<open>An example\<close>

definition ex_password :: Password where
  "ex_password = Password_Scrypt \<lparr>LogN = 14, sc_R = 8, sc_P = 1, KeyLen = 32, Salt = replicate 16 NUL, Encrypted = ''pw'' @ replicate 16 NUL\<rparr>"

definition ex_util :: "unit util_env" where
  "ex_util =
     \<lparr>ue_args = parseArgs [''user-add'', ''Ana@d'', ''--password=pw''], ue_text = ascii_text, ue_kdf = ex_kdf,
      ue_users = \<lparr>marshal = (\<lambda>us. if us = [(''ana'', ex_password)] then Ok ''u'' else if us = [] then Ok [] else Err ''?''),
                  unmarshal = (\<lambda>s. if s = ''u'' then Ok [(''ana'', ex_password)] else if s = [] then Ok [] else Err ''?'')\<rparr>,
      ue_rand = Ok (replicate 16 NUL),
      ue_write = \<lparr>we_create = Ok ''1'', we_chmod = None, we_chown = None, we_write = None, we_close = None, we_rename = None, we_remove = True,
                  we_owner = (0, 0), we_now = 0\<rparr>,
      ue_no_dir = (\<lambda>_. True), ue_mkdir = (\<lambda>_. None), ue_password = Err [], ue_confirm = Err [], ue_config = ex_config, ue_conf_text = (\<lambda>_. []),
      ue_Format = (\<lambda>_. []), ue_net = (\<lambda>_. \<lparr>rn_dial = Some [], rn_write = None, rn_peer = (\<lambda>s _. (\<lparr>r_bytes = [], r_end = EOF\<rparr>, s))\<rparr>),
      ue_auth_text = (\<lambda>_. []), ue_keys = \<lparr>ke_ReadFile = (\<lambda>_. Err []), ke_pem = (\<lambda>_. None), ke_ParsePKCS8 = (\<lambda>_. Err [])\<rparr>,
      ue_signer = (\<lambda>_. True), ue_Glob = (\<lambda>_. Ok []), ue_stdin = Err [], ue_From = (\<lambda>_. Err []), ue_ParseAddress = (\<lambda>_. Err []),
      ue_dkim = ce_dkim ex_cmd, ue_sign = (\<lambda>_ _. Ok []), ue_dkim_text = (\<lambda>_. []), ue_hostname = [], ue_now = 0, ue_today = [],
      ue_rsa_public = (\<lambda>_. Ok []), ue_ed25519_public = (\<lambda>_. []), ue_generate = (\<lambda>_. Err []), ue_MarshalPKCS8 = (\<lambda>_. Err []),
      ue_create = (\<lambda>_. None), ue_pem = (\<lambda>_ _. Ok [])\<rparr>"

lemma ex_util_args: "ue_args ex_util = [(''$1'', ''user-add''), (''$2'', ''Ana@d''), (''--password'', ''pw'')]"
  by (simp add: ex_util_def parseArgs_def HasPrefix_def SplitN2_def go_eval FormatUint.simps digit_char_def)

lemma ex_util_add: "\<exists>out fs'. userAdd ex_util [] = ((out, None), fs')"
proof -
  have e: "ue_text ex_util = ascii_text" "ue_kdf ex_util = ex_kdf" "ue_rand ex_util = Ok (replicate 16 NUL)"
    "ue_no_dir ex_util p" "ue_mkdir ex_util p = None" for p by (simp_all add: ex_util_def)
  have l: "ud_Load cd [] p = (ud_New p, None)" for cd p by (simp add: ud_Load_def ReadTextMessage_def)
  have "Split_addr ''Ana@d'' = (''Ana'', ''d'')" "User ascii_text ''Ana'' = (''ana'', None)" by (simp_all add: go_eval char_of_nat_eq2)
  then obtain o1 path where d: "userDBFromArgs ex_util True [] = (o1, Ok (''ana'', ''d'', ud_New path))"
    using e(1,4,5) l by (simp add: userDBFromArgs_def arg_def ex_util_args Let_def)
  have "name_ok ascii_text ''ana''" by (simp add: name_ok_def go_eval char_of_nat_eq2)
  then have a: "AddUser ascii_text ex_kdf (Ok (replicate 16 NUL)) (ud_New path) ''ana'' ''pw'' = (\<lparr>ud_fname = path, Users = [(''ana'', ex_password)]\<rparr>, None)"
    by (simp add: AddUser_def scrypt_key_def ex_kdf_def ud_New_def ex_password_def Let_def)
  have "\<exists>tr. ud_Write (ue_users ex_util) (ue_write ex_util) [] \<lparr>ud_fname = path, Users = [(''ana'', ex_password)]\<rparr> = (None, tr)"
    by (simp add: ud_Write_def WriteTextMessage_def WriteFile_def ex_util_def write_tmp_def write_body_def write_finish_def Let_def)
  then obtain tr where w: "ud_Write (ue_users ex_util) (ue_write ex_util) [] \<lparr>ud_fname = path, Users = [(''ana'', ex_password)]\<rparr> = (None, tr)" by blast
  have "getPassword ex_util = ([], Ok ''pw'')" by (simp add: getPassword_def ex_util_args)
  then show ?thesis using d a w e ex_util_args by (simp add: userAdd_def has_arg_def write_users_def)
qed

theorem user_commands_witness:
  "\<exists>out fs'. userAdd ex_util [] = ((out, None), fs') \<and> util_authenticate ex_util fs' = prints (''Authentication succeeded'' @ [LF])"
proof -
  obtain out fs' where a: "userAdd ex_util [] = ((out, None), fs')" using ex_util_add by blast
  have "codec_ok (ue_users ex_util)" by (auto simp: codec_ok_def ex_util_def)
  moreover have "map_of (ue_args ex_util) ''--password'' = Some ''pw''" by (simp add: ex_util_args)
  ultimately show ?thesis using user_commands [OF _ _ a] a by blast
qed

end
