(* ===== verification/MdaLmtp.thy ===== *)
theory MdaLmtp
  imports SmtpClient DotReader
begin

text \<open>
  \<open>src/cmd/mda-lmtp/mda-lmtp.go\<close>: a delivery agent that hands one message to an LMTP server. The
  server is given by what it answers to each line, as for the SMTP client. The message is written by the
  \<open>DotWriter\<close> of \<open>net/textproto\<close>.
\<close>

section \<open>The writer of the message\<close>

datatype wstate = wstateBegin | wstateBeginLine | wstateCR | wstateData

text \<open>One byte: the new state and what is written for it.\<close>

definition dot_byte :: "wstate \<Rightarrow> char \<Rightarrow> wstate \<times> string" where
  "dot_byte st c =
     (if st = wstateCR then (if c = LF then wstateBeginLine else wstateData, [c])
      else
        (let dot = (if st \<noteq> wstateData \<and> c = CHR ''.'' then ''.'' else []) in
         if c = CR then (wstateCR, dot @ [c])
         else if c = LF then (wstateBeginLine, dot @ [CR, c])
         else (wstateData, dot @ [c])))"

fun dot_write :: "wstate \<Rightarrow> string \<Rightarrow> wstate \<times> string" where
  "dot_write st [] = (st, [])"
| "dot_write st (c # s) =
     (let (st1, out) = dot_byte st c; (st2, rest) = dot_write st1 s in (st2, out @ rest))"

definition dot_close :: "wstate \<Rightarrow> string" where
  "dot_close st =
     (if st = wstateBeginLine then [] else if st = wstateCR then [LF] else [CR, LF]) @ ''.'' @ [CR, LF]"

definition DotWriter :: "string \<Rightarrow> string" where
  "DotWriter s = (let (st, out) = dot_write wstateBegin s in out @ dot_close st)"

section \<open>The program\<close>

record lmtp_env =
  lm_addr :: string
  lm_network :: string
  lm_fromwhom :: string
  lm_recipient :: string
  lm_toPuny :: bool
  lm_ToASCII :: "string \<Rightarrow> (string, string) result"
  lm_dial :: "string \<Rightarrow> string \<Rightarrow> string option"
  lm_greeting :: reply
  lm_hostname :: "(string, string) result"
  lm_write :: "string \<Rightarrow> string option"
  lm_reply :: "string \<Rightarrow> reply"
  lm_stdin :: "string \<times> string option"
  lm_delivery :: reply

datatype mda_exit = permExit | tempExit | exit0

text \<open>How the program exits, and what it sent: the lines, and the message if it came to that.\<close>

type_synonym lmtp_outcome = "mda_exit \<times> string list \<times> string option"

definition lmtp_cmd :: "lmtp_env \<Rightarrow> int \<Rightarrow> string \<Rightarrow> bool" where
  "lmtp_cmd env expectCode line \<longleftrightarrow> lm_write env line = None \<and> read_response expectCode (lm_reply env line) = None"

text \<open>Commands in order, until one fails; the lines that were sent.\<close>

fun lmtp_cmds :: "lmtp_env \<Rightarrow> (int \<times> string) list \<Rightarrow> bool \<times> string list" where
  "lmtp_cmds env [] = (True, [])"
| "lmtp_cmds env ((code, line) # rest) =
     (if lm_write env line \<noteq> None then (False, [])
      else if lmtp_cmd env code line then (let (ok, sent) = lmtp_cmds env rest in (ok, line # sent))
      else (False, [line]))"

definition lmtp_session :: "lmtp_env \<Rightarrow> string \<Rightarrow> string \<Rightarrow> lmtp_outcome" where
  "lmtp_session env fromwhom recipient =
     (if read_response 220 (lm_greeting env) \<noteq> None then (tempExit, [], None)
      else case lm_hostname env of
          Inl e \<Rightarrow> (tempExit, [], None)
        | Inr hostname \<Rightarrow>
            (let fromwhom = (if fromwhom = ''<>'' then [] else fromwhom);
                 recipient = (if recipient = ''<>'' then [] else recipient);
                 (ok, sent) = lmtp_cmds env
                   [(250, ''LHLO '' @ hostname), (250, ''MAIL FROM:<'' @ fromwhom @ ''>''),
                    (250, ''RCPT TO:<'' @ recipient @ ''>''), (354, ''DATA'')]
             in if \<not> ok then (tempExit, sent, None)
                else
                  (let body = Some (DotWriter (fst (lm_stdin env))) in
                   if snd (lm_stdin env) \<noteq> None then (tempExit, sent, body)
                   else if read_response 250 (lm_delivery env) \<noteq> None then (tempExit, sent, body)
                   else
                     (let (ok, quit) = lmtp_cmds env [(221, ''QUIT'')]
                      in (if ok then exit0 else tempExit, sent @ quit, body)))))"

definition mda_lmtp :: "lmtp_env \<Rightarrow> lmtp_outcome" where
  "mda_lmtp env =
     (if lm_addr env = [] then (permExit, [], None)
      else
        (let puny = (\<lambda>a. if lm_toPuny env then lm_ToASCII env a else Ok a);
             network = (if lm_network env = [] then (if HasPrefix (lm_addr env) ''/'' then ''unix'' else ''tcp'') else lm_network env)
         in case puny (lm_fromwhom env) of
              Inl e \<Rightarrow> (permExit, [], None)
            | Inr fromwhom \<Rightarrow>
                (case puny (lm_recipient env) of
                   Inl e \<Rightarrow> (permExit, [], None)
                 | Inr recipient \<Rightarrow>
                     if lm_dial env network (lm_addr env) \<noteq> None then (tempExit, [], None)
                     else lmtp_session env fromwhom recipient)))"

section \<open>The message arrives as it is\<close>

lemma dot_write_append:
  "dot_write st (a @ b) = (let (s1, o1) = dot_write st a; (s2, o2) = dot_write s1 b in (s2, o1 @ o2))"
  by (induction a arbitrary: st) (auto simp: Let_def split: prod.splits)

lemma dot_write_data: "\<forall>c \<in> set l. plain_byte c \<Longrightarrow> dot_write wstateData l = (wstateData, l)"
  by (induction l) (auto simp: dot_byte_def plain_byte_def Let_def)

lemma dot_write_line:
  assumes "\<forall>c \<in> set l. plain_byte c" "st = wstateBegin \<or> st = wstateBeginLine"
  shows "dot_write st (l @ [LF]) = (wstateBeginLine, stuff l @ CRLF)"
proof (cases l)
  case Nil
  then show ?thesis using assms(2) by (auto simp: dot_byte_def stuff_def)
next
  case (Cons c cs)
  then have "dot_byte st c = (wstateData, if c = CHR ''.'' then ''..'' else [c])"
    using assms by (auto simp: dot_byte_def plain_byte_def)
  moreover have "dot_write wstateData (cs @ [LF]) = (wstateBeginLine, cs @ CRLF)"
    using dot_write_data [of cs] Cons assms(1) by (simp add: dot_write_append dot_byte_def)
  ultimately show ?thesis using Cons by (simp add: stuff_def)
qed

lemma dot_write_lines:
  "\<forall>l \<in> set ls. \<forall>c \<in> set l. plain_byte c \<Longrightarrow> st = wstateBegin \<or> st = wstateBeginLine \<Longrightarrow>
     dot_write st (concat (map (\<lambda>l. l @ [LF]) ls)) = (if ls = [] then st else wstateBeginLine, wire (map stuff ls))"
proof (induction ls arbitrary: st)
  case (Cons l ls)
  let ?rest = "concat (map (\<lambda>l. l @ [LF]) ls)"
  have a: "dot_write st (l @ [LF]) = (wstateBeginLine, stuff l @ CRLF)" using dot_write_line Cons.prems by simp
  have b: "dot_write wstateBeginLine ?rest = (wstateBeginLine, wire (map stuff ls))" using Cons by simp
  have "dot_write st ((l @ [LF]) @ ?rest) = (wstateBeginLine, (stuff l @ CRLF) @ wire (map stuff ls))"
    by (simp only: dot_write_append [of st "l @ [LF]" ?rest] a b Let_def prod.case)
  then show ?case by (simp add: wire_def)
qed (simp add: wire_def)

lemma wire_stuff_line: "\<forall>c \<in> set l. plain_byte c \<Longrightarrow> wire_line (stuff l)"
  by (cases l) (auto simp: wire_line_def stuff_def plain_byte_def)

text \<open>
  A message of lines that the agent hands over is one that chasquid's own reader would read back
  unchanged: no line of it can end the message early.
\<close>

theorem DotWriter_readUntilDot:
  assumes "ls \<noteq> []" "\<forall>l \<in> set ls. \<forall>c \<in> set l. plain_byte c"
    and "int (length (DotWriter (concat (map (\<lambda>l. l @ [LF]) ls)))) \<le> mx"
  shows "readUntilDot \<lparr>r_bytes = DotWriter (concat (map (\<lambda>l. l @ [LF]) ls)) @ rest, r_end = e\<rparr> mx
    = (concat (map (\<lambda>l. l @ [LF]) ls), None, \<lparr>r_bytes = rest, r_end = e\<rparr>)"
proof -
  have w: "DotWriter (concat (map (\<lambda>l. l @ [LF]) ls)) = wire (map stuff ls) @ terminator"
    using dot_write_lines [OF assms(2), of wstateBegin] assms(1) by (simp add: DotWriter_def dot_close_def)
  have "unstuff (stuff l) = l" for l by (cases l) (auto simp: unstuff_def stuff_def)
  then have u: "unwire (map stuff ls) = concat (map (\<lambda>l. l @ [LF]) ls)" by (simp add: unwire_def comp_def)
  have "\<forall>w \<in> set (map stuff ls). wire_line w" using assms(2) wire_stuff_line by simp
  from readUntilDot_wire [OF this, of mx rest e] show ?thesis using assms(3) u unfolding w by simp
qed

theorem DotWriter_readUntilDot_witness:
  "readUntilDot \<lparr>r_bytes = DotWriter (''a'' @ [LF] @ ''.'' @ [LF] @ ''b'' @ [LF]) @ ''QUIT'', r_end = EOF\<rparr> 50
     = (''a'' @ [LF] @ ''.'' @ [LF] @ ''b'' @ [LF], None, \<lparr>r_bytes = ''QUIT'', r_end = EOF\<rparr>)"
  using DotWriter_readUntilDot [of "[''a'', ''.'', ''b'']" 50 "''QUIT''" EOF]
  by (simp add: plain_byte_def DotWriter_def dot_byte_def dot_close_def)

text \<open>
  The program reports success only when the server took the message for this sender and recipient, and
  then it sent exactly the commands of one delivery. A usage error is the only permanent one.
\<close>

lemma lmtp_cmds_Ok: "lmtp_cmds env cs = (True, sent) \<Longrightarrow> sent = map snd cs \<and> (\<forall>(code, line) \<in> set cs. lmtp_cmd env code line)"
  by (induction env cs arbitrary: sent rule: lmtp_cmds.induct) (auto split: if_splits prod.splits)

lemma lmtp_session_exit0:
  assumes "lmtp_session env f r = (exit0, sent, body)" "f \<noteq> ''<>''" "r \<noteq> ''<>''"
  shows "\<exists>hostname. lm_hostname env = Ok hostname \<and>
    sent = [''LHLO '' @ hostname, ''MAIL FROM:<'' @ f @ ''>'', ''RCPT TO:<'' @ r @ ''>'', ''DATA'', ''QUIT''] \<and>
    body = Some (DotWriter (fst (lm_stdin env))) \<and> snd (lm_stdin env) = None \<and> read_response 250 (lm_delivery env) = None"
proof -
  obtain h where h: "lm_hostname env = Ok h" using assms(1) by (auto simp: lmtp_session_def split: if_splits sum.splits)
  define cs where "cs = [(250 :: int, ''LHLO '' @ h), (250, ''MAIL FROM:<'' @ f @ ''>''), (250, ''RCPT TO:<'' @ r @ ''>''), (354, ''DATA'')]"
  obtain ok s1 where c: "lmtp_cmds env cs = (ok, s1)" by fastforce
  obtain ok2 s2 where q: "lmtp_cmds env [(221, ''QUIT'')] = (ok2, s2)" by fastforce
  have run: "lmtp_session env f r =
      (if read_response 220 (lm_greeting env) \<noteq> None then (tempExit, [], None)
       else if \<not> ok then (tempExit, s1, None)
       else if snd (lm_stdin env) \<noteq> None then (tempExit, s1, Some (DotWriter (fst (lm_stdin env))))
       else if read_response 250 (lm_delivery env) \<noteq> None then (tempExit, s1, Some (DotWriter (fst (lm_stdin env))))
       else (if ok2 then exit0 else tempExit, s1 @ s2, Some (DotWriter (fst (lm_stdin env)))))"
    unfolding lmtp_session_def h sum.case Let_def if_not_P [OF assms(2)] if_not_P [OF assms(3)] cs_def [symmetric] c q prod.case by (rule refl)
  then have ok: "ok" "ok2" "snd (lm_stdin env) = None" "read_response 250 (lm_delivery env) = None" "sent = s1 @ s2" "body = Some (DotWriter (fst (lm_stdin env)))"
    using assms(1) unfolding run by (simp_all split: if_splits)
  have "s1 = map snd cs" using lmtp_cmds_Ok [of env cs s1] c ok(1) by simp
  moreover have "s2 = [''QUIT'']" using lmtp_cmds_Ok [of env "[(221, ''QUIT'')]" s2] q ok(2) by simp
  ultimately show ?thesis using ok h by (simp add: cs_def)
qed

lemma lmtp_session_temporary: "fst (lmtp_session env f r) \<in> {tempExit, exit0}"
  by (simp add: lmtp_session_def Let_def del: lmtp_cmds.simps split: sum.split prod.split)

end
