(* ===== verification/Nettrace.thy ===== *)
theory Nettrace
  imports GoStrings "HOL-Library.AList" "HOL-Library.Word"
begin

text \<open>
  \<open>src/internal/nettrace/evtring.go\<close>, \<open>histogram.go\<close> and \<open>trace.go\<close>: the traces of requests. A trace keeps
  its first events and a ring of its last ones; finished traces are kept in rings, by how long they
  took. Times are in nanoseconds, and the zero time is \<open>None\<close>. Pointers to traces are addresses in the
  list of all traces. A panic is \<open>None\<close>.
\<close>

section \<open>The ring of events\<close>

datatype evtType = evtLOG | evtCHILD | evtLINK | evtDROP

record event =
  When :: int
  e_Type :: evtType
  e_Ref :: "nat option"
  e_Msg :: string

record evtRing =
  er_evts :: "event list"
  er_max :: int
  er_pos :: int
  er_firstDrop :: "int option"

definition newEvtRing :: "int \<Rightarrow> evtRing" where
  "newEvtRing n = \<lparr>er_evts = [], er_max = n, er_pos = -1, er_firstDrop = None\<rparr>"

definition er_Add :: "evtRing \<Rightarrow> event \<Rightarrow> evtRing option" where
  "er_Add r e =
     (if int (length (er_evts r)) < er_max r then Some (r\<lparr>er_evts := er_evts r @ [e], er_pos := er_pos r + 1\<rparr>)
      else if er_max r \<le> 0 then None
      else
        (let pos = (er_pos r + 1) mod er_max r in
         if int (length (er_evts r)) \<le> pos then None
         else
           Some (r\<lparr>er_pos := pos,
                   er_firstDrop := (if er_firstDrop r = None then Some (When (er_evts r ! nat pos)) else er_firstDrop r),
                   er_evts := (er_evts r)[nat pos := e]\<rparr>)))"

text \<open>The events in the order \<open>Do\<close> visits them.\<close>

definition er_Do :: "evtRing \<Rightarrow> event list" where
  "er_Do r = map (\<lambda>i. er_evts r ! nat ((er_pos r + 1 + int i) mod int (length (er_evts r)))) [0..<length (er_evts r)]"

fun er_Add_all :: "evtRing \<Rightarrow> event list \<Rightarrow> evtRing option" where
  "er_Add_all r [] = Some r"
| "er_Add_all r (e # es) = Option.bind (er_Add r e) (\<lambda>r'. er_Add_all r' es)"

section \<open>The histogram\<close>

definition nBuckets :: nat where
  "nBuckets = 8"

definition buckets :: "int list" where
  "buckets = [0, 5000000, 10000000, 50000000, 100000000, 300000000, 1000000000, 10000000000]"

fun find_from :: "int list \<Rightarrow> int \<Rightarrow> int \<Rightarrow> int" where
  "find_from [] i latency = int nBuckets - 1"
| "find_from (d # ds) i latency = (if d \<le> latency then find_from ds (i + 1) latency else i - 1)"

definition findBucket :: "int \<Rightarrow> int" where
  "findBucket latency = find_from buckets 0 latency"

record histogram =
  h_count :: "64 word list"
  h_totalQ :: "64 word"
  h_totalT :: int
  h_min :: int
  h_max :: int

definition new_histogram :: histogram where
  "new_histogram = \<lparr>h_count = replicate nBuckets 0, h_totalQ = 0, h_totalT = 0, h_min = 0, h_max = 0\<rparr>"

definition h_Add :: "histogram \<Rightarrow> nat \<Rightarrow> int \<Rightarrow> histogram" where
  "h_Add h bucket latency =
     h\<lparr>h_min := (if h_totalQ h = 0 \<or> latency < h_min h then latency else h_min h),
       h_max := (if h_max h < latency then latency else h_max h),
       h_count := (h_count h)[bucket := h_count h ! bucket + 1],
       h_totalQ := h_totalQ h + 1,
       h_totalT := wrap64 (h_totalT h + latency)\<rparr>"

section \<open>The rings of finished traces\<close>

text \<open>\<open>ring.Ring\<close>: its values from the current one on; moving on puts the current one at the far side.\<close>

record traceRing =
  tg_ring :: "nat option list"
  tg_max :: nat
  tg_l :: nat

definition newTraceRing :: "nat \<Rightarrow> traceRing" where
  "newTraceRing n = \<lparr>tg_ring = replicate n None, tg_max = n, tg_l = 0\<rparr>"

definition tg_Add :: "traceRing \<Rightarrow> nat \<Rightarrow> traceRing" where
  "tg_Add r tr = r\<lparr>tg_ring := rotate1 ((tg_ring r)[0 := Some tr]), tg_l := (if tg_l r < tg_max r then tg_l r + 1 else tg_l r)\<rparr>"

definition tg_Len :: "traceRing \<Rightarrow> nat" where
  "tg_Len r = tg_l r"

definition tg_Do :: "traceRing \<Rightarrow> nat list" where
  "tg_Do r = List.map_filter (\<lambda>x. x) (tg_ring r)"

section \<open>Traces\<close>

type_synonym id = string

definition newID :: "string \<Rightarrow> int \<Rightarrow> nat \<Rightarrow> id" where
  "newID family ts rnd = family @ ''!'' @ FormatInt ts @ ''!'' @ FormatUint rnd"

definition id_Family :: "id \<Rightarrow> string" where
  "id_Family i = (case SplitN2 i ''!'' of [f, _] \<Rightarrow> f | _ \<Rightarrow> i)"

record trace =
  tr_ID :: id
  tr_Family :: string
  tr_Title :: string
  tr_Parent :: "nat option"
  tr_Start :: int
  tr_end :: "int option"
  tr_isError :: bool
  tr_maxEvents :: int
  tr_cutoff :: int
  tr_firstEvents :: "event list"
  tr_lastEvents :: "evtRing option"

definition defaultMaxEvents :: int where
  "defaultMaxEvents = 30"

definition tr_append :: "trace \<Rightarrow> event \<Rightarrow> trace option" where
  "tr_append tr evt =
     (if int (length (tr_firstEvents tr)) < tr_cutoff tr then Some (tr\<lparr>tr_firstEvents := tr_firstEvents tr @ [evt]\<rparr>)
      else
        (let r = (case tr_lastEvents tr of None \<Rightarrow> newEvtRing (tr_maxEvents tr - tr_cutoff tr) | Some r \<Rightarrow> r) in
         Option.bind (er_Add r evt) (\<lambda>r'. Some (tr\<lparr>tr_lastEvents := Some r'\<rparr>))))"

definition SetMaxEvents :: "int \<Rightarrow> trace \<Rightarrow> trace" where
  "SetMaxEvents n tr =
     (let n = (if n < 6 then 6 else n)
      in tr\<lparr>tr_maxEvents := n, tr_cutoff := n div 3\<rparr>)"

definition SetError :: "trace \<Rightarrow> trace" where
  "SetError tr = tr\<lparr>tr_isError := True\<rparr>"

definition Printf :: "int \<Rightarrow> string \<Rightarrow> trace \<Rightarrow> trace option" where
  "Printf now msg tr = tr_append tr \<lparr>When = now, e_Type = evtLOG, e_Ref = None, e_Msg = msg\<rparr>"

definition Errorf :: "int \<Rightarrow> string \<Rightarrow> trace \<Rightarrow> trace option" where
  "Errorf now msg tr = Printf now msg (SetError tr)"

definition Duration :: "int \<Rightarrow> trace \<Rightarrow> int" where
  "Duration now tr = (case tr_end tr of None \<Rightarrow> now - tr_Start tr | Some e \<Rightarrow> e - tr_Start tr)"

definition Events :: "trace \<Rightarrow> event list" where
  "Events tr =
     (case tr_lastEvents tr of
        None \<Rightarrow> tr_firstEvents tr
      | Some r \<Rightarrow>
          tr_firstEvents tr
          @ (case er_firstDrop r of None \<Rightarrow> [] | Some t \<Rightarrow> [\<lparr>When = t, e_Type = evtDROP, e_Ref = None, e_Msg = []\<rparr>])
          @ er_Do r)"

section \<open>Families\<close>

definition tracesInBucket :: nat where
  "tracesInBucket = 10"

record familyTraces =
  ft_active :: "(id \<times> nat) list"
  ft_finished :: "traceRing list"
  ft_errors :: traceRing
  ft_latencies :: histogram

definition newFamilyTraces :: familyTraces where
  "newFamilyTraces =
     \<lparr>ft_active = [], ft_finished = replicate nBuckets (newTraceRing tracesInBucket), ft_errors = newTraceRing tracesInBucket,
      ft_latencies = new_histogram\<rparr>"

definition LenActive :: "familyTraces \<Rightarrow> nat" where
  "LenActive ft = length (ft_active ft)"

definition LenErrors :: "familyTraces \<Rightarrow> nat" where
  "LenErrors ft = tg_Len (ft_errors ft)"

definition LenBucket :: "familyTraces \<Rightarrow> nat \<Rightarrow> nat option" where
  "LenBucket ft b = (if length (ft_finished ft) \<le> b then None else Some (tg_Len (ft_finished ft ! b)))"

text \<open>All traces, by their address, and the families.\<close>

record tracing =
  all_traces :: "trace list"
  families :: "(string \<times> familyTraces) list"

definition newTrace :: "int \<Rightarrow> nat \<Rightarrow> string \<Rightarrow> string \<Rightarrow> tracing \<Rightarrow> nat \<times> tracing" where
  "newTrace now rnd family title st =
     (let tr = \<lparr>tr_ID = newID family now rnd, tr_Family = family, tr_Title = title, tr_Parent = None, tr_Start = now, tr_end = None,
                tr_isError = False, tr_maxEvents = defaultMaxEvents, tr_cutoff = defaultMaxEvents div 3, tr_firstEvents = [],
                tr_lastEvents = None\<rparr>;
          p = length (all_traces st);
          ft = (case map_of (families st) family of None \<Rightarrow> newFamilyTraces | Some ft \<Rightarrow> ft);
          ft' = ft\<lparr>ft_active := AList.update (tr_ID tr) p (ft_active ft)\<rparr>
      in (p, st\<lparr>all_traces := all_traces st @ [tr], families := AList.update family ft' (families st)\<rparr>))"

definition update_trace :: "nat \<Rightarrow> (trace \<Rightarrow> trace option) \<Rightarrow> tracing \<Rightarrow> tracing option" where
  "update_trace p f st =
     Option.bind (f (all_traces st ! p)) (\<lambda>tr. Some (st\<lparr>all_traces := (all_traces st)[p := tr]\<rparr>))"

definition NewChild :: "int \<Rightarrow> nat \<Rightarrow> nat \<Rightarrow> string \<Rightarrow> string \<Rightarrow> tracing \<Rightarrow> (nat \<times> tracing) option" where
  "NewChild now rnd p family title st =
     (let (c, st1) = newTrace now rnd family title st;
          st2 = st1\<lparr>all_traces := (all_traces st1)[c := (all_traces st1 ! c)\<lparr>tr_Parent := Some p\<rparr>]\<rparr>
      in Option.bind (update_trace p (\<lambda>tr. tr_append tr \<lparr>When = now, e_Type = evtCHILD, e_Ref = Some c, e_Msg = []\<rparr>) st2)
           (\<lambda>st3. Some (c, st3)))"

definition Link :: "int \<Rightarrow> nat \<Rightarrow> nat \<Rightarrow> string \<Rightarrow> tracing \<Rightarrow> tracing option" where
  "Link now p other msg = update_trace p (\<lambda>tr. tr_append tr \<lparr>When = now, e_Type = evtLINK, e_Ref = Some other, e_Msg = msg\<rparr>)"

text \<open>A trace that has no end yet would have a latency far below zero, which has no bucket.\<close>

definition finalize :: "nat \<Rightarrow> trace \<Rightarrow> familyTraces \<Rightarrow> familyTraces option" where
  "finalize p tr ft =
     (case tr_end tr of
        None \<Rightarrow> None
      | Some e \<Rightarrow>
          (let latency = e - tr_Start tr;
               b = findBucket latency
           in if b < 0 \<or> int (length (ft_finished ft)) \<le> b then None
              else
                Some (ft\<lparr>ft_active := AList.delete (tr_ID tr) (ft_active ft),
                         ft_finished := (ft_finished ft)[nat b := tg_Add (ft_finished ft ! nat b) p],
                         ft_errors := (if tr_isError tr then tg_Add (ft_errors ft) p else ft_errors ft),
                         ft_latencies := h_Add (ft_latencies ft) (nat b) latency\<rparr>)))"

definition Finish :: "int \<Rightarrow> nat \<Rightarrow> tracing \<Rightarrow> tracing option" where
  "Finish now p st =
     (let tr = (all_traces st ! p)\<lparr>tr_end := Some now\<rparr>;
          st1 = st\<lparr>all_traces := (all_traces st)[p := tr]\<rparr>
      in case map_of (families st1) (tr_Family tr) of
           None \<Rightarrow> None
         | Some ft \<Rightarrow>
             Option.bind (finalize p tr ft) (\<lambda>ft'. Some (st1\<lparr>families := AList.update (tr_Family tr) ft' (families st1)\<rparr>)))"

section \<open>Contexts\<close>

text \<open>A context, as far as tracing looks at it: the trace attached to it.\<close>

type_synonym trace_ctx = "nat option"

definition NewContext :: "trace_ctx \<Rightarrow> nat \<Rightarrow> trace_ctx" where
  "NewContext ctx tr = Some tr"

definition FromContext :: "trace_ctx \<Rightarrow> nat option" where
  "FromContext ctx = ctx"

definition FromContextOrNew :: "int \<Rightarrow> nat \<Rightarrow> trace_ctx \<Rightarrow> string \<Rightarrow> string \<Rightarrow> tracing \<Rightarrow> (nat \<times> trace_ctx) \<times> tracing" where
  "FromContextOrNew now rnd ctx family title st =
     (case FromContext ctx of
        Some tr \<Rightarrow> ((tr, ctx), st)
      | None \<Rightarrow> (let (tr, st') = newTrace now rnd family title st in ((tr, NewContext ctx tr), st')))"

definition ChildFromContext :: "int \<Rightarrow> nat \<Rightarrow> trace_ctx \<Rightarrow> string \<Rightarrow> string \<Rightarrow> tracing \<Rightarrow> (nat \<times> tracing) option" where
  "ChildFromContext now rnd ctx family title st =
     (case FromContext ctx of
        Some parent \<Rightarrow> NewChild now rnd parent family title st
      | None \<Rightarrow> Some (newTrace now rnd family title st))"

section \<open>Looking traces up\<close>

text \<open>Newer first; the order of traces that started at the same time is left open by the code.\<close>

definition TracesFor :: "trace list \<Rightarrow> familyTraces \<Rightarrow> int \<Rightarrow> bool \<Rightarrow> nat list option" where
  "TracesFor trs ft b allgt =
     map_option (sort_key (\<lambda>p. - tr_Start (trs ! p)))
       (if b = -2 then Some (tg_Do (ft_errors ft))
        else if b = -1 then Some (map snd (ft_active ft))
        else if b < int nBuckets then
          (if b < 0 then None
           else
             Some (tg_Do (ft_finished ft ! nat b)
               @ (if allgt then concat (map (\<lambda>i. tg_Do (ft_finished ft ! i)) [Suc (nat b)..<nBuckets]) else [])))
        else Some [])"

text \<open>The last one with the ID that a ring visits.\<close>

definition find_in :: "trace list \<Rightarrow> id \<Rightarrow> traceRing \<Rightarrow> nat option" where
  "find_in trs i r = fold (\<lambda>p found. if tr_ID (trs ! p) = i then Some p else found) (tg_Do r) None"

fun find_in_all :: "trace list \<Rightarrow> id \<Rightarrow> traceRing list \<Rightarrow> nat option" where
  "find_in_all trs i [] = None"
| "find_in_all trs i (r # rs) = (case find_in trs i r of Some p \<Rightarrow> Some p | None \<Rightarrow> find_in_all trs i rs)"

definition ft_find :: "trace list \<Rightarrow> familyTraces \<Rightarrow> id \<Rightarrow> nat option" where
  "ft_find trs ft i =
     (case map_of (ft_active ft) i of
        Some p \<Rightarrow> Some p
      | None \<Rightarrow> (case find_in_all trs i (ft_finished ft) of Some p \<Rightarrow> Some p | None \<Rightarrow> find_in trs i (ft_errors ft)))"

definition find_by_family :: "tracing \<Rightarrow> id \<Rightarrow> nat option" where
  "find_by_family st i =
     (case map_of (families st) (id_Family i) of None \<Rightarrow> None | Some ft \<Rightarrow> ft_find (all_traces st) ft i)"

text \<open>The reference is itself looked up without one.\<close>

definition findInFamilies :: "tracing \<Rightarrow> id \<Rightarrow> id \<Rightarrow> nat option" where
  "findInFamilies st traceID refID =
     (case find_by_family st traceID of
        Some p \<Rightarrow> Some p
      | None \<Rightarrow>
          if refID = [] then None
          else case find_by_family st refID of
              None \<Rightarrow> None
            | Some ref \<Rightarrow>
                (let r = all_traces st ! ref; named = (\<lambda>p. tr_ID (all_traces st ! p) = traceID) in
                 case tr_Parent r of
                   Some q \<Rightarrow> if named q then Some q else List.find named (List.map_filter e_Ref (Events r))
                 | None \<Rightarrow> List.find named (List.map_filter e_Ref (Events r))))"

section \<open>The ring keeps the last events\<close>

lemma rotate_update:
  assumes "p < length xs"
  shows "rotate (Suc p) (xs[p := e]) = tl (rotate p xs) @ [e]" "hd (rotate p xs) = xs ! p"
proof -
  have "rotate p xs = drop p xs @ take p xs" using assms by (simp add: rotate_drop_take)
  then have r: "rotate p xs = xs ! p # drop (Suc p) xs @ take p xs" using assms by (simp add: Cons_nth_drop_Suc)
  have "rotate (Suc p) (xs[p := e]) = rotate1 (rotate p (xs[p := e]))" by simp
  also have "rotate p (xs[p := e]) = e # drop (Suc p) xs @ take p xs"
    using assms by (simp add: rotate_drop_take Cons_nth_drop_Suc [symmetric])
  finally show "rotate (Suc p) (xs[p := e]) = tl (rotate p xs) @ [e]" using r by simp
  show "hd (rotate p xs) = xs ! p" using r by simp
qed

lemma er_Do_rotate: "-1 \<le> er_pos r \<Longrightarrow> er_Do r = rotate (nat (er_pos r + 1)) (er_evts r)"
  by (rule nth_equalityI) (auto simp: er_Do_def nth_rotate nat_mod_distrib nat_add_distrib)

text \<open>The ring after events were added to a new one, whose last \<open>n\<close> it has.\<close>

definition ring_has :: "nat \<Rightarrow> event list \<Rightarrow> evtRing \<Rightarrow> bool" where
  "ring_has n es r \<longleftrightarrow>
     er_max r = int n \<and> -1 \<le> er_pos r \<and> er_pos r < int n \<and> length (er_evts r) = min n (length es) \<and>
     (length es \<le> n \<longrightarrow> er_pos r = int (length es) - 1) \<and>
     er_Do r = drop (length es - n) es \<and> er_firstDrop r = (if n < length es then Some (When (hd es)) else None)"

lemma ring_has_new: "0 < n \<Longrightarrow> ring_has n [] (newEvtRing (int n))"
  by (simp add: ring_has_def newEvtRing_def er_Do_def)

lemma er_Add_has:
  assumes "0 < n" "ring_has n es r"
  shows "\<exists>r'. er_Add r e = Some r' \<and> ring_has n (es @ [e]) r'"
proof (cases "length es < n")
  case True
  then have f: "er_pos r = int (length es) - 1" "length (er_evts r) = length es" "er_Do r = es"
    using assms(2) by (auto simp: ring_has_def)
  have "er_Do r = rotate (length es) (er_evts r)" using er_Do_rotate [of r] f(1) by simp
  then have "er_evts r = es" using f(2,3) rotate_id [of "length es" "er_evts r"] by (metis mod_self)
  define r' where "r' = r\<lparr>er_evts := es @ [e], er_pos := int (length es)\<rparr>"
  have m: "er_max r = int n" "er_firstDrop r = None" using assms(2) True by (auto simp: ring_has_def)
  have "er_Add r e = Some r'" using True m(1) \<open>er_evts r = es\<close> f(1) by (simp add: er_Add_def r'_def)
  moreover have "rotate (Suc (length es)) (es @ [e]) = es @ [e]" by (metis rotate_id mod_self length_append_singleton)
  then have "er_Do r' = es @ [e]" by (simp add: er_Do_rotate r'_def nat_add_distrib)
  moreover have "er_max r' = int n" "er_pos r' = int (length es)" "er_evts r' = es @ [e]" "er_firstDrop r' = None" using m by (simp_all add: r'_def)
  ultimately show ?thesis using True by (intro exI [of _ r']) (simp add: ring_has_def)
next
  case False
  define p where "p = nat ((er_pos r + 1) mod int n)"
  have len: "length (er_evts r) = n" and m: "er_max r = int n" and rot: "rotate (nat (er_pos r + 1)) (er_evts r) = drop (length es - n) es"
    using False assms(2) er_Do_rotate [of r] by (auto simp: ring_has_def)
  have p: "p < n" "int p = (er_pos r + 1) mod int n" using assms(1) by (simp_all add: p_def nat_less_iff)
  have rot_p: "rotate p (er_evts r) = drop (length es - n) es"
    using rot rotate_conv_mod [of "nat (er_pos r + 1)" "er_evts r"] assms(2) len by (simp add: p_def nat_mod_distrib ring_has_def)
  note u = rotate_update [of p "er_evts r", unfolded len, OF p(1)]
  have tl: "rotate (Suc p) ((er_evts r)[p := e]) = drop (Suc (length es) - n) (es @ [e])"
    using u(1) [of e] False assms(1) unfolding rot_p by (simp add: tl_drop Suc_diff_le drop_Suc)
  have hd: "er_evts r ! p = es ! (length es - n)" using u(2) False assms(1) unfolding rot_p by (simp add: hd_drop_conv_nth)
  define r' where "r' = r\<lparr>er_pos := int p, er_firstDrop := (if er_firstDrop r = None then Some (When (er_evts r ! p)) else er_firstDrop r),
                   er_evts := (er_evts r)[p := e]\<rparr>"
  have "er_Add r e = Some r'" using p m len assms(1) by (simp add: er_Add_def r'_def Let_def flip: p(2))
  moreover have "er_Do r' = drop (length (es @ [e]) - n) (es @ [e])" using tl by (simp add: er_Do_rotate r'_def nat_add_distrib)
  moreover have "er_firstDrop r' = Some (When (hd (es @ [e])))"
    using assms False hd by (cases es) (auto simp: r'_def ring_has_def hd_conv_nth le_Suc_eq)
  ultimately show ?thesis using False p(1) m len assms(1) by (auto simp: ring_has_def r'_def)
qed

lemma er_Add_all_has:
  "0 < n \<Longrightarrow> ring_has n es r \<Longrightarrow> \<exists>r'. er_Add_all r es' = Some r' \<and> ring_has n (es @ es') r'"
proof (induction es' arbitrary: es r)
  case (Cons e es')
  obtain r1 where "er_Add r e = Some r1" "ring_has n (es @ [e]) r1" using er_Add_has [OF Cons.prems] by blast
  with Cons.IH [OF Cons.prems(1), of "es @ [e]" r1] show ?case by simp
qed simp

section \<open>What a trace shows\<close>

fun tr_append_all :: "trace \<Rightarrow> event list \<Rightarrow> trace option" where
  "tr_append_all tr [] = Some tr"
| "tr_append_all tr (e # es) = Option.bind (tr_append tr e) (\<lambda>tr'. tr_append_all tr' es)"

text \<open>The events shown of all those that happened, when at most \<open>n\<close> of them are kept.\<close>

definition shown_events :: "nat \<Rightarrow> event list \<Rightarrow> event list" where
  "shown_events n es =
     (if length es \<le> n then es
      else take (n div 3) es @ \<lparr>When = When (es ! (n div 3)), e_Type = evtDROP, e_Ref = None, e_Msg = []\<rparr> # drop (length es - (n - n div 3)) es)"

definition trace_has :: "nat \<Rightarrow> event list \<Rightarrow> trace \<Rightarrow> bool" where
  "trace_has n es tr \<longleftrightarrow>
     tr_maxEvents tr = int n \<and> tr_cutoff tr = int (n div 3) \<and> tr_firstEvents tr = take (n div 3) es \<and>
     (case tr_lastEvents tr of
        None \<Rightarrow> length es \<le> n div 3
      | Some r \<Rightarrow> n div 3 \<le> length es \<and> ring_has (n - n div 3) (drop (n div 3) es) r)"

lemma tr_append_has:
  assumes "0 < n" "trace_has n es tr"
  shows "\<exists>tr'. tr_append tr e = Some tr' \<and> trace_has n (es @ [e]) tr'"
proof (cases "length es < n div 3")
  case True
  then have "tr_lastEvents tr = None" using assms(2) by (auto simp: trace_has_def split: option.splits)
  then show ?thesis using True assms(2) by (simp add: tr_append_def trace_has_def)
next
  case False
  define r where "r = (case tr_lastEvents tr of None \<Rightarrow> newEvtRing (tr_maxEvents tr - tr_cutoff tr) | Some r \<Rightarrow> r)"
  have pos: "0 < n - n div 3" using assms(1) by linarith
  have "ring_has (n - n div 3) (drop (n div 3) es) r"
  proof (cases "tr_lastEvents tr")
    case None
    then have "drop (n div 3) es = []" using assms(2) by (simp add: trace_has_def)
    then show ?thesis using None assms(2) ring_has_new [OF pos] by (simp add: r_def trace_has_def of_nat_diff)
  next
    case (Some x)
    then show ?thesis using assms(2) by (simp add: r_def trace_has_def)
  qed
  then obtain r' where r': "er_Add r e = Some r'" "ring_has (n - n div 3) (drop (n div 3) es @ [e]) r'" using er_Add_has [OF pos] by blast
  have "tr_append tr e = Some (tr\<lparr>tr_lastEvents := Some r'\<rparr>)"
    using False assms(2) r'(1) unfolding r_def by (simp add: tr_append_def trace_has_def Let_def)
  then show ?thesis using False assms(2) r'(2) by (simp add: trace_has_def)
qed

lemma tr_append_all_has:
  "0 < n \<Longrightarrow> trace_has n es tr \<Longrightarrow> \<exists>tr'. tr_append_all tr es' = Some tr' \<and> trace_has n (es @ es') tr'"
proof (induction es' arbitrary: es tr)
  case (Cons e es')
  obtain t1 where "tr_append tr e = Some t1" "trace_has n (es @ [e]) t1" using tr_append_has [OF Cons.prems] by blast
  with Cons.IH [OF Cons.prems(1), of "es @ [e]" t1] show ?case by simp
qed simp

lemma trace_has_Events:
  assumes "trace_has n es tr"
  shows "Events tr = shown_events n es"
proof (cases "tr_lastEvents tr")
  case None
  then have "length es \<le> n div 3" "tr_firstEvents tr = take (n div 3) es" using assms by (simp_all add: trace_has_def)
  then show ?thesis using None le_trans [of "length es" "n div 3" n] by (simp add: Events_def shown_events_def)
next
  case (Some r)
  let ?k = "n div 3"
  have lt: "n - ?k < length es - ?k \<longleftrightarrow> n < length es" by linarith
  have r: "?k \<le> length es" "er_Do r = drop (length (drop ?k es) - (n - ?k)) (drop ?k es)"
    "er_firstDrop r = (if n < length es then Some (When (hd (drop ?k es))) else None)"
    using assms Some lt by (simp_all add: trace_has_def ring_has_def)
  show ?thesis
  proof (cases "n < length es")
    case True
    then have "hd (drop ?k es) = es ! ?k" "length es - ?k - (n - ?k) + ?k = length es - (n - ?k)" by (auto simp: hd_drop_conv_nth)
    then show ?thesis using True Some r assms by (simp add: trace_has_def Events_def shown_events_def)
  next
    case False
    then show ?thesis using Some r assms by (simp add: trace_has_def Events_def shown_events_def)
  qed
qed

text \<open>
  A trace never fails to record an event, and it shows all of them as long as there are no more than
  its maximum, which is at least 6; after that it shows the first third, a mark with the time of the
  first event that was dropped, and the latest ones, in the order they happened.
\<close>

theorem trace_shows:
  assumes "tr_firstEvents tr = []" "tr_lastEvents tr = None"
  shows "\<exists>tr'. tr_append_all (SetMaxEvents m tr) es = Some tr' \<and> Events tr' = shown_events (nat (max 6 m)) es"
proof -
  let ?n = "nat (max 6 m)"
  have "trace_has ?n [] (SetMaxEvents m tr)" using assms by (simp add: trace_has_def SetMaxEvents_def zdiv_int Let_def)
  then show ?thesis using tr_append_all_has [of ?n "[]" "SetMaxEvents m tr" es] trace_has_Events by fastforce
qed

definition ex_events :: "nat \<Rightarrow> event list" where
  "ex_events n = map (\<lambda>i. \<lparr>When = int i, e_Type = evtLOG, e_Ref = None, e_Msg = FormatUint i\<rparr>) [0..<n]"

theorem trace_shows_witness:
  "\<exists>tr'. tr_append_all (SetMaxEvents 0 (all_traces (snd (newTrace 0 7 ''f'' ''t'' \<lparr>all_traces = [], families = []\<rparr>)) ! 0)) (ex_events 9) = Some tr' \<and>
     map When (Events tr') = [0, 1, 2, 5, 6, 7, 8] \<and> e_Type (Events tr' ! 2) = evtDROP"
proof -
  let ?tr = "all_traces (snd (newTrace 0 7 ''f'' ''t'' \<lparr>all_traces = [], families = []\<rparr>)) ! 0"
  have "tr_firstEvents ?tr = []" "tr_lastEvents ?tr = None" by (simp_all add: newTrace_def Let_def)
  from trace_shows [OF this, of 0 "ex_events 9"] obtain tr' where
    "tr_append_all (SetMaxEvents 0 ?tr) (ex_events 9) = Some tr'" "Events tr' = shown_events 6 (ex_events 9)" by auto
  moreover have "map When (shown_events 6 (ex_events 9)) = [0, 1, 2, 5, 6, 7, 8]" "e_Type (shown_events 6 (ex_events 9) ! 2) = evtDROP"
    by (simp_all add: shown_events_def ex_events_def upt_rec [of _ 9] upt_rec [of _ "numeral _"])
  ultimately show ?thesis by auto
qed

section \<open>Finished traces\<close>

text \<open>A latency that is not negative has the bucket it belongs to.\<close>

lemma findBucket_spec:
  assumes "0 \<le> latency"
  shows "0 \<le> findBucket latency" "findBucket latency < int nBuckets" "buckets ! nat (findBucket latency) \<le> latency"
    "findBucket latency < 7 \<Longrightarrow> latency < buckets ! Suc (nat (findBucket latency))"
proof -
  consider "latency < 5000000" | "5000000 \<le> latency" "latency < 10000000" | "10000000 \<le> latency" "latency < 50000000"
    | "50000000 \<le> latency" "latency < 100000000" | "100000000 \<le> latency" "latency < 300000000" | "300000000 \<le> latency" "latency < 1000000000"
    | "1000000000 \<le> latency" "latency < 10000000000" | "10000000000 \<le> latency" by linarith
  then have "0 \<le> findBucket latency \<and> findBucket latency < int nBuckets \<and> buckets ! nat (findBucket latency) \<le> latency \<and>
      (findBucket latency < 7 \<longrightarrow> latency < buckets ! Suc (nat (findBucket latency)))"
    using assms by cases (simp_all add: findBucket_def buckets_def nBuckets_def)
  then show "0 \<le> findBucket latency" "findBucket latency < int nBuckets" "buckets ! nat (findBucket latency) \<le> latency"
    "findBucket latency < 7 \<Longrightarrow> latency < buckets ! Suc (nat (findBucket latency))" by blast+
qed

lemma h_Add_counts:
  assumes "bucket < length (h_count h)" "sum_list (h_count h) = h_totalQ h"
  shows "sum_list (h_count (h_Add h bucket latency)) = h_totalQ (h_Add h bucket latency)"
proof -
  have "sum_list (h_count h) = sum_list (take bucket (h_count h)) + (h_count h ! bucket + sum_list (drop (Suc bucket) (h_count h)))"
    using arg_cong [OF id_take_nth_drop [OF assms(1)], of sum_list] by simp
  moreover have "sum_list ((h_count h)[bucket := x]) = sum_list (take bucket (h_count h)) + (x + sum_list (drop (Suc bucket) (h_count h)))" for x
    by (simp add: upd_conv_take_nth_drop assms(1))
  ultimately show ?thesis using assms(2) by (simp add: h_Add_def)
qed

text \<open>The traces of a ring, oldest first: the places before them are still empty.\<close>

definition ring_of :: "nat list \<Rightarrow> traceRing \<Rightarrow> bool" where
  "ring_of ps r \<longleftrightarrow> length ps \<le> tg_max r \<and> 0 < tg_max r \<and> tg_ring r = replicate (tg_max r - length ps) None @ map Some ps \<and> tg_l r = length ps"

lemma ring_of_Do: "ring_of ps r \<Longrightarrow> tg_Do r = ps \<and> tg_Len r = length ps"
proof -
  have "List.map_filter (\<lambda>x. x) (replicate k None @ map Some ps) = ps" for k
    by (induction k) (simp_all add: List.map_filter_def comp_def)
  then show "ring_of ps r \<Longrightarrow> tg_Do r = ps \<and> tg_Len r = length ps" by (simp add: ring_of_def tg_Do_def tg_Len_def)
qed

lemma ring_of_Add:
  assumes "ring_of ps r"
  shows "ring_of (drop (Suc (length ps) - tg_max r) (ps @ [p])) (tg_Add r p)"
proof (cases "length ps < tg_max r")
  case True
  then obtain k where k: "tg_max r = Suc (length ps + k)" using less_iff_Suc_add by auto
  then show ?thesis using assms by (simp add: ring_of_def tg_Add_def replicate_append_same)
next
  case False
  then obtain q qs where "ps = q # qs" "tg_max r = Suc (length qs)" using assms by (cases ps) (auto simp: ring_of_def)
  then show ?thesis using assms by (simp add: ring_of_def tg_Add_def)
qed

text \<open>
  What holds of a family: nine rings of at most ten traces, and counts of the latencies that add up, also
  after they wrapped around.
\<close>

definition family_ok :: "familyTraces \<Rightarrow> bool" where
  "family_ok ft \<longleftrightarrow>
     length (ft_finished ft) = nBuckets \<and> (\<forall>r \<in> set (ft_errors ft # ft_finished ft). tg_max r = tracesInBucket \<and> ring_of (tg_Do r) r) \<and>
     length (h_count (ft_latencies ft)) = nBuckets \<and> sum_list (h_count (ft_latencies ft)) = h_totalQ (ft_latencies ft)"

lemma newFamilyTraces_ok: "family_ok newFamilyTraces"
proof -
  have "ring_of [] (newTraceRing tracesInBucket)" by (simp add: ring_of_def newTraceRing_def tracesInBucket_def)
  then show ?thesis using ring_of_Do by (auto simp: family_ok_def newFamilyTraces_def newTraceRing_def new_histogram_def sum_list_replicate)
qed

lemma tg_Add_ok:
  assumes "tg_max r = m \<and> ring_of (tg_Do r) r"
  shows "tg_max (tg_Add r p) = m \<and> ring_of (tg_Do (tg_Add r p)) (tg_Add r p) \<and>
    tg_Do (tg_Add r p) = drop (Suc (length (tg_Do r)) - m) (tg_Do r @ [p])"
proof -
  have "ring_of (drop (Suc (length (tg_Do r)) - m) (tg_Do r @ [p])) (tg_Add r p)" using ring_of_Add [of "tg_Do r" r p] assms by simp
  with ring_of_Do [OF this] show ?thesis using assms by (simp add: tg_Add_def)
qed

lemma finalize_ok:
  assumes "family_ok ft" "tr_end tr = Some e" "tr_Start tr \<le> e"
  shows "\<exists>ft'. finalize p tr ft = Some ft' \<and> family_ok ft' \<and> map_of (ft_active ft') (tr_ID tr) = None \<and>
    tg_Do (ft_finished ft' ! nat (findBucket (e - tr_Start tr))) =
      (let old = tg_Do (ft_finished ft ! nat (findBucket (e - tr_Start tr))) in drop (Suc (length old) - tracesInBucket) (old @ [p])) \<and>
    (tr_isError tr \<longrightarrow> p \<in> set (tg_Do (ft_errors ft')))"
proof -
  define b where "b = nat (findBucket (e - tr_Start tr))"
  have b: "b < nBuckets" "\<not> findBucket (e - tr_Start tr) < 0" "\<not> int nBuckets \<le> findBucket (e - tr_Start tr)"
    using findBucket_spec(1,2) [of "e - tr_Start tr"] assms(3) by (auto simp: b_def nat_less_iff)
  let ?r = "ft_finished ft ! b"
  have r: "tg_max ?r = tracesInBucket \<and> ring_of (tg_Do ?r) ?r" "tg_max (ft_errors ft) = tracesInBucket \<and> ring_of (tg_Do (ft_errors ft)) (ft_errors ft)"
    using assms(1) b(1) by (auto simp: family_ok_def)
  define ft' where "ft' = ft\<lparr>ft_active := AList.delete (tr_ID tr) (ft_active ft), ft_finished := (ft_finished ft)[b := tg_Add ?r p],
      ft_errors := (if tr_isError tr then tg_Add (ft_errors ft) p else ft_errors ft), ft_latencies := h_Add (ft_latencies ft) b (e - tr_Start tr)\<rparr>"
  have f: "finalize p tr ft = Some ft'" using assms(1,2) b by (simp add: finalize_def family_ok_def Let_def ft'_def b_def)
  have "family_ok ft'"
    using assms(1) b(1) tg_Add_ok [OF r(1), of p] tg_Add_ok [OF r(2), of p] h_Add_counts [of b "ft_latencies ft" "e - tr_Start tr"]
    by (auto simp: family_ok_def ft'_def h_Add_def dest: subsetD [OF set_update_subset_insert])
  moreover have "tg_Do (ft_finished ft' ! b) = drop (Suc (length (tg_Do ?r)) - tracesInBucket) (tg_Do ?r @ [p])"
    using assms(1) b(1) tg_Add_ok [OF r(1), of p] by (simp add: family_ok_def ft'_def)
  moreover have "p \<in> set (drop (Suc k - tracesInBucket) (xs @ [p]))" if "k = length xs" for k xs
    using that by (simp add: tracesInBucket_def)
  then have "tr_isError tr \<longrightarrow> p \<in> set (tg_Do (ft_errors ft'))" using tg_Add_ok [OF r(2), of p] by (simp add: ft'_def)
  moreover have "map_of (ft_active ft') (tr_ID tr) = None" by (simp add: ft'_def delete_conv')
  ultimately show ?thesis using f by (simp add: b_def Let_def)
qed

section \<open>Tracing never fails\<close>

text \<open>
  The states tracing can be in. The maximum is set before any event, as the interface asks for, and the
  clock does not go back between the start of a trace and its end.
\<close>

inductive traced :: "tracing \<Rightarrow> bool" where
  none: "traced \<lparr>all_traces = [], families = []\<rparr>"
| created: "traced st \<Longrightarrow> traced (snd (newTrace now rnd family title st))"
| child: "traced st \<Longrightarrow> p < length (all_traces st) \<Longrightarrow> NewChild now rnd p family title st = Some (c, st') \<Longrightarrow> traced st'"
| linked: "traced st \<Longrightarrow> p < length (all_traces st) \<Longrightarrow> other < length (all_traces st) \<Longrightarrow> Link now p other msg st = Some st' \<Longrightarrow> traced st'"
| limited: "traced st \<Longrightarrow> p < length (all_traces st) \<Longrightarrow> tr_firstEvents (all_traces st ! p) = [] \<Longrightarrow> tr_lastEvents (all_traces st ! p) = None \<Longrightarrow>
    update_trace p (\<lambda>tr. Some (SetMaxEvents m tr)) st = Some st' \<Longrightarrow> traced st'"
| printed: "traced st \<Longrightarrow> p < length (all_traces st) \<Longrightarrow> update_trace p (Printf now msg) st = Some st' \<Longrightarrow> traced st'"
| failed: "traced st \<Longrightarrow> p < length (all_traces st) \<Longrightarrow> update_trace p (Errorf now msg) st = Some st' \<Longrightarrow> traced st'"
| finished: "traced st \<Longrightarrow> p < length (all_traces st) \<Longrightarrow> tr_Start (all_traces st ! p) \<le> now \<Longrightarrow> Finish now p st = Some st' \<Longrightarrow> traced st'"

definition trace_ok :: "tracing \<Rightarrow> trace \<Rightarrow> bool" where
  "trace_ok st tr \<longleftrightarrow> (\<exists>n es. 0 < n \<and> trace_has n es tr) \<and> map_of (families st) (tr_Family tr) \<noteq> None"

definition tracing_ok :: "tracing \<Rightarrow> bool" where
  "tracing_ok st \<longleftrightarrow> (\<forall>tr \<in> set (all_traces st). trace_ok st tr) \<and> (\<forall>f ft. map_of (families st) f = Some ft \<longrightarrow> family_ok ft)"

lemma newTrace_ok:
  assumes "tracing_ok st"
  shows "tracing_ok (snd (newTrace now rnd family title st)) \<and> fst (newTrace now rnd family title st) = length (all_traces st) \<and>
    length (all_traces (snd (newTrace now rnd family title st))) = Suc (length (all_traces st))"
proof -
  have "trace_has 30 [] (last (all_traces (snd (newTrace now rnd family title st))))"
    by (simp add: newTrace_def trace_has_def defaultMaxEvents_def Let_def)
  then have "\<exists>n es. 0 < n \<and> trace_has n es (last (all_traces (snd (newTrace now rnd family title st))))"
    by (intro exI [of _ 30] exI [of _ "[]"]) simp
  then show ?thesis using assms newFamilyTraces_ok
    by (auto simp: newTrace_def tracing_ok_def trace_ok_def family_ok_def update_conv' Let_def split: option.splits)
qed

lemma update_trace_ok:
  assumes "tracing_ok st" "p < length (all_traces st)" "f (all_traces st ! p) = Some tr"
    and "\<exists>n es. 0 < n \<and> trace_has n es tr" "tr_Family tr = tr_Family (all_traces st ! p)"
  shows "\<exists>st'. update_trace p f st = Some st' \<and> tracing_ok st'"
proof -
  have "trace_ok st (all_traces st ! p)" using assms(1,2) by (simp add: tracing_ok_def)
  then have "trace_ok st tr" using assms(4,5) by (simp add: trace_ok_def)
  then show ?thesis using assms(1,3)
    by (auto simp: update_trace_def tracing_ok_def trace_ok_def dest!: subsetD [OF set_update_subset_insert])
qed

lemma tr_append_ok:
  assumes "tracing_ok st" "p < length (all_traces st)"
  shows "\<exists>st'. update_trace p (\<lambda>tr. tr_append tr e) st = Some st' \<and> tracing_ok st'"
    "\<exists>st'. update_trace p (\<lambda>tr. tr_append (SetError tr) e) st = Some st' \<and> tracing_ok st'"
proof -
  let ?tr = "all_traces st ! p"
  obtain n es where h: "0 < n" "trace_has n es ?tr" using assms nth_mem unfolding tracing_ok_def trace_ok_def by blast
  then have h': "trace_has n es (SetError ?tr)" by (simp add: trace_has_def SetError_def)
  have fam: "tr_append t e = Some t' \<Longrightarrow> tr_Family t' = tr_Family t" for t t'
    by (auto simp: tr_append_def Let_def split: if_splits bind_splits)
  from tr_append_has [OF h, of e] show "\<exists>st'. update_trace p (\<lambda>tr. tr_append tr e) st = Some st' \<and> tracing_ok st'"
    using update_trace_ok [OF assms, of "\<lambda>tr. tr_append tr e"] fam h(1) by metis
  from tr_append_has [OF h(1) h', of e] show "\<exists>st'. update_trace p (\<lambda>tr. tr_append (SetError tr) e) st = Some st' \<and> tracing_ok st'"
    using update_trace_ok [OF assms, of "\<lambda>tr. tr_append (SetError tr) e"] fam [of "SetError ?tr"] h(1) by (auto simp: SetError_def)
qed

lemma SetMaxEvents_ok:
  assumes "tracing_ok st" "p < length (all_traces st)" "tr_firstEvents (all_traces st ! p) = []" "tr_lastEvents (all_traces st ! p) = None"
  shows "\<exists>st'. update_trace p (\<lambda>tr. Some (SetMaxEvents m tr)) st = Some st' \<and> tracing_ok st'"
proof -
  have "trace_has (nat (max 6 m)) [] (SetMaxEvents m (all_traces st ! p))"
    using assms(3,4) by (simp add: trace_has_def SetMaxEvents_def zdiv_int Let_def)
  then have "\<exists>n es. 0 < n \<and> trace_has n es (SetMaxEvents m (all_traces st ! p))"
    by (intro exI [of _ "nat (max 6 m)"] exI [of _ "[]"]) simp
  then show ?thesis using update_trace_ok [OF assms(1,2), of "\<lambda>tr. Some (SetMaxEvents m tr)"] by (simp add: SetMaxEvents_def Let_def)
qed

lemma NewChild_ok:
  assumes "tracing_ok st" "p < length (all_traces st)"
  shows "\<exists>c st'. NewChild now rnd p family title st = Some (c, st') \<and> tracing_ok st'"
proof -
  obtain c st1 where n: "newTrace now rnd family title st = (c, st1)" by fastforce
  have st1: "tracing_ok st1" "c = length (all_traces st)" "length (all_traces st1) = Suc c" using newTrace_ok [OF assms(1), of now rnd family title] n by auto
  define st2 where "st2 = st1\<lparr>all_traces := (all_traces st1)[c := (all_traces st1 ! c)\<lparr>tr_Parent := Some p\<rparr>]\<rparr>"
  have "trace_ok st1 (all_traces st1 ! c)" using st1 by (simp add: tracing_ok_def)
  then have "trace_ok st1 ((all_traces st1 ! c)\<lparr>tr_Parent := Some p\<rparr>)" by (simp add: trace_ok_def trace_has_def)
  then have "tracing_ok st2" using st1(1)
    by (auto simp: tracing_ok_def st2_def trace_ok_def dest!: subsetD [OF set_update_subset_insert])
  moreover have "p < length (all_traces st2)" using st1 assms(2) by (simp add: st2_def)
  ultimately show ?thesis using tr_append_ok(1) [of st2 p "\<lparr>When = now, e_Type = evtCHILD, e_Ref = Some c, e_Msg = []\<rparr>"] n
    by (auto simp: NewChild_def Let_def st2_def)
qed

lemma Finish_ok:
  assumes "tracing_ok st" "p < length (all_traces st)" "tr_Start (all_traces st ! p) \<le> now"
  shows "\<exists>st'. Finish now p st = Some st' \<and> tracing_ok st'"
proof -
  define tr where "tr = (all_traces st ! p)\<lparr>tr_end := Some now\<rparr>"
  have old: "trace_ok st (all_traces st ! p)" using assms(1,2) by (simp add: tracing_ok_def)
  then obtain ft where ft: "map_of (families st) (tr_Family tr) = Some ft" "family_ok ft"
    using assms(1) by (auto simp: trace_ok_def tracing_ok_def tr_def)
  obtain ft' where ft': "finalize p tr ft = Some ft'" "family_ok ft'" using finalize_ok [OF ft(2), of tr now p] assms(3) by (auto simp: tr_def)
  have "trace_ok st tr" using old by (simp add: trace_ok_def tr_def trace_has_def)
  then have "tracing_ok (st\<lparr>all_traces := (all_traces st)[p := tr], families := AList.update (tr_Family tr) ft' (families st)\<rparr>)"
    using assms(1) ft'(2) by (auto simp: tracing_ok_def trace_ok_def update_conv' dest!: subsetD [OF set_update_subset_insert])
  then show ?thesis using ft(1) ft'(1) by (simp add: Finish_def Let_def tr_def)
qed

lemma traced_ok: "traced st \<Longrightarrow> tracing_ok st"
proof (induction rule: traced.induct)
  case none
  then show ?case by (simp add: tracing_ok_def)
next
  case (created st now rnd family title)
  then show ?case using newTrace_ok by blast
next
  case (child st p now rnd family title c st')
  then show ?case using NewChild_ok [of st p now rnd family title] by auto
next
  case (linked st p other now msg st')
  then show ?case using tr_append_ok(1) [of st p "\<lparr>When = now, e_Type = evtLINK, e_Ref = Some other, e_Msg = msg\<rparr>"]
    unfolding Link_def by auto
next
  case (limited st p m st')
  then show ?case using SetMaxEvents_ok [of st p m] by auto
next
  case (printed st p now msg st')
  then show ?case using tr_append_ok(1) [of st p "\<lparr>When = now, e_Type = evtLOG, e_Ref = None, e_Msg = msg\<rparr>"]
    unfolding Printf_def by auto
next
  case (failed st p now msg st')
  then show ?case using tr_append_ok(2) [of st p "\<lparr>When = now, e_Type = evtLOG, e_Ref = None, e_Msg = msg\<rparr>"]
    unfolding Errorf_def Printf_def by auto
next
  case (finished st p now st')
  then show ?case using Finish_ok by fastforce
qed

text \<open>A context carries its trace on: asking again gives the same one, and children of it do not fail.\<close>

lemma context_keeps:
  assumes "traced st" "case ctx of None \<Rightarrow> True | Some p \<Rightarrow> p < length (all_traces st)"
    and "FromContextOrNew now rnd ctx family title st = ((tr, ctx'), st')"
  shows "traced st' \<and> tr < length (all_traces st') \<and> FromContextOrNew now' rnd' ctx' family' title' st' = ((tr, ctx'), st') \<and>
    (\<exists>c st''. ChildFromContext now' rnd' ctx' family' title' st' = Some (c, st'') \<and> traced st'')"
proof -
  have n: "traced (snd (newTrace now rnd family title st))" "fst (newTrace now rnd family title st) < length (all_traces (snd (newTrace now rnd family title st)))"
    using created [OF assms(1)] newTrace_ok [OF traced_ok [OF assms(1)], of now rnd family title] by auto
  have st': "traced st'" "tr < length (all_traces st')" "ctx' = Some tr"
    using assms n by (auto simp: FromContextOrNew_def FromContext_def NewContext_def split: option.splits prod.splits)
  obtain c st'' where c: "NewChild now' rnd' tr family' title' st' = Some (c, st'')"
    using NewChild_ok [OF traced_ok [OF st'(1)] st'(2)] by blast
  then show ?thesis using st' child [OF st'(1,2) c] by (simp add: FromContextOrNew_def ChildFromContext_def FromContext_def)
qed

text \<open>
  C38. Tracing never brings the server down: in every state it can be in, creating, linking, printing to
  and finishing a trace succeed, whatever was traced before; every family keeps at most ten traces of each
  kind, and its counts of latencies add up to the number of its traces, modulo the size of the counters.
\<close>

theorem tracing_total:
  assumes "traced st" "p < length (all_traces st)" "tr_Start (all_traces st ! p) \<le> now"
  shows "NewChild now rnd p family title st \<noteq> None \<and> Link now p other msg st \<noteq> None \<and> update_trace p (Printf now msg) st \<noteq> None \<and>
    update_trace p (Errorf now msg) st \<noteq> None \<and> Finish now p st \<noteq> None \<and>
    (\<forall>ft. map_of (families st) f = Some ft \<longrightarrow>
       LenErrors ft \<le> 10 \<and> (\<forall>b < 8. \<exists>k \<le> 10. LenBucket ft b = Some k) \<and> sum_list (h_count (ft_latencies ft)) = h_totalQ (ft_latencies ft))"
proof -
  have ok: "tracing_ok st" by (rule traced_ok [OF assms(1)])
  have a: "\<exists>st'. update_trace p (\<lambda>tr. tr_append tr e) st = Some st'" "\<exists>st'. update_trace p (\<lambda>tr. tr_append (SetError tr) e) st = Some st'" for e
    using tr_append_ok [OF ok assms(2), of e] by blast+
  have "LenErrors ft \<le> 10 \<and> (\<forall>b < 8. \<exists>k \<le> 10. LenBucket ft b = Some k) \<and> sum_list (h_count (ft_latencies ft)) = h_totalQ (ft_latencies ft)"
    if "map_of (families st) f = Some ft" for ft
  proof -
    have ft: "family_ok ft" using ok that by (auto simp: tracing_ok_def)
    have "tg_Len r \<le> 10" if "r \<in> set (ft_errors ft # ft_finished ft)" for r
      using ft that by (auto simp: family_ok_def ring_of_def tg_Len_def tracesInBucket_def)
    then show ?thesis using ft by (auto simp: LenErrors_def LenBucket_def family_ok_def nBuckets_def)
  qed
  moreover have "Finish now p st \<noteq> None" "NewChild now rnd p family title st \<noteq> None"
    using Finish_ok [OF ok assms(2,3)] NewChild_ok [OF ok assms(2), of now rnd family title] by auto
  ultimately show ?thesis using a unfolding Link_def Printf_def Errorf_def by auto
qed

theorem tracing_total_witness:
  "let st = snd (newTrace 5 7 ''f'' ''t'' \<lparr>all_traces = [], families = []\<rparr>) in traced st \<and> length (all_traces st) = 1 \<and> Finish 9 0 st \<noteq> None"
proof -
  let ?st = "snd (newTrace 5 7 ''f'' ''t'' \<lparr>all_traces = [], families = []\<rparr>)"
  have t: "traced ?st" by (rule created [OF none])
  have l: "length (all_traces ?st) = 1" "tr_Start (all_traces ?st ! 0) \<le> 9" by (simp_all add: newTrace_def Let_def)
  then have "Finish 9 0 ?st \<noteq> None" using tracing_total [OF t, of 0 9] by simp
  then show ?thesis using t l by simp
qed

end
