(* ===== verification/Maillog.thy ===== *)
theory Maillog
  imports Nettrace
begin

text \<open>
  \<open>src/internal/maillog/maillog.go\<close>, the lines of the mail log, and \<open>src/internal/trace/trace.go\<close>, traces
  that are also logged. What the logging package does with a message is outside; here are the messages.
\<close>

section \<open>The mail log\<close>

text \<open>The verb \<open>%v\<close> for a slice of strings.\<close>

definition slice_text :: "string list \<Rightarrow> string" where
  "slice_text xs = ''['' @ Join xs '' '' @ '']''"

definition Listening_line :: "string \<Rightarrow> string" where
  "Listening_line a = ''daemon listening on '' @ a"

definition Auth_line :: "string \<Rightarrow> string \<Rightarrow> bool \<Rightarrow> string" where
  "Auth_line netAddr user successful =
     (let res = (if \<not> successful then ''failed'' else ''succeeded'')
      in netAddr @ '' auth '' @ res @ '' for '' @ user)"

definition Rejected_line :: "string \<Rightarrow> string \<Rightarrow> string list \<Rightarrow> string \<Rightarrow> string" where
  "Rejected_line netAddr from to err =
     (let from = (if from \<noteq> [] then '' from='' @ from else from);
          toStr = (if 0 < length to then '' to='' @ slice_text to else [])
      in netAddr @ '' rejected'' @ from @ toStr @ '' - '' @ err)"

definition Queued_line :: "string \<Rightarrow> string \<Rightarrow> string list \<Rightarrow> string \<Rightarrow> string" where
  "Queued_line netAddr from to key = key @ '' from='' @ from @ '' queued ip='' @ netAddr @ '' to='' @ slice_text to"

definition SendAttempt_line :: "string \<Rightarrow> string \<Rightarrow> string \<Rightarrow> string option \<Rightarrow> bool \<Rightarrow> string" where
  "SendAttempt_line key from to err permanent =
     (case err of
        None \<Rightarrow> key @ '' from='' @ from @ '' to='' @ to @ '' sent''
      | Some e \<Rightarrow>
          (let t = (if permanent then ''(permanent)'' else ''(temporary)'')
           in key @ '' from='' @ from @ '' to='' @ to @ '' failed '' @ t @ '': '' @ e))"

text \<open>The text of a duration is a parameter.\<close>

definition QueueLoop_line :: "(int \<Rightarrow> string) \<Rightarrow> string \<Rightarrow> string \<Rightarrow> int \<Rightarrow> string" where
  "QueueLoop_line duration key from nextDelay =
     (if 0 < nextDelay then key @ '' from='' @ from @ '' completed loop, next in '' @ duration nextDelay
      else key @ '' from='' @ from @ '' all done'')"

text \<open>
  A logger: whether its writes work, what it wrote, and whether it has said that they do not, which it
  says once.
\<close>

record log_options =
  LogLevel :: bool
  LogCaller :: bool
  LogTime :: bool

record Logger =
  ml_inner :: log_options
  ml_lines :: "string list"
  ml_reported :: bool
  ml_errors :: "string list"

text \<open>The loggers; the argument is what the logging package returns, or its error.\<close>

definition ml_New :: "log_options \<Rightarrow> Logger" where
  "ml_New inner =
     \<lparr>ml_inner = inner\<lparr>LogLevel := False, LogCaller := False\<rparr>, ml_lines = [], ml_reported = False, ml_errors = []\<rparr>"

definition ml_NewFile :: "(string, log_options) result \<Rightarrow> (string, Logger) result" where
  "ml_NewFile opened = and_then opened (\<lambda>inner. Ok (ml_New inner))"

definition ml_NewSyslog :: "(string, log_options) result \<Rightarrow> (string, Logger) result" where
  "ml_NewSyslog opened = and_then opened (\<lambda>inner. Ok (ml_New (inner\<lparr>LogTime := False\<rparr>)))"

definition ml_printf :: "string option \<Rightarrow> string \<Rightarrow> Logger \<Rightarrow> Logger" where
  "ml_printf err msg l =
     (case err of
        None \<Rightarrow> l\<lparr>ml_lines := ml_lines l @ [msg]\<rparr>
      | Some e \<Rightarrow>
          if ml_reported l then l
          else l\<lparr>ml_reported := True,
                 ml_errors := ml_errors l @ [''failed to write to maillog: '' @ e, ''(will not report this again)'']\<rparr>)"

text \<open>However many writes fail, the failure is reported once, and the lines whose writes worked are all there.\<close>

definition ml_log :: "(string option \<times> string) list \<Rightarrow> Logger \<Rightarrow> Logger" where
  "ml_log msgs l = fold (\<lambda>(err, msg). ml_printf err msg) msgs l"

lemma ml_log_spec:
  "ml_lines (ml_log msgs l) = ml_lines l @ map snd (filter (\<lambda>m. fst m = None) msgs) \<and>
   length (ml_errors (ml_log msgs l)) =
     length (ml_errors l) + (if \<not> ml_reported l \<and> (\<exists>m \<in> set msgs. fst m \<noteq> None) then 2 else 0)"
proof (induction msgs arbitrary: l)
  case (Cons m msgs)
  obtain err msg where m: "m = (err, msg)" by fastforce
  show ?case using Cons.IH [of "ml_printf err msg l"] by (cases err) (auto simp: m ml_log_def ml_printf_def)
qed (simp add: ml_log_def)

section \<open>Traces that are logged\<close>

record Trace =
  t_family :: string
  t_title :: string
  t_t :: nat

text \<open>The text of \<open>strconv.Quote\<close> without its quotes.\<close>

definition quote :: "unicode \<Rightarrow> string \<Rightarrow> string" where
  "quote u s = (let qs = Quote u s in take (length qs - 2) (drop 1 qs))"

definition New_trace :: "int \<Rightarrow> nat \<Rightarrow> string \<Rightarrow> string \<Rightarrow> tracing \<Rightarrow> (Trace \<times> tracing) option" where
  "New_trace now rnd family title st =
     (let (p, st1) = newTrace now rnd family title st
      in map_option (\<lambda>st2. (\<lparr>t_family = family, t_title = title, t_t = p\<rparr>, st2)) (update_trace p (\<lambda>tr. Some (SetMaxEvents 100 tr)) st1))"

definition New_child :: "int \<Rightarrow> nat \<Rightarrow> Trace \<Rightarrow> string \<Rightarrow> string \<Rightarrow> tracing \<Rightarrow> (Trace \<times> tracing) option" where
  "New_child now rnd t family title st =
     Option.bind (NewChild now rnd (t_t t) family title st) (\<lambda>(p, st1).
       map_option (\<lambda>st2. (\<lparr>t_family = family, t_title = title, t_t = p\<rparr>, st2)) (update_trace p (\<lambda>tr. Some (SetMaxEvents 100 tr)) st1))"

text \<open>The operations give the new state and the line for the log; \<open>Debugf\<close> differs in the level of the line only.\<close>

definition t_Printf :: "unicode \<Rightarrow> int \<Rightarrow> string \<Rightarrow> Trace \<Rightarrow> tracing \<Rightarrow> (tracing \<times> string) option" where
  "t_Printf u now msg t st =
     map_option (\<lambda>st'. (st', t_family t @ '' '' @ t_title t @ '': '' @ quote u msg)) (update_trace (t_t t) (Printf now msg) st)"

definition t_Error :: "unicode \<Rightarrow> int \<Rightarrow> string \<Rightarrow> Trace \<Rightarrow> tracing \<Rightarrow> (tracing \<times> string) option" where
  "t_Error u now err t st =
     map_option (\<lambda>st'. (st', t_family t @ '' '' @ t_title t @ '': error: '' @ quote u err))
       (update_trace (t_t t) (\<lambda>tr. Printf now (''error: '' @ err) (SetError tr)) st)"

definition t_Finish :: "int \<Rightarrow> Trace \<Rightarrow> tracing \<Rightarrow> tracing option" where
  "t_Finish now t st = Finish now (t_t t) st"

section \<open>No message adds a line\<close>

lemma chunks_ascii_byte: "(r, raw) \<in> set (chunks s) \<Longrightarrow> c \<in> set raw \<Longrightarrow> byte c < 128 \<Longrightarrow> r = byte c"
proof (induction s rule: chunks.induct)
  case (1 s)
  then show ?case using chunks.simps [of s] decode_rune_ascii [of c s] by (auto split: if_splits)
qed

lemma hex_lower_no_line:
  assumes "n < 16"
  shows "hex_lower n \<noteq> LF \<and> hex_lower n \<noteq> CR"
proof -
  have "48 \<le> byte (hex_lower n)" using assms by (simp add: hex_lower_def)
  then show ?thesis by auto
qed

lemma hex_digits_no_line: "LF \<notin> set (hex_digits k n) \<and> CR \<notin> set (hex_digits k n)"
proof (induction k arbitrary: n)
  case (Suc k)
  then show ?case using hex_lower_no_line [of "n mod 16"] by (auto simp: eq_commute)
qed simp

lemma quote_rune_no_line:
  assumes "(r, raw) \<in> set (chunks s)"
  shows "LF \<notin> set (quote_rune u (r, raw)) \<and> CR \<notin> set (quote_rune u (r, raw))"
proof -
  have "LF \<in> set raw \<Longrightarrow> r = 10" "CR \<in> set raw \<Longrightarrow> r = 13" using chunks_ascii_byte [OF assms] by fastforce+
  then show ?thesis using hex_digits_no_line by (auto simp: quote_rune_def IsPrint_def)
qed

lemma quote_concat: "quote u s = concat (map (quote_rune u) (chunks s))"
  by (simp add: quote_def Quote_def Let_def)

lemma quote_no_line: "LF \<notin> set (quote u s) \<and> CR \<notin> set (quote u s)"
  using quote_rune_no_line unfolding quote_concat by fastforce

text \<open>What is traced of a connection comes from the network; it never adds a line to the log.\<close>

lemma t_Printf_one_line:
  assumes "t_Printf u now msg t st = Some (st', l)" "LF \<notin> set (t_family t @ t_title t)" "CR \<notin> set (t_family t @ t_title t)"
  shows "LF \<notin> set l \<and> CR \<notin> set l"
  using assms quote_no_line [of u msg] by (auto simp: t_Printf_def)

lemma t_Error_one_line:
  assumes "t_Error u now err t st = Some (st', l)" "LF \<notin> set (t_family t @ t_title t)" "CR \<notin> set (t_family t @ t_title t)"
  shows "LF \<notin> set l \<and> CR \<notin> set l"
  using assms quote_no_line [of u err] by (auto simp: t_Error_def)

text \<open>A trace that was made and printed to stays one that tracing can be in.\<close>

lemma New_trace_traced: "traced st \<Longrightarrow> New_trace now rnd family title st = Some (t, st') \<Longrightarrow> traced st' \<and> t_t t < length (all_traces st')"
proof -
  assume tr: "traced st" and n: "New_trace now rnd family title st = Some (t, st')"
  obtain p st1 where p: "newTrace now rnd family title st = (p, st1)" by fastforce
  then have p1: "p < length (all_traces st1)" "tr_firstEvents (all_traces st1 ! p) = []" "tr_lastEvents (all_traces st1 ! p) = None"
    by (auto simp: newTrace_def Let_def)
  have t1: "traced st1" using created [OF tr, of now rnd family title] p by simp
  have u: "update_trace p (\<lambda>tr. Some (SetMaxEvents 100 tr)) st1 = Some st'" "t_t t = p" using n p by (auto simp: New_trace_def)
  then have "length (all_traces st') = length (all_traces st1)" by (auto simp: update_trace_def)
  then show "traced st' \<and> t_t t < length (all_traces st')" using limited [OF t1 p1 u(1)] u(2) p1(1) by simp
qed

lemma t_Printf_traced:
  assumes "traced st" "t_t t < length (all_traces st)"
  shows "\<exists>st' l. t_Printf u now msg t st = Some (st', l) \<and> traced st'"
proof -
  have "\<exists>st'. update_trace (t_t t) (Printf now msg) st = Some st'"
    using tr_append_ok(1) [OF traced_ok [OF assms(1)] assms(2)] unfolding Printf_def by blast
  then show ?thesis using printed [OF assms] by (auto simp: t_Printf_def)
qed

end
