(* ===== verification/Expvarom.thy ===== *)
theory Expvarom
  imports GoStrings "HOL-Library.List_Lexorder" "HOL-Library.Char_ord" "HOL-Library.AList"
begin

text \<open>
  \<open>src/internal/expvarom/expvarom.go\<close>: the exporter of the server's counters in the OpenMetrics text
  format. The names of variables and the keys of maps can be anything, the format is strict. The text
  of floating point numbers is a parameter.
\<close>

section \<open>Names and labels\<close>

definition name_rune :: "nat \<Rightarrow> bool" where
  "name_rune c \<longleftrightarrow> (97 \<le> c \<and> c \<le> 122) \<or> (65 \<le> c \<and> c \<le> 90) \<or> (48 \<le> c \<and> c \<le> 57) \<or> c = 95"

definition metricNameToOM :: "string \<Rightarrow> string" where
  "metricNameToOM name =
     (let n = concat (map (\<lambda>c. if name_rune c then encode_rune c else ''_'') (runes name))
      in if 0 < length n \<and> in_range (CHR ''0'') (CHR ''9'') (n ! 0) then ''i'' @ n else n)"

text \<open>A \<open>strings.Replacer\<close> whose old strings are single bytes works byte by byte.\<close>

definition label_byte :: "char \<Rightarrow> string" where
  "label_byte c =
     (if c = CHR 0x5C then [CHR 0x5C, CHR 0x5C] else if c = CHR 0x22 then [CHR 0x5C, CHR 0x22]
      else if c = LF then [CHR 0x5C, CHR ''n''] else [c])"

definition labelValueReplacer :: "string \<Rightarrow> string" where
  "labelValueReplacer v = concat (map label_byte v)"

text \<open>\<open>utf8.ValidString\<close>: no byte that decodes to the replacement rune on its own.\<close>

definition ValidString :: "string \<Rightarrow> bool" where
  "ValidString s \<longleftrightarrow> (\<forall>(r, raw) \<in> set (chunks s). \<not> (r = 65533 \<and> length raw = 1))"

definition quoteLabelValue :: "unicode \<Rightarrow> string \<Rightarrow> string" where
  "quoteLabelValue u v =
     (let v = (if \<not> ValidString v then (let q = QuoteToASCII u v in take (length q - 2) (drop 1 q)) else v)
      in CHR 0x22 # labelValueReplacer v @ [CHR 0x22])"

section \<open>Variables\<close>

datatype 'f expvar = EInt int | EFloat 'f | EMap "(string \<times> 'f expvar) list" | EOther

record 'f exportedVar =
  ev_Name :: string
  ev_Desc :: string
  ev_LabelName :: string
  ev_Value :: "'f expvar"

text \<open>The registered descriptions and label names.\<close>

record om_info =
  descriptions :: "(string \<times> string) list"
  mapLabelNames :: "(string \<times> string) list"

text \<open>The text of a float with the verb \<open>%g\<close>, and with the fewest digits.\<close>

record 'f float_text =
  ft_g :: "'f \<Rightarrow> string"
  ft_short :: "'f \<Rightarrow> string"

definition map_line :: "unicode \<Rightarrow> 'f float_text \<Rightarrow> 'f exportedVar \<Rightarrow> string \<times> 'f expvar \<Rightarrow> string" where
  "map_line u ft v kv =
     (let line = (\<lambda>vs. ev_Name v @ ''{'' @ ev_LabelName v @ ''='' @ quoteLabelValue u (fst kv) @ ''} '' @ vs @ [LF])
      in case snd kv of EInt i \<Rightarrow> line (FormatInt i) | EFloat f \<Rightarrow> line (ft_short ft f) | _ \<Rightarrow> [])"

definition writeVar :: "unicode \<Rightarrow> 'f float_text \<Rightarrow> 'f exportedVar \<Rightarrow> string" where
  "writeVar u ft v =
     (if ev_Desc v \<noteq> [] then ''# HELP '' @ ev_Name v @ '' '' @ ev_Desc v @ [LF] else [])
     @ (case ev_Value v of
          EInt i \<Rightarrow> ev_Name v @ '' '' @ FormatInt i @ [LF]
        | EFloat f \<Rightarrow> ev_Name v @ '' '' @ ft_g ft f @ [LF]
        | EMap kvs \<Rightarrow> concat (map (map_line u ft v) kvs)
        | EOther \<Rightarrow> [])"

text \<open>A name that was not registered gives the zero value.\<close>

definition string_at :: "(string \<times> string) list \<Rightarrow> string \<Rightarrow> string" where
  "string_at m k = (case map_of m k of None \<Rightarrow> [] | Some v \<Rightarrow> v)"

definition exported :: "om_info \<Rightarrow> string \<times> 'f expvar \<Rightarrow> 'f exportedVar" where
  "exported info kv =
     (let l = string_at (mapLabelNames info) (fst kv)
      in \<lparr>ev_Name = metricNameToOM (fst kv), ev_Desc = string_at (descriptions info) (fst kv),
          ev_LabelName = (if l = [] then ''key'' else l), ev_Value = snd kv\<rparr>)"

text \<open>The variables come in the order of their keys; those with the same name may be written in any order.\<close>

definition MetricsHandler :: "unicode \<Rightarrow> 'f float_text \<Rightarrow> om_info \<Rightarrow> (string \<times> 'f expvar) list \<Rightarrow> string" where
  "MetricsHandler u ft info vars =
     concat (map (writeVar u ft) (sort_key ev_Name (map (exported info) (filter (\<lambda>kv. snd kv \<noteq> EOther) vars))))
     @ ''# HELP generated_by expvarom'' @ [LF]
     @ ''# HELP ignored_variables ['' @ Join (map (\<lambda>kv. Quote u (metricNameToOM (fst kv))) (filter (\<lambda>kv. snd kv = EOther) vars)) '' '' @ '']'' @ [LF]
     @ ''# EOF'' @ [LF]"

section \<open>Registering\<close>

definition om_NewInt :: "string \<Rightarrow> string \<Rightarrow> om_info \<Rightarrow> om_info" where
  "om_NewInt name desc info = info\<lparr>descriptions := AList.update name desc (descriptions info)\<rparr>"

definition om_NewFloat :: "string \<Rightarrow> string \<Rightarrow> om_info \<Rightarrow> om_info" where
  "om_NewFloat name desc info = info\<lparr>descriptions := AList.update name desc (descriptions info)\<rparr>"

text \<open>A label name with a space is a panic.\<close>

definition om_NewMap :: "string \<Rightarrow> string \<Rightarrow> string \<Rightarrow> om_info \<Rightarrow> om_info option" where
  "om_NewMap name labelName desc info =
     (if Contains labelName '' '' then None
      else Some (info\<lparr>descriptions := AList.update name desc (descriptions info),
                      mapLabelNames := AList.update name labelName (mapLabelNames info)\<rparr>))"

section \<open>The output is well formed\<close>

text \<open>A reader of a label value, as the format defines it: up to the first quote that is not escaped.\<close>

fun read_label :: "string \<Rightarrow> (string \<times> string) option" where
  "read_label [] = None"
| "read_label (c # s) =
     (if c = CHR 0x22 then Some ([], s)
      else if c = LF then None
      else if c = CHR 0x5C then
        (case s of
           [] \<Rightarrow> None
         | d # s' \<Rightarrow>
             let v = (if d = CHR ''n'' then LF else d)
             in if d \<in> {CHR 0x5C, CHR 0x22, CHR ''n''} then map_option (\<lambda>(x, rest). (v # x, rest)) (read_label s') else None)
      else map_option (\<lambda>(x, rest). (c # x, rest)) (read_label s))"

lemma read_label_replaced: "read_label (labelValueReplacer v @ CHR 0x22 # rest) = Some (v, rest)"
  by (induction v) (auto simp: labelValueReplacer_def label_byte_def)

definition name_byte :: "char \<Rightarrow> bool" where
  "name_byte c \<longleftrightarrow> in_range (CHR ''a'') (CHR ''z'') c \<or> in_range (CHR ''A'') (CHR ''Z'') c \<or> in_range (CHR ''0'') (CHR ''9'') c \<or> c = CHR ''_''"

lemma name_rune_byte: "name_rune r \<Longrightarrow> encode_rune r = [char_of r] \<and> name_byte (char_of r)"
  by (auto simp: name_rune_def encode_rune_def name_byte_def in_range_def char_of_nat_eq)

text \<open>
  What the exporter writes is well formed whatever the variables are called. The name of a metric has
  only letters, digits and underscores and does not begin with a digit, and it is empty only for a
  variable with an empty name. A label value ends at its own closing quote and is read back as it was;
  one that is not valid UTF-8 is read back as its escaped text.
\<close>

theorem expvarom_well_formed:
  "(\<forall>c \<in> set (metricNameToOM name). name_byte c) \<and>
   (name \<noteq> [] \<longrightarrow> metricNameToOM name \<noteq> [] \<and> \<not> in_range (CHR ''0'') (CHR ''9'') (hd (metricNameToOM name))) \<and>
   (\<exists>q. quoteLabelValue u v = CHR 0x22 # q \<and>
      read_label (q @ rest) = Some (if ValidString v then v else take (length (QuoteToASCII u v) - 2) (drop 1 (QuoteToASCII u v)), rest))"
proof (intro conjI impI)
  let ?f = "\<lambda>c. if name_rune c then encode_rune c else ''_''"
  define n where "n = concat (map ?f (runes name))"
  have body: "\<forall>c \<in> set n. name_byte c" using name_rune_byte by (auto simp: name_byte_def n_def)
  have "metricNameToOM name = (if 0 < length n \<and> in_range (CHR ''0'') (CHR ''9'') (n ! 0) then ''i'' @ n else n)"
    by (simp only: metricNameToOM_def Let_def n_def)
  then have cases: "metricNameToOM name = n \<and> (n = [] \<or> \<not> in_range (CHR ''0'') (CHR ''9'') (hd n)) \<or> metricNameToOM name = ''i'' @ n"
    by (cases n) auto
  have i: "name_byte (CHR ''i'')" "\<not> in_range (CHR ''0'') (CHR ''9'') (CHR ''i'')" by (simp_all add: name_byte_def in_range_def)
  show "\<forall>c \<in> set (metricNameToOM name). name_byte c" using cases body i(1) by auto
  assume "name \<noteq> []"
  then obtain r rs where "runes name = r # rs" by (auto simp: runes_def chunks_Cons)
  then have "n \<noteq> []" using name_rune_byte by (auto simp: n_def)
  then show "metricNameToOM name \<noteq> []" "\<not> in_range (CHR ''0'') (CHR ''9'') (hd (metricNameToOM name))" using cases i(2) by auto
next
  show "\<exists>q. quoteLabelValue u v = CHR 0x22 # q \<and>
      read_label (q @ rest) = Some (if ValidString v then v else take (length (QuoteToASCII u v) - 2) (drop 1 (QuoteToASCII u v)), rest)"
    by (simp add: quoteLabelValue_def read_label_replaced Let_def)
qed

theorem expvarom_well_formed_witness:
  "metricNameToOM ''1/a'' = ''i1_a'' \<and> (\<forall>c \<in> set (metricNameToOM ''1/a''). name_byte c) \<and> \<not> in_range (CHR ''0'') (CHR ''9'') (hd (metricNameToOM ''1/a''))"
proof -
  have "metricNameToOM ''1/a'' = ''i1_a''"
    by (simp add: metricNameToOM_def runes_def chunks_ascii is_ascii_def is_ascii_byte_def name_rune_def encode_rune_def in_range_def go_eval Let_def)
  then show ?thesis using expvarom_well_formed [of "''1/a''"] by simp
qed

end
