(* ===== verification/NettraceHttp.thy ===== *)
theory NettraceHttp
  imports Nettrace "HOL-Library.Multiset"
begin

unbundle bit_operations_syntax

text \<open>
  \<open>src/internal/nettrace/http.go\<close> and the snapshots of \<open>histogram.go\<close>: the debugging page of the traces. What the
  page shows is computed from the form of the request and the state of tracing; the HTML is made of it by the
  templates, which are a parameter. Arithmetic on 32-bit floats is a parameter too.
\<close>

section \<open>Snapshots of the latencies\<close>

record 'f float32 =
  f_conv :: "64 word \<Rightarrow> 'f"
  f_div :: "'f \<Rightarrow> 'f \<Rightarrow> 'f"
  f_mul :: "'f \<Rightarrow> 'f \<Rightarrow> 'f"

record 'f hist_line =
  l_Start :: int
  l_BucketIdx :: nat
  l_Count :: "64 word"
  l_Percent :: 'f
  l_CumPct :: 'f

record 'f histSnapshot =
  hs_Counts :: "(int \<times> 'f hist_line) list"
  hs_Count :: "64 word"
  hs_Avg :: int
  hs_Min :: int
  hs_Max :: int

definition percent :: "'f float32 \<Rightarrow> 64 word \<Rightarrow> 64 word \<Rightarrow> 'f" where
  "percent fl c q = (if q > 0 then f_mul fl (f_div fl (f_conv fl c) (f_conv fl q)) (f_conv fl 100) else f_conv fl 0)"

text \<open>The loop over the buckets, from the \<open>i\<close>-th one on.\<close>

fun snapshot_lines :: "'f float32 \<Rightarrow> 64 word \<Rightarrow> nat \<Rightarrow> 64 word \<Rightarrow> 64 word list \<Rightarrow> (int \<times> 'f hist_line) list" where
  "snapshot_lines fl q i cum [] = []"
| "snapshot_lines fl q i cum (c # cs) =
     (buckets ! i, \<lparr>l_Start = buckets ! i, l_BucketIdx = i, l_Count = c, l_Percent = percent fl c q, l_CumPct = percent fl (cum + c) q\<rparr>)
       # snapshot_lines fl q (Suc i) (cum + c) cs"

definition Snapshot :: "'f float32 \<Rightarrow> histogram \<Rightarrow> 'f histSnapshot" where
  "Snapshot fl h =
     \<lparr>hs_Counts = snapshot_lines fl (h_totalQ h) 0 0 (h_count h), hs_Count = h_totalQ h,
      hs_Avg = (if h_totalQ h > 0 then sint (word_of_int (h_totalT h) div h_totalQ h :: 64 word) else 0),
      hs_Min = h_min h, hs_Max = h_max h\<rparr>"

definition Latencies :: "'f float32 \<Rightarrow> familyTraces \<Rightarrow> 'f histSnapshot" where
  "Latencies fl ft = Snapshot fl (ft_latencies ft)"

section \<open>All events under a trace\<close>

record traceAndEvent =
  te_Trace :: nat
  te_Event :: event
  te_Depth :: nat

text \<open>
  \<open>appendAllEvents\<close>, with the calls still to be made: those for the references of a trace come before the
  ones that were already waiting, as in the recursion, and all of them share the map of the IDs seen. A
  pointer to no trace is \<open>None\<close>.
\<close>

function appendAllEvents :: "trace list \<Rightarrow> (nat \<times> nat) list \<Rightarrow> traceAndEvent list \<Rightarrow> id set \<Rightarrow> traceAndEvent list option" where
  "appendAllEvents trs [] evts seen = Some evts"
| "appendAllEvents trs ((p, depth) # calls) evts seen =
     (if length trs \<le> p then None
      else
        (let tr = trs ! p in
         if tr_ID tr \<in> seen then appendAllEvents trs calls evts seen
         else
           (let trevts = Events tr; subTraces = List.map_filter e_Ref trevts in
            appendAllEvents trs (map (\<lambda>t. (t, depth + 1)) subTraces @ calls)
              (evts @ map (\<lambda>e. \<lparr>te_Trace = p, te_Event = e, te_Depth = depth\<rparr>) trevts) (insert (tr_ID tr) seen))))"
  by pat_completeness auto
termination
proof (relation "measures [\<lambda>(trs, calls, evts, seen). card (tr_ID ` set trs - seen), \<lambda>(trs, calls, evts, seen). length calls]",
    goal_cases)
  case (3 trs p depth calls evts seen tr trevts subTraces)
  then have "tr_ID tr \<in> tr_ID ` set trs - seen" by auto
  moreover have "tr_ID ` set trs - insert (tr_ID tr) seen = (tr_ID ` set trs - seen) - {tr_ID tr}" by auto
  ultimately have "card (tr_ID ` set trs - insert (tr_ID tr) seen) < card (tr_ID ` set trs - seen)"
    by (metis List.finite_set card_Diff1_less finite_Diff finite_imageI)
  then show ?case by simp
qed auto

declare appendAllEvents.simps(2) [simp del]

text \<open>The order of events at the same time is left open by the code.\<close>

definition allEvents :: "trace list \<Rightarrow> nat \<Rightarrow> traceAndEvent list option" where
  "allEvents trs p = map_option (sort_key (\<lambda>t. When (te_Event t))) (appendAllEvents trs [(p, 0)] [] {})"

section \<open>The page\<close>

record 'f page =
  pg_AllGT :: bool
  pg_Family :: string
  pg_Bucket :: int
  pg_BucketStr :: string
  pg_Traces :: "nat list"
  pg_Latencies :: "'f histSnapshot option"
  pg_Trace :: "nat option"
  pg_AllEvents :: "traceAndEvent list"
  pg_Error :: string

text \<open>\<open>strconv.ParseBool\<close>, with false for what is not a boolean.\<close>

definition ParseBool :: "string \<Rightarrow> bool" where
  "ParseBool s \<longleftrightarrow> s \<in> {''1'', ''t'', ''T'', ''true'', ''TRUE'', ''True''}"

text \<open>\<open>String\<close> of the durations that are buckets.\<close>

definition bucket_string :: "nat \<Rightarrow> string" where
  "bucket_string i = [''0s'', ''5ms'', ''10ms'', ''50ms'', ''100ms'', ''300ms'', ''1s'', ''10s''] ! i"

definition page_start :: "(string \<Rightarrow> string) \<Rightarrow> 'f page" where
  "page_start form =
     \<lparr>pg_AllGT = (if form ''all'' \<noteq> [] then ParseBool (form ''all'') else True), pg_Family = [], pg_Bucket = 0, pg_BucketStr = [],
      pg_Traces = [], pg_Latencies = None, pg_Trace = None, pg_AllEvents = [], pg_Error = []\<rparr>"

text \<open>
  The parts of \<open>RenderTraces\<close>: the page with an error and its status where the code jumps to the rendering, and
  the page so far otherwise. A panic is \<open>None\<close>.
\<close>

definition render_family :: "(string \<Rightarrow> string) \<Rightarrow> tracing \<Rightarrow> 'f page \<Rightarrow> (int \<times> 'f page, 'f page) result option" where
  "render_family form st pg =
     (if form ''fam'' = [] then Some (Ok pg)
      else case map_of (families st) (form ''fam'') of
          None \<Rightarrow> Some (Err (404, pg\<lparr>pg_Family := [], pg_Error := ''Unknown family''\<rparr>))
        | Some ft \<Rightarrow>
            (let pg = pg\<lparr>pg_Family := form ''fam''\<rparr> in
             if form ''b'' = [] then Some (Ok pg)
             else case ParseInt64 (form ''b'') of
                 Inl _ \<Rightarrow> Some (Err (400, pg\<lparr>pg_Error := ''Invalid bucket (not a number)''\<rparr>))
               | Inr i \<Rightarrow>
                   if i < -2 \<or> int nBuckets \<le> i then Some (Err (400, pg\<lparr>pg_Error := ''Invalid bucket number''\<rparr>))
                   else
                     map_option (\<lambda>ps. Ok (pg\<lparr>pg_Bucket := i, pg_Traces := ps,
                         pg_BucketStr := (if i = -2 then ''errors'' else if i = -1 then ''active'' else bucket_string (nat i))\<rparr>))
                       (TracesFor (all_traces st) ft i (pg_AllGT pg))))"

definition render_latencies :: "'f float32 \<Rightarrow> (string \<Rightarrow> string) \<Rightarrow> tracing \<Rightarrow> 'f page \<Rightarrow> 'f page option" where
  "render_latencies fl form st pg =
     (if pg_Family pg \<noteq> [] \<and> form ''lat'' \<noteq> [] then
        map_option (\<lambda>ft. pg\<lparr>pg_Latencies := Some (Latencies fl ft)\<rparr>) (map_of (families st) (pg_Family pg))
      else Some pg)"

definition render_trace :: "(string \<Rightarrow> string) \<Rightarrow> tracing \<Rightarrow> 'f page \<Rightarrow> (int \<times> 'f page) option" where
  "render_trace form st pg =
     (if form ''trace'' = [] then Some (200, pg)
      else case findInFamilies st (form ''trace'') (form ''ref'') of
          None \<Rightarrow> Some (404, pg\<lparr>pg_Error := ''Trace not found''\<rparr>)
        | Some p \<Rightarrow>
            map_option (\<lambda>evts. (200, pg\<lparr>pg_Trace := Some p, pg_Family := tr_Family (all_traces st ! p), pg_AllEvents := evts\<rparr>))
              (allEvents (all_traces st) p))"

definition render_data :: "'f float32 \<Rightarrow> (string \<Rightarrow> string) \<Rightarrow> tracing \<Rightarrow> (int \<times> 'f page) option" where
  "render_data fl form st =
     Option.bind (render_family form st (page_start form)) (\<lambda>r.
       case r of
         Inl ended \<Rightarrow> Some ended
       | Inr pg \<Rightarrow> Option.bind (render_latencies fl form st pg) (render_trace form st))"

definition RenderTraces ::
  "('f page \<Rightarrow> (string, string) result) \<Rightarrow> 'f float32 \<Rightarrow> (string \<Rightarrow> string) \<Rightarrow> tracing \<Rightarrow> (int \<times> string) option" where
  "RenderTraces execute fl form st =
     Option.bind (render_data fl form st) (\<lambda>(status, pg).
       case execute pg of Inr html \<Rightarrow> Some (status, html) | Inl _ \<Rightarrow> None)"


section \<open>Functions of the templates\<close>

text \<open>\<open>time.Duration.Round\<close>: to the nearest multiple, halves away from zero, and the ends of the range on overflow.\<close>

definition Round :: "int \<Rightarrow> int \<Rightarrow> int" where
  "Round d m =
     (let r = \<bar>d\<bar> mod m in
      if d < 0 then
        (if 2 * r < m then d + r else let d1 = wrap64 (d - m + r) in if d1 < d then d1 else - (2 ^ 63))
      else
        (if 2 * r < m then d - r else let d1 = wrap64 (d + m - r) in if d < d1 then d1 else 2 ^ 63 - 1))"

definition roundDuration :: "int \<Rightarrow> int" where
  "roundDuration d = Round d 1000000"

text \<open>\<open>crc32.ChecksumIEEE\<close>, bit by bit.\<close>

definition crc_bit :: "32 word \<Rightarrow> 32 word" where
  "crc_bit c = (if bit c 0 then drop_bit 1 c XOR 0xEDB88320 else drop_bit 1 c)"

definition crc_byte :: "char \<Rightarrow> 32 word \<Rightarrow> 32 word" where
  "crc_byte b c = (crc_bit ^^ 8) (c XOR word_of_nat (byte b))"

definition ChecksumIEEE :: "string \<Rightarrow> 32 word" where
  "ChecksumIEEE s = NOT (fold crc_byte s (NOT 0))"

definition two_digits :: "nat \<Rightarrow> string" where
  "two_digits n = (if n < 10 then ''0'' else []) @ FormatUint n"

definition colorize :: "nat \<Rightarrow> id \<Rightarrow> string" where
  "colorize depth i =
     (if depth = 0 then ''rgba(var(--text-color))''
      else
        (let depth = (if 3 < depth then 3 else depth); colori = unat (ChecksumIEEE i mod 6)
         in ''var(--nested-d'' @ two_digits depth @ ''-c'' @ two_digits colori @ '')''))"

definition middle_dot :: string where
  "middle_dot = encode_rune 183 @ '' ''"

definition depthspan :: "nat \<Rightarrow> string" where
  "depthspan depth =
     ''<span class='' @ [char_of (34 :: nat)] @ ''depth'' @ [char_of (34 :: nat)] @ ''>''
     @ (if depth \<le> 4 then concat (replicate depth middle_dot)
        else middle_dot @ ''('' @ FormatUint depth @ '') '' @ middle_dot)
     @ ''</span>''"

definition emojids :: "nat list" where
  "emojids =
     [128512, 129315, 128519, 129392, 129319, 128520, 129313, 128123, 128125, 129302, 128075, 9994, 129460, 128069,
      128018, 128021, 129418, 128049, 128047, 128014, 128004, 128055, 128017, 128016, 128042, 129426, 128024, 128000,
      129415, 128019, 129414, 129434, 129436, 128034, 128013, 129430, 128011, 128031, 129416, 128025, 129419, 128028,
      128029, 129714, 127803, 127794, 127817, 127820, 127821, 127822, 127825, 129365, 127812, 129472, 127846, 127856,
      129481, 128642, 128663, 128668, 128757, 128690, 128764, 129666, 128640, 127774, 127752, 127754, 9917]"

definition shorttitle :: "trace \<Rightarrow> string" where
  "shorttitle tr =
     (let all = tr_Family tr @ '' - '' @ tr_Title tr
      in if 20 < length all then ''...'' @ drop (length all - 17) all else all)"

text \<open>An index out of range is a panic.\<close>

definition traceemoji :: "id \<Rightarrow> string option" where
  "traceemoji i =
     (let k = unat (ChecksumIEEE i mod word_of_nat (length emojids))
      in if k < length emojids then Some (encode_rune (emojids ! k)) else None)"


lemma funpow_8: "(f ^^ 8) x = f (f (f (f (f (f (f (f x)))))))"
  by (simp add: numeral_eq_Suc)

lemma ChecksumIEEE_check: "ChecksumIEEE ''a'' = 0xE8B7BE43"
  by (simp add: ChecksumIEEE_def crc_byte_def crc_bit_def funpow_8 bit_0)

lemma unat_mod_less: "0 < (m :: 32 word) \<Longrightarrow> unat (w mod m) < unat m"
  by (simp add: unat_mod word_less_nat_alt)

text \<open>The styles define colours for these depths and numbers only, and every colour that is asked for is one of them.\<close>

lemma colorize_defined:
  assumes "0 < depth"
  shows "\<exists>d \<in> {1, 2, 3}. \<exists>c < 6. colorize depth i = ''var(--nested-d'' @ two_digits d @ ''-c'' @ two_digits c @ '')''"
proof -
  have "unat (ChecksumIEEE i mod 6) < 6" using unat_mod_less [of 6 "ChecksumIEEE i"] by simp
  moreover have "(if 3 < depth then 3 else depth) \<in> {1, 2, 3}" using assms by auto
  ultimately show ?thesis using assms unfolding colorize_def Let_def by (metis not_gr_zero)
qed

lemma traceemoji_some: "traceemoji i \<noteq> None"
  using unat_mod_less [of "word_of_nat (length emojids)" "ChecksumIEEE i"] by (simp add: traceemoji_def emojids_def)

lemma shorttitle_length: "length (shorttitle tr) \<le> 20"
proof -
  define s where "s = tr_Family tr @ '' - '' @ tr_Title tr"
  have "length (drop (length s - 17) s) \<le> 17" by simp
  then have "length (if 20 < length s then ''...'' @ drop (length s - 17) s else s) \<le> 20" by (simp del: length_drop)
  then show ?thesis unfolding shorttitle_def Let_def s_def .
qed

lemma wrap64_id: "- (2 ^ 63) \<le> x \<Longrightarrow> x < 2 ^ 63 \<Longrightarrow> wrap64 x = x"
  by (simp add: wrap64_def)

lemma Round_near:
  assumes "- (2 ^ 62) < d" "d < 2 ^ 62" "0 < m" "m < 2 ^ 62"
  shows "m dvd Round d m \<and> 2 * \<bar>Round d m - d\<bar> \<le> m"
proof -
  define r where "r = \<bar>d\<bar> mod m"
  have r: "0 \<le> r" "r < m" "m dvd (\<bar>d\<bar> - r)" using assms(3) by (simp_all add: r_def)
  show ?thesis
  proof (cases "d < 0")
    case True
    then have "\<bar>d\<bar> - r = - (d + r)" by simp
    then have v: "m dvd d + r" using r(3) by (metis dvd_minus_iff)
    then have v': "m dvd d - m + r" by (metis add.commute add_diff_eq dvd_diff dvd_refl diff_add_eq)
    have w: "wrap64 (d - m + r) = d - m + r" using assms r by (intro wrap64_id) auto
    have "Round d m = (if 2 * r < m then d + r else d - m + r)"
      unfolding Round_def r_def [symmetric] Let_def w using True r by simp
    then show ?thesis using v v' r by simp
  next
    case False
    then have v: "m dvd d - r" using r(3) by simp
    then have v': "m dvd d + m - r" by (metis diff_add_eq dvd_add dvd_refl)
    have w: "wrap64 (d + m - r) = d + m - r" using assms r by (intro wrap64_id) auto
    have "Round d m = (if 2 * r < m then d - r else d + m - r)"
      unfolding Round_def r_def [symmetric] Let_def w using False r by simp
    then show ?thesis using v v' r by simp
  qed
qed

text \<open>One line for each bucket, and the last one counts all traces.\<close>

lemma snapshot_lines_spec:
  "length (snapshot_lines fl q i cum cs) = length cs \<and>
   (\<forall>k < length cs. snapshot_lines fl q i cum cs ! k =
      (buckets ! (i + k), \<lparr>l_Start = buckets ! (i + k), l_BucketIdx = i + k, l_Count = cs ! k, l_Percent = percent fl (cs ! k) q,
         l_CumPct = percent fl (cum + sum_list (take (Suc k) cs)) q\<rparr>))"
proof (induction cs arbitrary: i cum)
  case (Cons c cs)
  show ?case using Cons.IH [of "Suc i" "cum + c"] by (auto simp: nth_Cons add.assoc split: nat.splits)
qed simp

lemma Snapshot_total:
  assumes "family_ok ft"
  shows "length (hs_Counts (Latencies fl ft)) = 8"
    "l_CumPct (snd (last (hs_Counts (Latencies fl ft)))) = percent fl (hs_Count (Latencies fl ft)) (hs_Count (Latencies fl ft))"
proof -
  let ?h = "ft_latencies ft"
  have h: "length (h_count ?h) = 8" "sum_list (h_count ?h) = h_totalQ ?h" using assms by (simp_all add: family_ok_def nBuckets_def)
  note spec = snapshot_lines_spec [of fl "h_totalQ ?h" 0 0 "h_count ?h"]
  show l: "length (hs_Counts (Latencies fl ft)) = 8" using spec h(1) by (simp add: Latencies_def Snapshot_def)
  then have "last (hs_Counts (Latencies fl ft)) = hs_Counts (Latencies fl ft) ! 7" by (cases "hs_Counts (Latencies fl ft) = []") (simp_all add: last_conv_nth)
  then show "l_CumPct (snd (last (hs_Counts (Latencies fl ft)))) = percent fl (hs_Count (Latencies fl ft)) (hs_Count (Latencies fl ft))"
    using spec h by (simp add: Latencies_def Snapshot_def)
qed


section \<open>Every pointer leads to a trace\<close>

definition event_refs :: "nat \<Rightarrow> event list \<Rightarrow> bool" where
  "event_refs n es \<longleftrightarrow> (\<forall>e \<in> set es. \<forall>q. e_Ref e = Some q \<longrightarrow> q < n)"

definition trace_refs :: "nat \<Rightarrow> trace \<Rightarrow> bool" where
  "trace_refs n tr \<longleftrightarrow>
     (\<forall>q. tr_Parent tr = Some q \<longrightarrow> q < n) \<and> event_refs n (tr_firstEvents tr) \<and>
     (\<forall>r. tr_lastEvents tr = Some r \<longrightarrow> event_refs n (er_evts r))"

definition ring_refs :: "nat \<Rightarrow> traceRing \<Rightarrow> bool" where
  "ring_refs n r \<longleftrightarrow> (\<forall>q \<in> set (tg_Do r). q < n)"

definition family_refs :: "nat \<Rightarrow> familyTraces \<Rightarrow> bool" where
  "family_refs n ft \<longleftrightarrow> (\<forall>q \<in> snd ` set (ft_active ft). q < n) \<and> (\<forall>r \<in> set (ft_errors ft # ft_finished ft). ring_refs n r)"

definition tracing_refs :: "tracing \<Rightarrow> bool" where
  "tracing_refs st \<longleftrightarrow>
     (\<forall>tr \<in> set (all_traces st). trace_refs (length (all_traces st)) tr) \<and>
     (\<forall>f ft. map_of (families st) f = Some ft \<longrightarrow> family_refs (length (all_traces st)) ft)"

lemma refs_mono:
  assumes "n \<le> m"
  shows "event_refs n es \<Longrightarrow> event_refs m es" "trace_refs n tr \<Longrightarrow> trace_refs m tr" "ring_refs n r \<Longrightarrow> ring_refs m r"
    "family_refs n ft \<Longrightarrow> family_refs m ft"
proof -
  show e: "event_refs n es \<Longrightarrow> event_refs m es" for es using assms unfolding event_refs_def by (meson order_less_le_trans)
  show "trace_refs n tr \<Longrightarrow> trace_refs m tr" using assms e unfolding trace_refs_def by (meson order_less_le_trans)
  show r: "ring_refs n r \<Longrightarrow> ring_refs m r" for r using assms unfolding ring_refs_def by (meson order_less_le_trans)
  show "family_refs n ft \<Longrightarrow> family_refs m ft" using assms r unfolding family_refs_def by (meson order_less_le_trans)
qed

lemma set_er_Do: "set (er_Do r) \<subseteq> set (er_evts r)"
proof (cases "er_evts r = []")
  case False
  then have "nat (k mod int (length (er_evts r))) < length (er_evts r)" for k by (simp add: nat_less_iff)
  then show ?thesis by (auto simp: er_Do_def)
qed (simp add: er_Do_def)

lemma Events_refs: "trace_refs n tr \<Longrightarrow> event_refs n (Events tr)"
  using set_er_Do by (fastforce simp: trace_refs_def Events_def event_refs_def split: option.splits)

lemma er_Add_refs:
  assumes "er_Add r e = Some r'" "event_refs n (e # er_evts r)"
  shows "event_refs n (er_evts r')"
  using assms set_update_subset_insert [of "er_evts r" "nat ((er_pos r + 1) mod er_max r)" e]
  by (auto simp: er_Add_def event_refs_def Let_def split: if_splits)

lemma tr_append_refs:
  assumes "tr_append tr e = Some tr'" "trace_refs n tr" "event_refs n [e]"
  shows "trace_refs n tr'"
proof (cases "int (length (tr_firstEvents tr)) < tr_cutoff tr")
  case True
  then show ?thesis using assms by (auto simp: tr_append_def trace_refs_def event_refs_def)
next
  case False
  define r where "r = (case tr_lastEvents tr of None \<Rightarrow> newEvtRing (tr_maxEvents tr - tr_cutoff tr) | Some r \<Rightarrow> r)"
  obtain r' where r': "er_Add r e = Some r'" "tr' = tr\<lparr>tr_lastEvents := Some r'\<rparr>"
    using assms(1) False by (auto simp: tr_append_def r_def Let_def split: bind_splits)
  have "event_refs n (e # er_evts r)"
    using assms(2,3) by (auto simp: r_def trace_refs_def event_refs_def newEvtRing_def split: option.splits)
  from er_Add_refs [OF r'(1) this] show ?thesis using assms(2) r'(2) by (simp add: trace_refs_def)
qed

lemma set_tg_Do: "q \<in> set (tg_Do r) \<longleftrightarrow> Some q \<in> set (tg_ring r)"
proof -
  have "q \<in> set (List.map_filter (\<lambda>x. x) xs) \<longleftrightarrow> Some q \<in> set xs" for xs
    by (induction xs) (auto simp: List.map_filter_def)
  then show ?thesis by (simp add: tg_Do_def)
qed

lemma ring_refs_iff: "ring_refs n r \<longleftrightarrow> (\<forall>q. Some q \<in> set (tg_ring r) \<longrightarrow> q < n)"
  using set_tg_Do by (auto simp: ring_refs_def)

lemma ring_refs_Add:
  assumes "ring_refs n r" "p < n"
  shows "ring_refs n (tg_Add r p)"
proof -
  have "Some q \<in> set ((tg_ring r)[0 := Some p]) \<Longrightarrow> q = p \<or> Some q \<in> set (tg_ring r)" for q
    using set_update_subset_insert [of "tg_ring r" 0 "Some p"] by blast
  then show ?thesis using assms unfolding ring_refs_iff by (auto simp: tg_Add_def)
qed

lemma newTrace_refs:
  assumes "tracing_refs st"
  shows "tracing_refs (snd (newTrace now rnd family title st))"
proof -
  let ?n = "length (all_traces st)" and ?st = "snd (newTrace now rnd family title st)"
  define ft where "ft = (case map_of (families st) family of None \<Rightarrow> newFamilyTraces | Some ft \<Rightarrow> ft)"
  have len: "length (all_traces ?st) = Suc ?n" by (simp add: newTrace_def Let_def)
  have "family_refs (Suc ?n) newFamilyTraces"
    by (simp add: family_refs_def newFamilyTraces_def ring_refs_iff newTraceRing_def)
  then have "family_refs (Suc ?n) ft"
    using assms refs_mono(4) [of ?n "Suc ?n"] by (auto simp: ft_def tracing_refs_def split: option.splits)
  moreover have up: "set (AList.update k ?n xs) \<subseteq> insert (k, ?n) (set xs)" for k :: id and xs by (induction xs) auto
  have "\<forall>e \<in> set (AList.update k ?n xs). snd e < Suc ?n" if "\<forall>e \<in> set xs. snd e < Suc ?n" for k :: id and xs
    using that up [of k xs] by fastforce
  ultimately have "family_refs (Suc ?n) (ft\<lparr>ft_active := AList.update k ?n (ft_active ft)\<rparr>)" for k
    unfolding family_refs_def by (simp, blast)
  then have "map_of (families ?st) f = Some g \<Longrightarrow> family_refs (Suc ?n) g" for f g
    using assms refs_mono(4) [of ?n "Suc ?n"]
    by (auto simp: newTrace_def Let_def update_conv' tracing_refs_def simp flip: ft_def split: if_splits)
  moreover have "trace_refs (Suc ?n) tr" if "tr \<in> set (all_traces ?st)" for tr
    using that assms refs_mono(2) [of ?n "Suc ?n" tr]
    by (auto simp: newTrace_def Let_def tracing_refs_def trace_refs_def event_refs_def)
  ultimately show ?thesis unfolding tracing_refs_def len by blast
qed

lemma all_traces_update_refs:
  assumes "tracing_refs st" "trace_refs (length (all_traces st)) tr"
  shows "tracing_refs (st\<lparr>all_traces := (all_traces st)[p := tr]\<rparr>)"
  using assms set_update_subset_insert [of "all_traces st" p tr] by (auto simp: tracing_refs_def)

lemma update_trace_refs:
  assumes "update_trace p f st = Some st'" "tracing_refs st" "p < length (all_traces st)"
    and "\<And>tr. f (all_traces st ! p) = Some tr \<Longrightarrow> trace_refs (length (all_traces st)) tr"
  shows "tracing_refs st'"
  using assms all_traces_update_refs [OF assms(2)] by (auto simp: update_trace_def split: bind_splits)

lemma tracing_refs_nth: "tracing_refs st \<Longrightarrow> p < length (all_traces st) \<Longrightarrow> trace_refs (length (all_traces st)) (all_traces st ! p)"
  by (simp add: tracing_refs_def)

lemma NewChild_refs:
  assumes "NewChild now rnd p family title st = Some (c, st')" "tracing_refs st" "p < length (all_traces st)"
  shows "tracing_refs st'"
proof -
  define st1 where "st1 = snd (newTrace now rnd family title st)"
  have n: "newTrace now rnd family title st = (length (all_traces st), st1)" by (simp add: newTrace_def Let_def st1_def)
  have len: "length (all_traces st1) = Suc (length (all_traces st))" by (simp add: st1_def newTrace_def Let_def)
  define st2 where "st2 = st1\<lparr>all_traces := (all_traces st1)[length (all_traces st) := (all_traces st1 ! length (all_traces st))\<lparr>tr_Parent := Some p\<rparr>]\<rparr>"
  have "tracing_refs st1" using newTrace_refs [OF assms(2)] by (simp add: st1_def)
  moreover from tracing_refs_nth [OF this, of "length (all_traces st)"]
  have "trace_refs (Suc (length (all_traces st))) ((all_traces st1 ! length (all_traces st))\<lparr>tr_Parent := Some p\<rparr>)"
    using assms(3) by (simp add: trace_refs_def len)
  ultimately have st2: "tracing_refs st2" unfolding st2_def by (intro all_traces_update_refs) (simp_all add: len)
  have l2: "length (all_traces st2) = Suc (length (all_traces st))" by (simp add: st2_def len)
  obtain st3 where "update_trace p (\<lambda>tr. tr_append tr \<lparr>When = now, e_Type = evtCHILD, e_Ref = Some (length (all_traces st)), e_Msg = []\<rparr>) st2 = Some st3"
      "st' = st3"
    using assms(1) n by (auto simp: NewChild_def Let_def st2_def split: bind_splits)
  moreover have "p < length (all_traces st2)" using assms(3) l2 by simp
  ultimately show ?thesis using st2 tr_append_refs [OF _ tracing_refs_nth [OF st2]] l2
    by (auto elim!: update_trace_refs simp: event_refs_def)
qed

lemma Finish_refs:
  assumes "Finish now p st = Some st'" "tracing_refs st" "p < length (all_traces st)"
  shows "tracing_refs st'"
proof -
  let ?n = "length (all_traces st)"
  define tr where "tr = (all_traces st ! p)\<lparr>tr_end := Some now\<rparr>"
  obtain ft ft' where ft: "map_of (families st) (tr_Family tr) = Some ft" "finalize p tr ft = Some ft'"
    and st': "st' = st\<lparr>all_traces := (all_traces st)[p := tr], families := AList.update (tr_Family tr) ft' (families st)\<rparr>"
    using assms(1) by (auto simp: Finish_def Let_def tr_def split: option.splits bind_splits)
  define b where "b = nat (findBucket (now - tr_Start tr))"
  have b: "b < length (ft_finished ft)" and ft': "ft' = ft\<lparr>ft_active := AList.delete (tr_ID tr) (ft_active ft),
      ft_finished := (ft_finished ft)[b := tg_Add (ft_finished ft ! b) p],
      ft_errors := (if tr_isError tr then tg_Add (ft_errors ft) p else ft_errors ft),
      ft_latencies := h_Add (ft_latencies ft) b (now - tr_Start tr)\<rparr>"
    using ft(2) by (auto simp: finalize_def tr_def b_def Let_def split: if_splits)
  have old: "family_refs ?n ft" using assms(2) ft(1) by (auto simp: tracing_refs_def)
  then have "ring_refs ?n (tg_Add (ft_finished ft ! b) p)" "ring_refs ?n (tg_Add (ft_errors ft) p)"
    using b assms(3) by (auto simp: family_refs_def intro!: ring_refs_Add)
  moreover have "set (AList.delete (tr_ID tr) (ft_active ft)) \<subseteq> set (ft_active ft)" by (auto simp: AList.delete_eq)
  ultimately have "family_refs ?n ft'"
    using old set_update_subset_insert [of "ft_finished ft" b "tg_Add (ft_finished ft ! b) p"] by (auto simp: ft' family_refs_def)
  moreover have "trace_refs ?n tr" using tracing_refs_nth [OF assms(2,3)] by (simp add: tr_def trace_refs_def)
  ultimately show ?thesis using all_traces_update_refs [OF assms(2)] by (auto simp: st' tracing_refs_def update_conv')
qed

lemma update_append_refs:
  assumes "update_trace p (\<lambda>tr. tr_append (f tr) e) st = Some st'" "tracing_refs st" "p < length (all_traces st)"
    and "event_refs (length (all_traces st)) [e]" "trace_refs (length (all_traces st)) (f (all_traces st ! p))"
  shows "tracing_refs st'"
  using assms(1-3) by (rule update_trace_refs) (rule tr_append_refs [OF _ assms(5,4)])

lemma traced_refs: "traced st \<Longrightarrow> tracing_refs st"
proof (induction rule: traced.induct)
  case none
  then show ?case by (simp add: tracing_refs_def)
next
  case (created st now rnd family title)
  then show ?case by (intro newTrace_refs)
next
  case (child st p now rnd family title c st')
  show ?case by (rule NewChild_refs [OF child(3) child.IH child(2)])
next
  case (linked st p other now msg st')
  then show ?case using tracing_refs_nth [of st p]
    by (intro update_append_refs [where f = "\<lambda>tr. tr", OF linked(4) [unfolded Link_def]]) (auto simp: event_refs_def)
next
  case (limited st p m st')
  then have "trace_refs (length (all_traces st)) (SetMaxEvents m (all_traces st ! p))"
    using tracing_refs_nth [of st p] by (simp add: SetMaxEvents_def trace_refs_def Let_def)
  then show ?case using update_trace_refs [OF limited(5) limited.IH limited(2)] by simp
next
  case (printed st p now msg st')
  then show ?case using tracing_refs_nth [of st p]
    by (intro update_append_refs [where f = "\<lambda>tr. tr", OF printed(3) [unfolded Printf_def]]) (auto simp: event_refs_def)
next
  case (failed st p now msg st')
  then show ?case using tracing_refs_nth [of st p]
    by (intro update_append_refs [where f = SetError, OF failed(3) [unfolded Errorf_def Printf_def]])
      (auto simp: event_refs_def SetError_def trace_refs_def)
next
  case (finished st p now st')
  show ?case by (rule Finish_refs [OF finished(4) finished.IH finished(2)])
qed

lemma find_in_Some:
  assumes "find_in trs i r = Some p"
  shows "p \<in> set (tg_Do r) \<and> tr_ID (trs ! p) = i"
proof -
  have "fold (\<lambda>p found. if tr_ID (trs ! p) = i then Some p else found) ps x = Some p \<Longrightarrow>
      (p \<in> set ps \<and> tr_ID (trs ! p) = i) \<or> x = Some p" for ps x
    by (induction ps arbitrary: x) (auto split: if_splits)
  then show ?thesis using assms unfolding find_in_def by blast
qed

lemma find_in_all_Some: "find_in_all trs i rs = Some p \<Longrightarrow> \<exists>r \<in> set rs. p \<in> set (tg_Do r)"
  by (induction trs i rs rule: find_in_all.induct) (auto split: option.splits dest: find_in_Some)

lemma find_by_family_refs:
  assumes "tracing_refs st" "find_by_family st i = Some p"
  shows "p < length (all_traces st)"
proof -
  obtain ft where ft: "map_of (families st) (id_Family i) = Some ft" "ft_find (all_traces st) ft i = Some p"
    using assms(2) by (auto simp: find_by_family_def split: option.splits)
  have "family_refs (length (all_traces st)) ft" using assms(1) ft(1) by (auto simp: tracing_refs_def)
  moreover have "p \<in> snd ` set (ft_active ft) \<or> (\<exists>r \<in> set (ft_errors ft # ft_finished ft). p \<in> set (tg_Do r))"
  proof (cases "map_of (ft_active ft) i")
    case None
    then have "find_in_all (all_traces st) i (ft_finished ft) = Some p \<or> find_in (all_traces st) i (ft_errors ft) = Some p"
      using ft(2) by (auto simp: ft_find_def split: option.splits)
    then show ?thesis using find_in_all_Some [of "all_traces st" i "ft_finished ft" p] find_in_Some [of "all_traces st" i "ft_errors ft" p] by auto
  next
    case (Some q)
    then have "(i, p) \<in> set (ft_active ft)" using ft(2) map_of_SomeD by (simp add: ft_find_def)
    then show ?thesis by force
  qed
  ultimately show ?thesis by (auto simp: family_refs_def ring_refs_def)
qed

lemma findInFamilies_refs:
  assumes "tracing_refs st" "findInFamilies st i ref = Some p"
  shows "p < length (all_traces st)"
proof (cases "find_by_family st i")
  case None
  then obtain r where r: "find_by_family st ref = Some r"
    using assms(2) by (auto simp: findInFamilies_def split: if_splits option.splits)
  have refs: "trace_refs (length (all_traces st)) (all_traces st ! r)"
    using tracing_refs_nth [OF assms(1) find_by_family_refs [OF assms(1) r]] .
  have "tr_Parent (all_traces st ! r) = Some p \<or> p \<in> set (List.map_filter e_Ref (Events (all_traces st ! r)))"
    using assms(2) None r by (auto simp: findInFamilies_def Let_def find_Some_iff split: if_splits option.splits)
  then show ?thesis using refs Events_refs [OF refs] by (auto simp: trace_refs_def event_refs_def List.map_filter_def)
next
  case (Some q)
  then show ?thesis using assms find_by_family_refs by (auto simp: findInFamilies_def)
qed

section \<open>What the page shows\<close>

text \<open>The traces that can be reached from one by the references of the events it shows.\<close>

inductive refers_to :: "trace list \<Rightarrow> nat \<Rightarrow> nat \<Rightarrow> bool" for trs where
  self: "refers_to trs p p"
| step: "q \<in> set (List.map_filter e_Ref (Events (trs ! p))) \<Longrightarrow> refers_to trs q r \<Longrightarrow> refers_to trs p r"

lemma refers_to_closed:
  assumes "refers_to trs p r" "p \<in> A" "\<And>x y. x \<in> A \<Longrightarrow> y \<in> set (List.map_filter e_Ref (Events (trs ! x))) \<Longrightarrow> y \<in> A"
  shows "r \<in> A"
  using assms by (induction rule: refers_to.induct) blast+

text \<open>
  The traces \<open>ps\<close> that are taken when the calls are made: none of them was seen before and none comes twice, each
  of them can be reached from a call, and what was called or is referred to was seen before or is among them.
\<close>

definition refs_of :: "trace list \<Rightarrow> nat \<Rightarrow> nat list" where
  "refs_of trs p = List.map_filter e_Ref (Events (trs ! p))"

definition explores :: "trace list \<Rightarrow> nat list \<Rightarrow> id set \<Rightarrow> nat list \<Rightarrow> bool" where
  "explores trs calls seen ps \<longleftrightarrow>
     distinct ps \<and> (\<forall>p \<in> set ps. p < length trs \<and> tr_ID (trs ! p) \<notin> seen \<and> (\<exists>c \<in> set calls. refers_to trs c p)) \<and>
     (\<forall>q. q \<in> set calls \<or> (\<exists>p \<in> set ps. q \<in> set (refs_of trs p)) \<longrightarrow> q \<in> set ps \<or> tr_ID (trs ! q) \<in> seen)"

lemma explores_seen: "explores trs calls seen ps \<Longrightarrow> tr_ID (trs ! p) \<in> seen \<Longrightarrow> explores trs (p # calls) seen ps"
  by (fastforce simp: explores_def)

lemma explores_new:
  assumes "explores trs (refs_of trs p @ calls) (insert (tr_ID (trs ! p)) seen) ps" "distinct (map tr_ID trs)"
    and "p < length trs" "tr_ID (trs ! p) \<notin> seen" "\<forall>x < length trs. \<forall>q \<in> set (refs_of trs x). q < length trs"
    and "\<forall>c \<in> set calls. c < length trs"
  shows "explores trs (p # calls) seen (p # ps)"
proof -
  have same: "q = p" if "q < length trs" "tr_ID (trs ! q) = tr_ID (trs ! p)" for q
    using assms(2,3) that by (metis distinct_conv_nth length_map nth_map)
  have "q \<in> set (p # ps) \<or> tr_ID (trs ! q) \<in> seen"
    if "q \<in> set (p # calls) \<or> (\<exists>x \<in> set (p # ps). q \<in> set (refs_of trs x))" for q
  proof (cases "q = p")
    case False
    then have "q \<in> set ps \<or> tr_ID (trs ! q) \<in> insert (tr_ID (trs ! p)) seen" using assms(1) that by (auto simp: explores_def)
    moreover have "q < length trs" using that False assms(1,3,5,6) by (auto simp: explores_def)
    ultimately show ?thesis using same by auto
  qed simp
  moreover have "\<exists>c \<in> set (p # calls). refers_to trs c r" if "c \<in> set (refs_of trs p @ calls)" "refers_to trs c r" for c r
    using that refers_to.step [of c trs p r] by (auto simp: refs_of_def)
  then have "\<forall>x \<in> set (p # ps). \<exists>c \<in> set (p # calls). refers_to trs c x"
    using assms(1) refers_to.self [of trs p] unfolding explores_def by (metis list.set_intros(1) set_ConsD)
  ultimately show ?thesis using assms(1,3,4) by (auto simp: explores_def)
qed

lemma appendAllEvents_explores:
  assumes "\<forall>x < length trs. \<forall>q \<in> set (refs_of trs x). q < length trs" "distinct (map tr_ID trs)" "\<forall>c \<in> set calls. fst c < length trs"
  shows "\<exists>evts' ps. appendAllEvents trs calls evts seen = Some evts' \<and> explores trs (map fst calls) seen ps \<and>
    map (\<lambda>t. (te_Trace t, te_Event t)) evts' =
      map (\<lambda>t. (te_Trace t, te_Event t)) evts @ concat (map (\<lambda>p. map (Pair p) (Events (trs ! p))) ps)"
  using assms
proof (induction trs calls evts seen rule: appendAllEvents.induct)
  case (1 trs evts seen)
  show ?case by (intro exI [of _ evts] exI [of _ "[]"]) (simp add: explores_def)
next
  case (2 trs p depth calls evts seen)
  have p: "p < length trs" "\<not> length trs \<le> p" and calls: "\<forall>c \<in> set calls. fst c < length trs" using "2.prems"(3) by auto
  show ?case
  proof (cases "tr_ID (trs ! p) \<in> seen")
    case True
    from "2.IH"(1) [OF p(2) refl True "2.prems"(1,2) calls] show ?thesis using p True explores_seen [of trs "map fst calls" seen _ p] by (auto simp: appendAllEvents.simps(2) Let_def)
  next
    case False
    let ?calls = "map (\<lambda>t. (t, depth + 1)) (refs_of trs p) @ calls"
    have "\<forall>c \<in> set ?calls. fst c < length trs" using "2.prems"(1) p(1) calls by auto
    from "2.IH"(2) [OF p(2) refl False refl refl "2.prems"(1,2), folded refs_of_def, OF this] obtain evts' ps where
      ih: "appendAllEvents trs ?calls (evts @ map (\<lambda>e. \<lparr>te_Trace = p, te_Event = e, te_Depth = depth\<rparr>) (Events (trs ! p)))
          (insert (tr_ID (trs ! p)) seen) = Some evts'"
        "explores trs (map fst ?calls) (insert (tr_ID (trs ! p)) seen) ps"
        "map (\<lambda>t. (te_Trace t, te_Event t)) evts' = map (\<lambda>t. (te_Trace t, te_Event t)) evts
          @ map (Pair p) (Events (trs ! p)) @ concat (map (\<lambda>p. map (Pair p) (Events (trs ! p))) ps)" by (auto simp: comp_def)
    have "explores trs (p # map fst calls) seen (p # ps)"
      using ih(2) calls by (intro explores_new [OF _ "2.prems"(2) p(1) False "2.prems"(1)]) (auto simp: comp_def)
    then show ?thesis using p False ih(1,3)
      by (intro exI [of _ evts'] exI [of _ "p # ps"]) (simp add: appendAllEvents.simps(2) Let_def flip: refs_of_def)
  qed
qed

text \<open>All events of the traces that can be reached, each once, in the order of time.\<close>

lemma allEvents_correct:
  assumes "\<forall>x < length trs. \<forall>q \<in> set (refs_of trs x). q < length trs" "distinct (map tr_ID trs)" "p < length trs"
  shows "\<exists>evts ps. allEvents trs p = Some evts \<and> sorted (map (\<lambda>t. When (te_Event t)) evts) \<and> distinct ps \<and>
    (\<forall>q. q \<in> set ps \<longleftrightarrow> refers_to trs p q) \<and>
    mset (map (\<lambda>t. (te_Trace t, te_Event t)) evts) = mset (concat (map (\<lambda>q. map (Pair q) (Events (trs ! q))) ps))"
proof -
  obtain evts ps where e: "appendAllEvents trs [(p, 0)] [] {} = Some evts" "explores trs [p] {} ps"
    "map (\<lambda>t. (te_Trace t, te_Event t)) evts = concat (map (\<lambda>q. map (Pair q) (Events (trs ! q))) ps)"
    using appendAllEvents_explores [of trs "[(p, 0)]" "[]" "{}"] assms by auto
  have c: "y \<in> set ps" if "x \<in> set ps" "y \<in> set (List.map_filter e_Ref (Events (trs ! x)))" for x y
    using e(2) that by (auto simp: explores_def refs_of_def)
  have "p \<in> set ps" using e(2) by (simp add: explores_def)
  have "q \<in> set ps" if "refers_to trs p q" for q by (rule refers_to_closed [OF that \<open>p \<in> set ps\<close> c])
  moreover have "refers_to trs p q" if "q \<in> set ps" for q using e(2) that by (simp add: explores_def)
  ultimately have r: "\<forall>q. q \<in> set ps \<longleftrightarrow> refers_to trs p q" by blast
  have d: "distinct ps" using e(2) by (simp add: explores_def)
  define es where "es = sort_key (\<lambda>t. When (te_Event t)) evts"
  have "mset (map (\<lambda>t. (te_Trace t, te_Event t)) es) = mset (map (\<lambda>t. (te_Trace t, te_Event t)) evts)" by (simp add: es_def)
  moreover have "sorted (map (\<lambda>t. When (te_Event t)) es)" "allEvents trs p = Some es" using e(1) by (simp_all add: es_def allEvents_def)
  ultimately show ?thesis using r d by (intro exI [of _ es] exI [of _ ps] conjI) (assumption | simp only: e(3))+
qed

lemma appendAllEvents_total:
  assumes "\<forall>x < length trs. \<forall>q \<in> set (refs_of trs x). q < length trs" "\<forall>c \<in> set calls. fst c < length trs"
  shows "appendAllEvents trs calls evts seen \<noteq> None"
  using assms
proof (induction trs calls evts seen rule: appendAllEvents.induct)
  case (2 trs p depth calls evts seen)
  have p: "p < length trs" "\<not> length trs \<le> p" and calls: "\<forall>c \<in> set calls. fst c < length trs" using "2.prems"(2) by auto
  have "\<forall>c \<in> set (map (\<lambda>t. (t, depth + 1)) (refs_of trs p) @ calls). fst c < length trs" using "2.prems"(1) p(1) calls by auto
  note new = "2.IH"(2) [OF p(2) refl _ refl refl "2.prems"(1), folded refs_of_def, OF _ this]
  show ?case using p "2.IH"(1) [OF p(2) refl _ "2.prems"(1) calls] new
    by (cases "tr_ID (trs ! p) \<in> seen") (simp_all add: appendAllEvents.simps(2) Let_def flip: refs_of_def)
qed simp

lemma allEvents_total:
  assumes "\<forall>x < length trs. \<forall>q \<in> set (refs_of trs x). q < length trs" "p < length trs"
  shows "\<exists>evts. allEvents trs p = Some evts"
  using appendAllEvents_total [OF assms(1), of "[(p, 0)]" "[]" "{}"] assms(2) unfolding allEvents_def by auto

lemma allEvents_sorted: "allEvents trs p = Some evts \<Longrightarrow> sorted (map (\<lambda>t. When (te_Event t)) evts)"
  unfolding allEvents_def by auto

lemma TracesFor_total: "- 2 \<le> b \<Longrightarrow> \<exists>ps. TracesFor trs ft b allgt = Some ps"
  unfolding TracesFor_def by (cases "b = - 2"; cases "b = - 1") simp_all

lemma traced_refs_of: "traced st \<Longrightarrow> \<forall>x < length (all_traces st). \<forall>q \<in> set (refs_of (all_traces st) x). q < length (all_traces st)"
  using Events_refs [OF tracing_refs_nth [OF traced_refs]] by (fastforce simp: refs_of_def event_refs_def List.map_filter_def)

text \<open>The events on the page of a trace: sorted, and all of those of the traces that can be reached, each once.\<close>

definition shows_trace :: "trace list \<Rightarrow> nat \<Rightarrow> traceAndEvent list \<Rightarrow> bool" where
  "shows_trace trs p evts \<longleftrightarrow>
     sorted (map (\<lambda>t. When (te_Event t)) evts) \<and>
     (distinct (map tr_ID trs) \<longrightarrow>
       (\<exists>ps. distinct ps \<and> (\<forall>q. q \<in> set ps \<longleftrightarrow> refers_to trs p q) \<and>
         mset (map (\<lambda>t. (te_Trace t, te_Event t)) evts) = mset (concat (map (\<lambda>q. map (Pair q) (Events (trs ! q))) ps))))"

lemma allEvents_shows:
  assumes "traced st" "p < length (all_traces st)"
  obtains evts where "allEvents (all_traces st) p = Some evts" "shows_trace (all_traces st) p evts"
proof -
  note refs = traced_refs_of [OF assms(1)]
  obtain evts where e: "allEvents (all_traces st) p = Some evts" using allEvents_total [OF refs assms(2)] by blast
  have "shows_trace (all_traces st) p evts"
    unfolding shows_trace_def
  proof (intro conjI impI)
    show "sorted (map (\<lambda>t. When (te_Event t)) evts)" by (rule allEvents_sorted [OF e])
    assume "distinct (map tr_ID (all_traces st))"
    from allEvents_correct [OF refs this assms(2)] obtain evts' ps where "allEvents (all_traces st) p = Some evts'"
      "distinct ps \<and> (\<forall>q. q \<in> set ps \<longleftrightarrow> refers_to (all_traces st) p q) \<and> mset (map (\<lambda>t. (te_Trace t, te_Event t)) evts') =
        mset (concat (map (\<lambda>q. map (Pair q) (Events (all_traces st ! q))) ps))" by blast
    moreover from this(1) e have "evts' = evts" by simp
    ultimately show "\<exists>ps. distinct ps \<and> (\<forall>q. q \<in> set ps \<longleftrightarrow> refers_to (all_traces st) p q) \<and>
      mset (map (\<lambda>t. (te_Trace t, te_Event t)) evts) = mset (concat (map (\<lambda>q. map (Pair q) (Events (all_traces st ! q))) ps))"
      by (intro exI [of _ ps]) simp
  qed
  with e that show thesis by blast
qed

lemma render_family_total:
  obtains pg where "render_family form st pg0 = Some (Ok pg)" "pg_Trace pg = pg_Trace pg0" "pg_Error pg = pg_Error pg0"
    "pg_Family pg = pg_Family pg0 \<or> map_of (families st) (pg_Family pg) \<noteq> None"
  | status pg where "render_family form st pg0 = Some (Err (status, pg))" "status \<in> {400, 404}" "pg_Error pg \<noteq> []" "pg_Trace pg = pg_Trace pg0"
proof (cases "form ''fam'' = [] \<or> map_of (families st) (form ''fam'') = None")
  case True
  then show thesis using that by (cases "form ''fam'' = []") (auto simp: render_family_def)
next
  case False
  then obtain ft where ft: "form ''fam'' \<noteq> []" "map_of (families st) (form ''fam'') = Some ft" by auto
  show thesis
  proof (cases "form ''b'' = []")
    case True
    then show thesis using ft that(1) [of "pg0\<lparr>pg_Family := form ''fam''\<rparr>"] by (simp add: render_family_def)
  next
    case b: False
    show thesis
    proof (cases "ParseInt64 (form ''b'')")
      case (Inl e)
      then show thesis using ft b that(2) by (simp add: render_family_def)
    next
      case (Inr i)
      show thesis
      proof (cases "i < -2 \<or> int nBuckets \<le> i")
        case True
        then show thesis using ft b Inr that(2) by (simp add: render_family_def)
      next
        case False
        then obtain ps where "TracesFor (all_traces st) ft i (pg_AllGT pg0) = Some ps"
          using TracesFor_total [of i "all_traces st" ft "pg_AllGT pg0"] by auto
        then show thesis using ft b Inr False that(1) by (simp add: render_family_def)
      qed
    qed
  qed
qed

text \<open>What holds of the page and the status.\<close>

definition page_ok :: "(string \<Rightarrow> string) \<Rightarrow> tracing \<Rightarrow> int \<Rightarrow> 'f page \<Rightarrow> bool" where
  "page_ok form st status pg \<longleftrightarrow>
     status \<in> {200, 400, 404} \<and> (status = 200 \<longleftrightarrow> pg_Error pg = []) \<and>
     (case pg_Trace pg of
        None \<Rightarrow> status = 200 \<longrightarrow> form ''trace'' = []
      | Some p \<Rightarrow> status = 200 \<and> findInFamilies st (form ''trace'') (form ''ref'') = Some p \<and> p < length (all_traces st) \<and>
          shows_trace (all_traces st) p (pg_AllEvents pg))"

lemma render_trace_ok:
  assumes "traced st" "pg_Trace pg = None" "pg_Error pg = []"
  shows "\<exists>status pg'. render_trace form st pg = Some (status, pg') \<and> page_ok form st status pg'"
proof (cases "form ''trace'' = []")
  case True
  then show ?thesis using assms by (simp add: render_trace_def page_ok_def)
next
  case t: False
  show ?thesis
  proof (cases "findInFamilies st (form ''trace'') (form ''ref'')")
    case None
    then show ?thesis using t assms by (simp add: render_trace_def page_ok_def)
  next
    case (Some p)
    then have "p < length (all_traces st)" by (rule findInFamilies_refs [OF traced_refs [OF assms(1)]])
    moreover from this obtain evts where "allEvents (all_traces st) p = Some evts" "shows_trace (all_traces st) p evts"
      by (rule allEvents_shows [OF assms(1)])
    ultimately show ?thesis using Some t assms by (simp add: render_trace_def page_ok_def)
  qed
qed

lemma render_data_ok:
  fixes fl :: "'f float32"
  assumes "traced st"
  shows "\<exists>status pg. render_data fl form st = Some (status, pg) \<and> page_ok form st status pg"
proof (cases rule: render_family_total [of form st "page_start form :: 'f page"])
  case (1 pg)
  then have pg: "pg_Trace pg = None" "pg_Error pg = []" "pg_Family pg = [] \<or> map_of (families st) (pg_Family pg) \<noteq> None"
    by (simp_all add: page_start_def)
  then obtain pg1 where l: "render_latencies fl form st pg = Some pg1" "pg_Trace pg1 = None" "pg_Error pg1 = []"
    by (cases "pg_Family pg \<noteq> [] \<and> form ''lat'' \<noteq> []") (auto simp: render_latencies_def)
  then show ?thesis using render_trace_ok [OF assms l(2,3)] 1(1) by (simp add: render_data_def)
next
  case (2 status pg)
  then have "page_ok form st status pg" by (auto simp: page_ok_def page_start_def)
  then show ?thesis using 2(1) by (simp add: render_data_def)
qed


text \<open>Two traces that refer to each other.\<close>

definition ex_tracing :: tracing where
  "ex_tracing =
     the (Option.bind (NewChild 2 8 0 ''g'' ''child'' (snd (newTrace 1 7 ''f'' ''parent'' \<lparr>all_traces = [], families = []\<rparr>)))
       (\<lambda>(c, st). Link 3 c 0 ''up'' st))"

definition ex_float :: "nat float32" where
  "ex_float = \<lparr>f_conv = unat, f_div = (\<lambda>a b. a div b), f_mul = (\<lambda>a b. a * b)\<rparr>"

lemma ex_tracing_traced: "traced ex_tracing \<and> length (all_traces ex_tracing) = 2 \<and> map tr_ID (all_traces ex_tracing) = [''f!1!7'', ''g!2!8'']"
proof -
  define st0 where "st0 = snd (newTrace 1 7 ''f'' ''parent'' \<lparr>all_traces = [], families = []\<rparr>)"
  have t0: "traced st0" "length (all_traces st0) = 1" unfolding st0_def by (rule created [OF none]) (simp add: newTrace_def Let_def)
  obtain c st1 where c: "NewChild 2 8 0 ''g'' ''child'' st0 = Some (c, st1)"
    by (simp add: st0_def NewChild_def newTrace_def update_trace_def tr_append_def defaultMaxEvents_def Let_def)
  then have t1: "traced st1" using t0 by (intro child [OF t0(1)]) simp_all
  have i: "newID ''f'' 1 7 = ''f!1!7''" "newID ''g'' 2 8 = ''g!2!8''" by code_simp+
  have n: "c = 1" "length (all_traces st1) = 2" "map tr_ID (all_traces st1) = [''f!1!7'', ''g!2!8'']"
    using c i by (auto simp: st0_def NewChild_def newTrace_def update_trace_def tr_append_def defaultMaxEvents_def Let_def)
  obtain st2 where l: "Link 3 1 0 ''up'' st1 = Some st2" using tr_append_ok(1) [OF traced_ok [OF t1], of 1] n by (auto simp: Link_def)
  then have "ex_tracing = st2" using c n by (simp add: ex_tracing_def st0_def)
  moreover have "traced st2" using n by (intro linked [OF t1 _ _ l]) simp_all
  moreover have "length (all_traces st2) = 2" "map tr_ID (all_traces st2) = map tr_ID (all_traces st1)"
    using l n(2) list_update_id [of "map tr_ID (all_traces st1)" 1]
    by (auto simp: Link_def update_trace_def tr_append_def Let_def map_update split: bind_splits if_splits)
  ultimately show ?thesis using n by simp
qed

definition ex_form :: "string \<Rightarrow> string" where
  "ex_form k = (if k = ''trace'' then ''f!1!7'' else [])"


end
