(* ===== verification/Monitoring.thy ===== *)
theory Monitoring
  imports Queue Config Expvarom NettraceHttp
begin

text \<open>
  \<open>src/monitoring.go\<close>: the version of the program, and the HTTP server for monitoring and debugging. The HTML
  template of its index, the layout of times and the text of the configuration are parameters, as are the handlers that
  the standard library adds for itself. Times are in seconds since the epoch.
\<close>

section \<open>The version\<close>

record build_env =
  bi_Settings :: "(string \<times> string) list option"
  bi_version :: string
  bi_sourceDateTs :: string
  bi_ParseRFC3339 :: "string \<Rightarrow> int option"
  bi_Format :: "int \<Rightarrow> string \<Rightarrow> string"

record version_info =
  vi_version :: string
  vi_sourceDate :: int
  vi_sourceDateStr :: string

text \<open>The last of the settings with a key; an empty string when there is none.\<close>

definition setting :: "(string \<times> string) list \<Rightarrow> string \<Rightarrow> string" where
  "setting ss k = (case map_of (rev ss) k of None \<Rightarrow> [] | Some v \<Rightarrow> v)"

definition dirty :: "(string \<times> string) list \<Rightarrow> bool" where
  "dirty ss \<longleftrightarrow> (''vcs.modified'', ''true'') \<in> set ss"

text \<open>The zero time, which a parser that failed returns.\<close>

definition zero_time :: int where
  "zero_time = -62135596800"

definition parseVersionInfo :: "build_env \<Rightarrow> version_info option" where
  "parseVersionInfo env =
     (case bi_Settings env of
        None \<Rightarrow> None
      | Some ss \<Rightarrow>
          (let gitRev = setting ss ''vcs.revision'' in
           case (if bi_sourceDateTs env \<noteq> [] then
                   (case ParseInt64 (bi_sourceDateTs env) of Inl _ \<Rightarrow> None | Inr sdts \<Rightarrow> Some sdts)
                 else Some (case bi_ParseRFC3339 env (setting ss ''vcs.time'') of None \<Rightarrow> zero_time | Some t \<Rightarrow> t)) of
             None \<Rightarrow> None
           | Some sourceDate \<Rightarrow>
               Some \<lparr>vi_version =
                       (if bi_version env \<noteq> [] then bi_version env
                        else bi_Format env sourceDate ''20060102''
                          @ (if gitRev \<noteq> [] then ''-'' @ concat (map snd (take 9 (chunks gitRev))) else [])
                          @ (if dirty ss then ''-dirty'' else [])),
                     vi_sourceDate = sourceDate,
                     vi_sourceDateStr = bi_Format env sourceDate ''2006-01-02 15:04:05 -0700''\<rparr>))"

section \<open>The handlers\<close>

record request =
  rq_path :: string
  rq_method :: string
  rq_form :: "string \<Rightarrow> string"

text \<open>An answer, and whether the program exits after it. A handler that panics gives none.\<close>

record response =
  rs_status :: int
  rs_body :: string
  rs_exit :: bool

type_synonym handler = "request \<Rightarrow> response option"

abbreviation answer :: "int \<Rightarrow> string \<Rightarrow> response option" where
  "answer status body \<equiv> Some \<lparr>rs_status = status, rs_body = body, rs_exit = False\<rparr>"

text \<open>\<open>http.Error\<close> ends the text with a line break.\<close>

definition http_Error :: "string \<Rightarrow> int \<Rightarrow> response option" where
  "http_Error msg status = answer status (msg @ [LF])"

record indexData =
  ix_Version :: string
  ix_GoVersion :: string
  ix_SourceDate :: int
  ix_StartTime :: int
  ix_Config :: Config
  ix_Hostname :: string

definition index_handler :: "(indexData \<Rightarrow> string) \<Rightarrow> indexData \<Rightarrow> handler" where
  "index_handler execute ix r = (if rq_path r \<noteq> ''/'' then http_Error ''404 page not found'' 404 else answer 200 (execute ix))"

definition exitHandler :: handler where
  "exitHandler r =
     (if rq_method r \<noteq> ''POST'' then http_Error ''Use POST method for exiting'' 405
      else map_option (\<lambda>a. a\<lparr>rs_exit := True\<rparr>) (http_Error ''OK exiting'' 200))"

text \<open>How the program exits then, when the server has shut down.\<close>

definition exit_program :: "string option \<Rightarrow> (string, nat) result" where
  "exit_program shutdown = (case shutdown of Some e \<Rightarrow> Err (''Monitoring server shutdown failed: '' @ e) | None \<Rightarrow> Ok 0)"

type_synonym flag = "string \<times> string"

definition flag_line :: "flag \<Rightarrow> string" where
  "flag_line f = ''-'' @ fst f @ ''='' @ snd f @ [LF]"

text \<open>The flags that are set, and all of them.\<close>

definition flag_lines :: "flag list \<Rightarrow> flag list \<Rightarrow> string list" where
  "flag_lines actual formal =
     (let visited = map fst actual
      in map flag_line actual @ [[LF]] @ map flag_line (filter (\<lambda>f. fst f \<notin> set visited) formal))"

definition debugFlagsHandler :: "flag list \<Rightarrow> flag list \<Rightarrow> handler" where
  "debugFlagsHandler actual formal r = answer 200 (concat (flag_lines actual formal))"

definition debugConfigHandler :: "(Config \<Rightarrow> string) \<Rightarrow> Config \<Rightarrow> handler" where
  "debugConfigHandler format conf r = answer 200 (format conf)"

definition queue_handler :: "unicode \<Rightarrow> (int \<Rightarrow> string) \<Rightarrow> int \<Rightarrow> Queue \<Rightarrow> handler" where
  "queue_handler u time_string now q r = answer 200 (DumpString u time_string now q)"

definition mon_roundDuration :: "int \<Rightarrow> int" where
  "mon_roundDuration d = Round d 1000000000"

section \<open>The server\<close>

record ('f, 'g) monitor_env =
  mo_unicode :: unicode
  mo_index :: "indexData \<Rightarrow> string"
  mo_build :: version_info
  mo_goVersion :: string
  mo_start :: int
  mo_hostname :: string
  mo_flags_set :: "flag list"
  mo_flags :: "flag list"
  mo_format :: "Config \<Rightarrow> string"
  mo_time :: "int \<Rightarrow> string"
  mo_float_text :: "'f float_text"
  mo_vars :: om_info
  mo_float32 :: "'g float32"
  mo_traces :: "'g page \<Rightarrow> (string, string) result"
  mo_others :: "(string \<times> handler) list"

text \<open>What the handlers look at when a request comes.\<close>

record 'f monitored =
  md_now :: int
  md_queue :: Queue
  md_expvars :: "(string \<times> 'f expvar) list"
  md_tracing :: tracing

text \<open>The patterns and their handlers; what the standard library has registered comes with them.\<close>

definition monitoring_handlers :: "('f, 'g) monitor_env \<Rightarrow> Config \<Rightarrow> 'f monitored \<Rightarrow> (string \<times> handler) list" where
  "monitoring_handlers env conf st =
     [(''/'', index_handler (mo_index env)
         \<lparr>ix_Version = vi_version (mo_build env), ix_GoVersion = mo_goVersion env, ix_SourceDate = vi_sourceDate (mo_build env),
          ix_StartTime = mo_start env, ix_Config = conf, ix_Hostname = mo_hostname env\<rparr>),
      (''/exit'', exitHandler),
      (''/metrics'', \<lambda>r. answer 200 (MetricsHandler (mo_unicode env) (mo_float_text env) (mo_vars env) (md_expvars st))),
      (''/debug/flags'', debugFlagsHandler (mo_flags_set env) (mo_flags env)),
      (''/debug/config'', debugConfigHandler (mo_format env) conf),
      (''/debug/traces'', \<lambda>r. Option.bind (RenderTraces (mo_traces env) (mo_float32 env) (rq_form r) (md_tracing st)) (\<lambda>(s, html). answer s html)),
      (''/debug/queue'', queue_handler (mo_unicode env) (mo_time env) (md_now st) (md_queue st))]
     @ mo_others env"

text \<open>\<open>ServeMux\<close>, for a path that it has cleaned: the handler of the path, or else the one of the root.\<close>

definition serve_request :: "('f, 'g) monitor_env \<Rightarrow> Config \<Rightarrow> 'f monitored \<Rightarrow> handler" where
  "serve_request env conf st r =
     (let hs = monitoring_handlers env conf st in
      case map_of hs (rq_path r) of
        Some h \<Rightarrow> h r
      | None \<Rightarrow> (case map_of hs ''/'' of None \<Rightarrow> http_Error ''404 page not found'' 404 | Some h \<Rightarrow> h r))"

text \<open>How \<open>ListenAndServe\<close> ends; \<open>None\<close> is \<open>ErrServerClosed\<close>.\<close>

definition launchMonitoringServer :: "string option \<Rightarrow> (string, unit) result" where
  "launchMonitoringServer err = (case err of None \<Rightarrow> Ok () | Some e \<Rightarrow> Err (''Monitoring server failed: '' @ e))"

section \<open>What requests can do\<close>

text \<open>Every flag is on the page once, also the ones that are set.\<close>

lemma flag_lines_complete:
  assumes "distinct (map fst formal)" "distinct (map fst actual)" "set actual \<subseteq> set formal"
  shows "mset (flag_lines actual formal) = mset (map flag_line formal) + {#[LF]#}"
proof -
  have "mset actual + mset (filter (\<lambda>f. fst f \<notin> set (map fst actual)) formal) = mset formal"
  proof -
    have in_actual: "fst f \<in> set (map fst actual) \<longleftrightarrow> f \<in> set actual" if "f \<in> set formal" for f
      using that assms(1,3) by (auto simp: eq_key_imp_eq_value) (metis assms(1) eq_key_imp_eq_value prod.collapse subsetD)
    then have "filter (\<lambda>f. fst f \<notin> set (map fst actual)) formal = filter (\<lambda>f. f \<notin> set actual) formal" by (intro filter_cong) auto
    moreover have "mset actual = mset (filter (\<lambda>f. f \<in> set actual) formal)"
      using assms by (intro set_eq_iff_mset_eq_distinct [THEN iffD1]) (auto simp: distinct_map)
    ultimately show ?thesis using multiset_partition [of "mset formal" "\<lambda>f. f \<in> set actual"] by (simp add: mset_filter)
  qed
  then have "mset (map flag_line (actual @ filter (\<lambda>f. fst f \<notin> set (map fst actual)) formal)) = mset (map flag_line formal)"
    by (metis image_mset_union mset_append mset_map)
  then show ?thesis by (simp add: flag_lines_def Let_def)
qed

lemma handlers_answer:
  assumes "\<forall>x \<in> set (mo_others env). \<exists>a. snd x r = Some a \<and> \<not> rs_exit a"
    and "traced (md_tracing st)" "\<And>pg. is_ok (mo_traces env pg)"
    and "(p, h) \<in> set (monitoring_handlers env conf st)" "p \<noteq> ''/exit''"
  shows "\<exists>a. h r = Some a \<and> \<not> rs_exit a"
proof -
  have "\<exists>a. Option.bind (RenderTraces (mo_traces env) (mo_float32 env) (rq_form r) (md_tracing st)) (\<lambda>(s, html). answer s html) = Some a \<and> \<not> rs_exit a"
  proof -
    obtain status pg where "render_data (mo_float32 env) (rq_form r) (md_tracing st) = Some (status, pg)"
      using render_data_ok [OF assms(2)] by blast
    moreover obtain html where "mo_traces env pg = Ok html" using assms(3) [of pg] by (cases "mo_traces env pg") auto
    ultimately show ?thesis by (simp add: RenderTraces_def)
  qed
  moreover have "\<exists>a. index_handler ex ix r = Some a \<and> \<not> rs_exit a" for ex ix by (simp add: index_handler_def http_Error_def)
  ultimately show ?thesis using assms(1,4,5)
    by (auto simp: monitoring_handlers_def debugFlagsHandler_def debugConfigHandler_def queue_handler_def)
qed

text \<open>
  Of all requests, only a POST of \<open>/exit\<close> makes the program exit, and a path that no handler has is not found;
  when the templates work and tracing is in a state it can be in, every request has an answer.
\<close>

theorem serve_request_safe:
  assumes "\<forall>x \<in> set (mo_others env). \<exists>a. snd x r = Some a \<and> \<not> rs_exit a"
    and "traced (md_tracing st)" "\<And>pg. is_ok (mo_traces env pg)"
  shows "\<exists>a. serve_request env conf st r = Some a \<and>
    (rs_exit a \<longleftrightarrow> rq_path r = ''/exit'' \<and> rq_method r = ''POST'') \<and>
    (rq_path r \<notin> fst ` set (monitoring_handlers env conf st) \<longrightarrow> rs_status a = 404)"
proof (cases "rq_path r = ''/exit''")
  case True
  then show ?thesis by (auto simp: serve_request_def monitoring_handlers_def exitHandler_def http_Error_def)
next
  case False
  show ?thesis
  proof (cases "map_of (monitoring_handlers env conf st) (rq_path r)")
    case None
    then have "rq_path r \<noteq> ''/''" by (auto simp: monitoring_handlers_def)
    moreover obtain ix where "map_of (monitoring_handlers env conf st) ''/'' = Some (index_handler (mo_index env) ix)"
      by (simp add: monitoring_handlers_def)
    ultimately show ?thesis using None False by (simp add: serve_request_def index_handler_def http_Error_def)
  next
    case (Some h)
    from handlers_answer [OF assms map_of_SomeD [OF Some] False] obtain a where "h r = Some a" "\<not> rs_exit a" by blast
    moreover have "rq_path r \<in> fst ` set (monitoring_handlers env conf st)" using map_of_SomeD [OF Some] by force
    ultimately show ?thesis using Some False by (simp add: serve_request_def)
  qed
qed

end
