(* ===== verification/Tools.thy ===== *)
theory Tools
  imports Sts TlsConst Dovecot
begin

text \<open>
  \<open>src/cmd/smtp-check\<close>, which checks the mail setup of a domain from outside, and
  \<open>src/cmd/dovecot-auth-cli\<close>, which asks Dovecot about a user. The network and the SPF package are parameters. A
  part of a check gives the lines it logs, and the message it dies with or the problems it found.
\<close>

section \<open>Logging and dying\<close>

type_synonym 'a checked = "string list \<times> (string, 'a) result"

definition log_then :: "'a checked \<Rightarrow> ('a \<Rightarrow> 'b checked) \<Rightarrow> 'b checked" where
  "log_then m f =
     (case m of
        (ls, Inl e) \<Rightarrow> (ls, Err e)
      | (ls, Inr a) \<Rightarrow> (let (ls', r) = f a in (ls @ ls', r)))"

abbreviation log_Printf :: "string \<Rightarrow> unit checked" where "log_Printf l \<equiv> ([l], Ok ())"
abbreviation log_Fatal :: "string \<Rightarrow> 'a checked" where "log_Fatal e \<equiv> ([], Err e)"

section \<open>Checking a domain\<close>

record check_env =
  ck_port :: string
  ck_localName :: string
  ck_skipTLSCheck :: bool
  ck_ToASCII :: "string \<Rightarrow> (string, string) result"
  ck_sts :: sts_env
  ck_sts_text :: "sts_error \<Rightarrow> string"
  ck_policy_text :: "Policy \<Rightarrow> string"
  ck_LookupMX :: "string \<Rightarrow> (string, (nat \<times> string) list) result"
  ck_LookupIP :: "string \<Rightarrow> (string, string list) result"
  ck_spf :: "string \<Rightarrow> string \<Rightarrow> string \<Rightarrow> string \<times> string"
  ck_Dial :: "string \<Rightarrow> string option"
  ck_Hello :: "string \<Rightarrow> string \<Rightarrow> string option"
  ck_StartTLS :: "string \<Rightarrow> string \<Rightarrow> (string, nat \<times> nat) result"

definition check_policy :: "check_env \<Rightarrow> string \<Rightarrow> Policy option checked" where
  "check_policy env domain =
     (case UncheckedFetch (ck_sts env) domain of
        Inl e \<Rightarrow> ([''=== STS policy'', ''Not available ('' @ ck_sts_text env e @ '')'', []], Ok None)
      | Inr policy \<Rightarrow>
          (let ls = [''=== STS policy'', ''Parsed contents:  ['' @ ck_policy_text env policy @ '']'' @ [LF]] in
           case Check policy of
             Some e \<Rightarrow> (ls, Err (''Invalid: '' @ ck_sts_text env e))
           | None \<Rightarrow> (ls @ [''OK'', []], Ok (Some policy))))"

fun check_ips :: "check_env \<Rightarrow> string \<Rightarrow> string \<Rightarrow> string list \<Rightarrow> string list checked" where
  "check_ips env domain host [] = ([], Ok [])"
| "check_ips env domain host (ip # ips) =
     (let (result, err) = ck_spf env ip domain (''test@'' @ domain) in
      log_then (log_Printf (''SPF '' @ result @ '' for '' @ ip @ '': '' @ err)) (\<lambda>_.
      log_then (check_ips env domain host ips) (\<lambda>errs.
        ([], Ok ((if result \<noteq> ''pass'' then [host @ '': SPF failed ('' @ ip @ '')''] else []) @ errs)))))"

definition check_tls :: "check_env \<Rightarrow> string \<Rightarrow> string list checked" where
  "check_tls env host =
     (if ck_skipTLSCheck env then ([''TLS check skipped''], Ok [])
      else
        (let addr = host @ '':'' @ ck_port env in
         case ck_Dial env addr of
           Some e \<Rightarrow> log_Fatal e
         | None \<Rightarrow>
             (case ck_Hello env addr (ck_localName env) of
                Some e \<Rightarrow> log_Fatal e
              | None \<Rightarrow>
                  (case ck_StartTLS env addr host of
                     Inl e \<Rightarrow> ([''TLS error: '' @ e], Ok [host @ '': TLS failed''])
                   | Inr (version, suite) \<Rightarrow>
                       ([''TLS OK: '' @ VersionName version @ '' - '' @ CipherSuiteName suite], Ok [])))))"

text \<open>The line that the server is allowed is logged in both cases.\<close>

definition check_allowed :: "check_env \<Rightarrow> Policy option \<Rightarrow> string \<Rightarrow> string list checked" where
  "check_allowed env policy host =
     (case policy of
        None \<Rightarrow> ([], Ok [])
      | Some p \<Rightarrow>
          if MXIsAllowed (st_text (ck_sts env)) p host then ([''Allowed by policy''], Ok [])
          else ([''NOT allowed by STS policy'', ''Allowed by policy''], Ok [host @ '': STS failed'']))"

definition check_mx :: "check_env \<Rightarrow> string \<Rightarrow> Policy option \<Rightarrow> nat \<times> string \<Rightarrow> string list checked" where
  "check_mx env domain policy mx =
     (let (pref, host) = mx; ds = FormatUint pref in
      log_then (log_Printf (''=== MX: '' @ replicate (2 - length ds) (CHR '' '') @ ds @ ''  '' @ host)) (\<lambda>_.
      log_then (case ck_LookupIP env host of Inl e \<Rightarrow> log_Fatal e | Inr ips \<Rightarrow> check_ips env domain host ips) (\<lambda>errs1.
      log_then (check_tls env host) (\<lambda>errs2.
      log_then (check_allowed env policy host) (\<lambda>errs3.
        ([[]], Ok (errs1 @ errs2 @ errs3)))))))"

fun check_mxs :: "check_env \<Rightarrow> string \<Rightarrow> Policy option \<Rightarrow> (nat \<times> string) list \<Rightarrow> string list checked" where
  "check_mxs env domain policy [] = ([], Ok [])"
| "check_mxs env domain policy (mx # mxs) =
     log_then (check_mx env domain policy mx) (\<lambda>errs.
     log_then (check_mxs env domain policy mxs) (\<lambda>errs'. ([], Ok (errs @ errs'))))"

definition smtp_check :: "check_env \<Rightarrow> string \<Rightarrow> unit checked" where
  "smtp_check env arg =
     (if arg = [] then log_Fatal ''Use: smtp-check <domain>''
      else case ck_ToASCII env arg of
          Inl e \<Rightarrow> log_Fatal (''IDNA conversion failed: '' @ e)
        | Inr domain \<Rightarrow>
            log_then (check_policy env domain) (\<lambda>policy.
            case ck_LookupMX env domain of
              Inl e \<Rightarrow> log_Fatal (''MX lookup: '' @ e)
            | Inr mxs \<Rightarrow>
                if length mxs = 0 then log_Fatal ''MX lookup returned no results''
                else
                  log_then (check_mxs env domain policy mxs) (\<lambda>errs.
                    if length errs = 0 then ([''=== Success''], Ok ())
                    else (''=== FAILED'' # errs, Err []))))"

section \<open>When a domain passes\<close>

lemma log_then_Ok_iff: "snd (log_then m f) = Ok b \<longleftrightarrow> (\<exists>a. snd m = Ok a \<and> snd (f a) = Ok b)"
  by (auto simp: log_then_def split: prod.splits sum.splits)

lemma check_ips_none:
  "snd (check_ips env domain host ips) = Ok errs \<Longrightarrow>
   errs = [] \<longleftrightarrow> (\<forall>ip \<in> set ips. fst (ck_spf env ip domain (''test@'' @ domain)) = ''pass'')"
proof (induction ips arbitrary: errs)
  case (Cons ip ips)
  obtain result err where r: "ck_spf env ip domain (''test@'' @ domain) = (result, err)" by fastforce
  then obtain errs' where "snd (check_ips env domain host ips) = Ok errs'"
    "errs = (if result \<noteq> ''pass'' then [host @ '': SPF failed ('' @ ip @ '')''] else []) @ errs'"
    using Cons.prems by (auto simp: log_then_Ok_iff simp del: append_assoc)
  then show ?case using Cons.IH r by simp
qed simp

lemma check_ips_lives: "\<exists>errs. snd (check_ips env domain host ips) = Ok errs"
  by (induction ips) (auto simp: log_then_Ok_iff split: prod.splits)

text \<open>What a server must do for the domain to pass.\<close>

definition mx_passes :: "check_env \<Rightarrow> string \<Rightarrow> Policy option \<Rightarrow> string \<Rightarrow> bool" where
  "mx_passes env domain policy host \<longleftrightarrow>
     (case ck_LookupIP env host of
        Inl _ \<Rightarrow> False
      | Inr ips \<Rightarrow> \<forall>ip \<in> set ips. fst (ck_spf env ip domain (''test@'' @ domain)) = ''pass'') \<and>
     (ck_skipTLSCheck env \<or>
       (let addr = host @ '':'' @ ck_port env in
        ck_Dial env addr = None \<and> ck_Hello env addr (ck_localName env) = None \<and> is_ok (ck_StartTLS env addr host))) \<and>
     (case policy of None \<Rightarrow> True | Some p \<Rightarrow> MXIsAllowed (st_text (ck_sts env)) p host)"

lemma check_tls_none:
  "snd (check_tls env host) = Ok [] \<longleftrightarrow>
     ck_skipTLSCheck env \<or>
       (let addr = host @ '':'' @ ck_port env in
        ck_Dial env addr = None \<and> ck_Hello env addr (ck_localName env) = None \<and> is_ok (ck_StartTLS env addr host))"
  by (auto simp: check_tls_def Let_def is_ok_def split: option.splits sum.splits prod.splits)

lemma check_allowed_none:
  "snd (check_allowed env policy host) = Ok [] \<longleftrightarrow> (case policy of None \<Rightarrow> True | Some p \<Rightarrow> MXIsAllowed (st_text (ck_sts env)) p host)"
  by (auto simp: check_allowed_def split: option.splits)

lemma check_mx_none: "snd (check_mx env domain policy (pref, host)) = Ok [] \<longleftrightarrow> mx_passes env domain policy host"
proof (cases "ck_LookupIP env host")
  case (Inl e)
  then show ?thesis by (simp add: check_mx_def mx_passes_def log_then_Ok_iff Let_def)
next
  case (Inr ips)
  obtain errs where e: "snd (check_ips env domain host ips) = Ok errs" using check_ips_lives by blast
  have "snd (check_mx env domain policy (pref, host)) = Ok [] \<longleftrightarrow>
      errs = [] \<and> snd (check_tls env host) = Ok [] \<and> snd (check_allowed env policy host) = Ok []"
    using Inr e by (auto simp: check_mx_def Let_def log_then_Ok_iff)
  then show ?thesis using Inr check_ips_none [OF e] check_tls_none [of env host] check_allowed_none [of env policy host]
    by (simp add: mx_passes_def)
qed

lemma check_mxs_none: "snd (check_mxs env domain policy mxs) = Ok [] \<longleftrightarrow> (\<forall>mx \<in> set mxs. mx_passes env domain policy (snd mx))"
  by (induction mxs) (auto simp: log_then_Ok_iff check_mx_none)

text \<open>
  The check of a domain ends with success exactly when the name converts, a policy that is
  published is valid, there is a mail server, and every address of every server passes SPF, every server changes
  to TLS with a certificate for its name, unless that is skipped, and is allowed by the policy.
\<close>

theorem smtp_check_success:
  "snd (smtp_check env arg) = Ok () \<longleftrightarrow>
     arg \<noteq> [] \<and> (\<exists>domain policy mxs. ck_ToASCII env arg = Ok domain \<and> snd (check_policy env domain) = Ok policy \<and>
       ck_LookupMX env domain = Ok mxs \<and> mxs \<noteq> [] \<and> (\<forall>mx \<in> set mxs. mx_passes env domain policy (snd mx)))"
proof -
  have "snd (log_then (check_mxs env domain policy mxs) (\<lambda>errs. if length errs = 0 then ([''=== Success''], Ok ())
      else (''=== FAILED'' # errs, Err []))) = Ok () \<longleftrightarrow> (\<forall>mx \<in> set mxs. mx_passes env domain policy (snd mx))" for domain policy mxs
    unfolding check_mxs_none [symmetric] log_then_Ok_iff by (auto split: if_splits)
  note mxs = this
  show ?thesis
  proof (cases "arg = [] \<or> \<not> is_ok (ck_ToASCII env arg)")
    case True
    then show ?thesis by (auto simp: smtp_check_def split: sum.splits)
  next
    case False
    then obtain domain where d: "arg \<noteq> []" "ck_ToASCII env arg = Ok domain" by (cases "ck_ToASCII env arg") auto
    show ?thesis
    proof (cases "ck_LookupMX env domain")
      case (Inl e)
      then show ?thesis using d by (simp add: smtp_check_def log_then_Ok_iff)
    next
      case (Inr ms)
      then show ?thesis using d mxs [of domain _ ms]
        by (cases "ms = []") (simp_all add: smtp_check_def log_then_Ok_iff [of "check_policy env domain"])
    qed
  qed
qed

section \<open>Asking Dovecot\<close>

definition dovecot_help :: string where
  "dovecot_help =
     [LF] @ ''Usage:'' @ [LF]
     @ [TAB] @ ''dovecot-auth-cli <path prefix> exists user@domain'' @ [LF]
     @ [TAB] @ ''dovecot-auth-cli <path prefix> auth user@domain password'' @ [LF] @ [LF]
     @ ''Example:'' @ [LF]
     @ [TAB] @ ''dovecot-auth-cli /var/run/dovecot/auth-chasquid exists user@domain'' @ [LF]
     @ [TAB] @ ''dovecot-auth-cli /var/run/dovecot/auth-chasquid auth user@domain password'' @ [LF] @ [LF]"

text \<open>What is printed to the error output and to the output; an answer that is negative has no error.\<close>

definition dovecot_auth_cli :: "unicode \<Rightarrow> dove_env \<Rightarrow> string list \<Rightarrow> string \<times> string" where
  "dovecot_auth_cli u env args =
     (if length args < 3 then (dovecot_help, ''no: invalid arguments'' @ [LF])
      else
        (let a = NewAuth (args ! 0 @ ''-userdb'') (args ! 0 @ ''-client'');
             res =
               (if args ! 1 = ''exists'' then fst (fst (dove_Exists env a (args ! 2)))
                else if args ! 1 = ''auth'' then
                  fst (fst (dove_Authenticate env a (args ! 2) (if 3 < length args then args ! 3 else [])))
                else Err (AuthErr (''unknown subcommand '' @ Quote u (args ! 1))))
         in ([], case res of
                   Inr ok \<Rightarrow> if ok then ''yes'' @ [LF] else ''no: <nil>'' @ [LF]
                 | Inl (AuthErr e) \<Rightarrow> ''no: '' @ e @ [LF]
                 | Inl (AuthPanic e) \<Rightarrow> ''panic: '' @ e)))"

end
