(* ===== verification/Spec2Isabelle.thy ===== *)
theory Spec2Isabelle
  imports Chasquid Util MdaLmtp Maillog Monitoring Tools
begin

text \<open>
  A verification development for chasquid, an SMTP server: the daemon (\<open>src/chasquid.go\<close>), the packages
  under \<open>src/internal\<close> it is made of, and the tools under \<open>src/cmd\<close>.

  \<^bold>\<open>The program.\<close> The daemon reads its configuration, the domains with their users, aliases and DKIM keys, and
  the queue left on disk, and listens. Each connection is handled by a goroutine that reads commands,
  checks who may send to whom, reads the message, signs it or checks its signatures, runs the hook and
  puts the message in the queue. The queue resolves the aliases of the recipients, writes the item to disk and
  starts a goroutine that tries the deliveries in rounds, with one goroutine for each pending recipient: local ones
  through the MDA, remote ones through SMTP, where the MTA-STS policy of the domain and the security levels
  recorded for it decide which servers may get the message. What failed for good, or for too long, is reported to
  the sender. The local RPC lets \<open>chasquid-util\<close> ask the running daemon.

  \<^bold>\<open>How the code is modelled.\<close> Go strings and byte slices are \<^typ>\<open>string\<close>; a pair \<open>(value, error)\<close> is the result
  type of \<open>Prelude\<close>, with one datatype of errors for each package; structs are records with the fields of the
  code and enumerations are datatypes. Methods take the state and return the new one. A run-time
  panic is a value of its own (\<^const>\<open>None\<close>, \<^const>\<open>Crash\<close>, \<^const>\<open>AuthPanic\<close>), as is a fatal exit. The disk is
  a map from paths to contents. Integers are \<^typ>\<open>int\<close> or \<^typ>\<open>nat\<close>, with the wrap-around at 64 bits written out
  where the code can reach it (\<^const>\<open>wrap64\<close>, the \<open>max_age\<close> of a policy, the delay of an authentication), and the
  counters of the histograms are 64-bit words. Readers are the bytes still to come with the error
  at their end. What lies outside the repository is a parameter, mostly a field of an environment record: the
  Unicode tables and IDNA, the DNS, TLS, SPF, hashes and signatures, key derivation, the encoding of
  protobuf messages, the clock, random numbers, programs that are run, and whether each system call succeeds. The
  theorems hold for every value of them unless a hypothesis says otherwise; each such hypothesis is a documented
  behaviour (an encoding that can be decoded, a clock that does not go back), and the witness of the theorem
  instantiates it.

  \<^bold>\<open>The theories.\<close>

  \<^item> \<open>Prelude\<close>, \<open>GoStrings\<close>, \<open>GoIO\<close>, \<open>GoBase64\<close>, \<open>GoPath\<close>: results, and the parts of the Go library the code
    uses, on bytes and runes, with the lemmas the components share (\<open>go_str\<close>, \<open>go_eval\<close>).
  \<^item> \<open>DotReader\<close> (\<open>internal/smtpsrv/dotreader.go\<close>): the reader of the message. Which input it accepts and with what
    result, that bare line breaks are refused, that the buffer is bounded, against a reading by lines.
  \<^item> \<open>Envelope\<close>, \<open>Normalize\<close> (\<open>internal/set\<close>, \<open>internal/envelope\<close>, \<open>internal/normalize\<close>): sets, addresses, headers and
    normalization, with \<open>ToCRLF\<close>.
  \<^item> \<open>Aliases\<close> (\<open>internal/aliases\<close>): parsing, the hook, resolving and reloading. Resolving is
    shown to return what an inductive relation of the alias rules derives, to end, and to fail exactly when the
    nesting reaches the limit.
  \<^item> \<open>Safeio\<close>, \<open>Protoio\<close> (\<open>internal/safeio\<close>, \<open>internal/protoio\<close>): writing a file as the sequence of states the disk
    goes through, and the store of messages on it. The locale \<open>proto_store\<close> is the contract of such a store.
  \<^item> \<open>DomainInfo\<close> (\<open>internal/domaininfo\<close>): the recorded security levels, a client of that contract in the locale
    \<open>domain_store\<close>: levels never go down, and a restart finds them.
  \<^item> \<open>Auth\<close>, \<open>Userdb\<close>, \<open>Dovecot\<close> (\<open>internal/auth\<close>, \<open>internal/userdb\<close>, \<open>internal/dovecot\<close>): who may log in. The locale
    \<open>auth_backend\<close> is what the authenticator expects of a backend, interpreted on the user database.
  \<^item> \<open>DkimMessage\<close>, \<open>DkimSignature\<close>, \<open>DkimVerify\<close> (\<open>internal/dkim\<close>): parsing, canonicalization, signature headers, keys,
    verification and signing: what a valid signature means, and when verification panics.
  \<^item> \<open>QueueItem\<close>, \<open>Queue\<close> (\<open>internal/queue\<close>): items, how they are saved and loaded, \<open>Put\<close>, the rounds of deliveries in any
    interleaving, the loop of an item, and notifications.
  \<^item> \<open>Sts\<close>, \<open>SmtpClient\<close>, \<open>Courier\<close> (\<open>internal/sts\<close>, \<open>internal/smtp\<close>, \<open>internal/courier\<close>): policies and their cache, the
    client, and the two couriers. The locale \<open>courier_contract\<close> is what the queue expects of a courier, and
    \<open>two_couriers\<close> what follows for a queue with two of them; both are interpreted on the couriers.
  \<^item> \<open>Haproxy\<close>, \<open>TlsConst\<close>, \<open>ConnText\<close>, \<open>Conn\<close>, \<open>ConnSafety\<close> (\<open>internal/haproxy\<close>, \<open>internal/tlsconst\<close>,
    \<open>internal/smtpsrv/conn.go\<close>): a connection, each command and \<open>Handle\<close>. What each command may change, the invariant, what DATA
    accepts, that nothing sent before STARTTLS matters after it, and that \<open>Handle\<close> ends.
  \<^item> \<open>Localrpc\<close>, \<open>Server\<close> (\<open>internal/localrpc\<close>, \<open>internal/smtpsrv/server.go\<close>): the server with all its connections as
    sequences of events in any order: accepting, commands, hang-ups, reloads, signals, remote procedure calls, and
    the deliveries of the queue. The invariant of the connections and the absence of open relaying are shown for
    every reachable state.
  \<^item> \<open>Config\<close>, \<open>Chasquid\<close> (\<open>internal/config\<close>, \<open>chasquid.go\<close>): loading the configuration and what \<open>main\<close> sets up.
  \<^item> \<open>Util\<close>, \<open>MdaLmtp\<close>, \<open>Tools\<close> (\<open>cmd/chasquid-util\<close>, \<open>cmd/mda-lmtp\<close>, \<open>cmd/smtp-check\<close>, \<open>cmd/dovecot-auth-cli\<close>): the
    tools, with their output and exit codes; when the check of a domain succeeds.
  \<^item> \<open>Nettrace\<close>, \<open>NettraceHttp\<close> (\<open>internal/nettrace\<close>): traces and the page that shows them. Tracing never panics and stays
    bounded, and the page of a trace has the events of exactly the traces it leads to.
  \<^item> \<open>Maillog\<close>, \<open>Expvarom\<close>, \<open>Monitoring\<close> (\<open>internal/trace\<close>, \<open>internal/maillog\<close>, \<open>internal/expvarom\<close>, \<open>monitoring.go\<close>): the
    mail log, the exported counters, and the HTTP server for monitoring, where only a POST can make the program exit.

  \<^bold>\<open>Loops.\<close> Most recursions are structural or have a measure: what is left to read, or, for resolving aliases, the
  distance to the limit of the recursion. Two loops may run forever as far as their code shows, and are
  partial functions where \<^const>\<open>None\<close> means that they do not return. For the loop of an item, \<^const>\<open>send_loop\<close>,
  the times of the rounds are a parameter, and it is shown to end when they reach the time to give up. For the loop
  of a connection, \<^const>\<open>handle_loop\<close>, every round reads at least one byte or ends, so it is shown to return
  always. No definition has fuel, and no bound is put on the size of messages, names or databases beyond those
  of the code.

  \<^bold>\<open>Concurrency.\<close> Goroutines are interleaved at the granularity of their locks: the writes of a
  safe write, the steps of a round of deliveries, the commands of connections. Data races are
  not part of the model, since the code protects what it shares with mutexes.

  \<^bold>\<open>Not modelled.\<close> The HTML of the pages for debugging is made by templates of the standard library, which are
  parameters; so is the arithmetic on 32-bit floats of the latency percentages, and two functions that print seconds
  with a fraction are left out. The files and the syslog behind the mail log belong to a logging package outside of the
  repository. \<open>dnsoverride.go\<close> replaces the resolver in builds for tests, \<open>internal/testlib\<close>, \<open>test/util\<close> and
  \<open>internal/nettrace/test_server.go\<close> are only for tests, and the \<open>.pb.go\<close> files are generated: their messages are
  records here and their encodings are parameters. Counters and trace messages are left out of the components that
  write them, where no decision depends on them. Deadlines of connections are errors of reads that may happen at any time.
\<close>

end
